(* ===== verification/Py_Text.thy ===== *)
theory Py_Text
  imports Prelude
begin

section \<open>Text: the string operations the program uses\<close>

text \<open>
  Python strings are lists of characters below code point 256, so a \<open>char\<close> is one code point
  and \<open>length\<close> is Python's \<open>len\<close>. The operations are the standard library's on that
  range: \<open>str.strip\<close>, \<open>str.lower\<close>, \<open>str.casefold\<close>, \<open>str(int)\<close>, \<open>str(UUID)\<close>,
  UTF-8 encoding, Base64, \<open>str.partition\<close> and the two parts of \<open>urllib.parse.urlsplit\<close>
  the code reads. The lemmas say which renderings can be read back.
\<close>

definition code :: "char \<Rightarrow> nat" where
  "code c = of_char c"

lemma code_lt: "code c < 256"
proof -
  have "code c \<in> range (of_char :: char \<Rightarrow> nat)" by (simp add: code_def)
  also have "\<dots> = {0..<256}" by (rule range_nat_of_char)
  finally show ?thesis by simp
qed

lemma char_of_code [simp]: "char_of (code c) = c"
  by (simp add: code_def)

lemma code_char_of: "n < 256 \<Longrightarrow> code (char_of n) = n"
  by (simp add: code_def)

subsection \<open>Whitespace and case\<close>

definition py_space :: "char \<Rightarrow> bool" where
  "py_space c \<longleftrightarrow> (let n = code c in (9 \<le> n \<and> n \<le> 13) \<or> (28 \<le> n \<and> n \<le> 32) \<or> n = 133 \<or> n = 160)"

definition py_strip :: "string \<Rightarrow> string" where
  "py_strip s = rev (dropWhile py_space (rev (dropWhile py_space s)))"

definition lower_char :: "char \<Rightarrow> char" where
  "lower_char c = (let n = code c in
     if (65 \<le> n \<and> n \<le> 90) \<or> (192 \<le> n \<and> n \<le> 222 \<and> n \<noteq> 215) then char_of (n + 32) else c)"

definition py_lower :: "string \<Rightarrow> string" where
  "py_lower s = map lower_char s"

text \<open>
  \<open>casefold\<close> differs from \<open>lower\<close> below 256 on the sharp s (two letters) and the micro
  sign, whose folding lies outside the range; neither folds to an ASCII-only string with the
  micro sign left in place, which is all the comparison with an ASCII header name needs.
\<close>

definition py_casefold :: "string \<Rightarrow> string" where
  "py_casefold s = concat (map (\<lambda>c. if code c = 223 then ''ss'' else [lower_char c]) s)"

definition replace_char :: "char \<Rightarrow> char \<Rightarrow> string \<Rightarrow> string" where
  "replace_char a b s = map (\<lambda>c. if c = a then b else c) s"

lemma py_strip_Nil_iff: "py_strip s = [] \<longleftrightarrow> (\<forall>c\<in>set s. py_space c)"
proof
  assume "py_strip s = []"
  then have "\<forall>c\<in>set (dropWhile py_space s). py_space c"
    by (simp add: py_strip_def dropWhile_eq_Nil_conv)
  moreover have "set s \<subseteq> set (takeWhile py_space s) \<union> set (dropWhile py_space s)"
    by (metis set_append set_eq_subset takeWhile_dropWhile_id)
  ultimately show "\<forall>c\<in>set s. py_space c" by (blast dest: set_takeWhileD)
next
  assume "\<forall>c\<in>set s. py_space c"
  then have "dropWhile py_space s = []" by (simp only: dropWhile_eq_Nil_conv)
  then show "py_strip s = []" by (simp only: py_strip_def rev.simps dropWhile.simps)
qed

lemma hd_py_strip: "py_strip s \<noteq> [] \<Longrightarrow> \<not> py_space (last (py_strip s))"
  by (simp add: py_strip_def last_rev hd_dropWhile)

lemma dropWhile_id_hd: "xs = [] \<or> \<not> P (hd xs) \<Longrightarrow> dropWhile P xs = xs"
  by (cases xs) auto

lemma last_rev_dropWhile:
  "ys = rev (dropWhile P (rev xs)) \<Longrightarrow> ys \<noteq> [] \<Longrightarrow> hd ys = hd xs"
  by (metis append_is_Nil_conv dropWhile_eq_drop hd_append2 rev_append rev_is_rev_conv rev_rev_ident
      takeWhile_dropWhile_id)

lemma py_strip_idem: "py_strip (py_strip s) = py_strip s"
proof (cases "py_strip s = []")
  case True
  moreover have "py_strip [] = []" by (simp add: py_strip_def)
  ultimately show ?thesis by simp
next
  case False
  let ?d = "dropWhile py_space s"
  have "hd (py_strip s) = hd ?d"
    by (rule last_rev_dropWhile [OF _ False]) (simp add: py_strip_def)
  moreover have "?d \<noteq> []" using False by (auto simp: py_strip_def dest: set_dropWhileD)
  ultimately have "\<not> py_space (hd (py_strip s))" by (simp add: hd_dropWhile)
  then have 1: "dropWhile py_space (py_strip s) = py_strip s" by (simp add: dropWhile_id_hd)
  have "\<not> py_space (hd (rev (py_strip s)))"
    using hd_py_strip [OF False] False by (simp add: hd_rev)
  then have "dropWhile py_space (rev (py_strip s)) = rev (py_strip s)" by (simp add: dropWhile_id_hd)
  then show ?thesis by (subst py_strip_def) (simp add: 1)
qed

lemma length_py_strip: "length (py_strip s) \<le> length s"
proof -
  have "length (py_strip s) \<le> length (rev (dropWhile py_space s))"
    unfolding py_strip_def length_rev by (rule length_dropWhile_le [THEN order_trans]) simp
  also have "\<dots> \<le> length s" by (simp add: length_dropWhile_le)
  finally show ?thesis .
qed

subsection \<open>Numbers and identifiers\<close>

definition digit_char :: "nat \<Rightarrow> char" where
  "digit_char n = char_of (if n < 10 then 48 + n else 87 + n)"

fun hex :: "nat \<Rightarrow> nat \<Rightarrow> string" where
  "hex 0 v = []"
| "hex (Suc w) v = hex w (v div 16) @ [digit_char (v mod 16)]"

fun dec :: "nat \<Rightarrow> string" where
  "dec n = (if n < 10 then [digit_char n] else dec (n div 10) @ [digit_char (n mod 10)])"

declare dec.simps [simp del]

definition int_str :: "int \<Rightarrow> string" where
  "int_str i = (if i < 0 then CHR ''-'' # dec (nat (- i)) else dec (nat i))"

definition uuid_str :: "uuid \<Rightarrow> string" where
  "uuid_str u = (let h = hex 32 (unat u) in
     take 8 h @ ''-'' @ take 4 (drop 8 h) @ ''-'' @ take 4 (drop 12 h) @ ''-'' @
     take 4 (drop 16 h) @ ''-'' @ drop 20 h)"

lemma digit_char_inj: "a < 16 \<Longrightarrow> b < 16 \<Longrightarrow> digit_char a = digit_char b \<Longrightarrow> a = b"
proof -
  assume ab: "a < 16" "b < 16" and eq: "digit_char a = digit_char b"
  have "code (digit_char a) = code (digit_char b)" by (simp add: eq)
  with ab show ?thesis by (auto simp: digit_char_def code_char_of split: if_splits)
qed

lemma digit_char_code: "n < 16 \<Longrightarrow> code (digit_char n) = (if n < 10 then 48 + n else 87 + n)"
  by (simp add: digit_char_def code_char_of)

lemma length_hex [simp]: "length (hex w v) = w"
  by (induction w arbitrary: v) auto

lemma hex_inj: "a < 16 ^ w \<Longrightarrow> b < 16 ^ w \<Longrightarrow> hex w a = hex w b \<Longrightarrow> a = b"
proof (induction w arbitrary: a b)
  case 0
  then show ?case by simp
next
  case (Suc w)
  then have "hex w (a div 16) = hex w (b div 16)" and d: "a mod 16 = b mod 16"
    by (auto intro: digit_char_inj)
  moreover have "a div 16 < 16 ^ w" and "b div 16 < 16 ^ w"
    using Suc.prems by (simp_all add: less_mult_imp_div_less mult.commute)
  ultimately have "a div 16 = b div 16" by (blast intro: Suc.IH)
  with d show ?case by (metis div_mult_mod_eq)
qed

lemma length_uuid_str [simp]: "length (uuid_str u) = 36"
  by (simp add: uuid_str_def Let_def)

lemma uuid_str_inj: "uuid_str u = uuid_str v \<Longrightarrow> u = v"
proof -
  assume eq: "uuid_str u = uuid_str v"
  let ?a = "hex 32 (unat u)" and ?b = "hex 32 (unat v)"
  have parts: "take 8 ?a = take 8 ?b" "take 4 (drop 8 ?a) = take 4 (drop 8 ?b)"
    "take 4 (drop 12 ?a) = take 4 (drop 12 ?b)" "take 4 (drop 16 ?a) = take 4 (drop 16 ?b)"
    "drop 20 ?a = drop 20 ?b"
    using eq unfolding uuid_str_def Let_def by (simp_all add: append_eq_append_conv)
  have tail: "drop n h = take 4 (drop n h) @ drop (4 + n) h" for n and h :: string
    using append_take_drop_id [of 4 "drop n h"] by (simp only: drop_drop)
  have split: "h = take 8 h @ take 4 (drop 8 h) @ take 4 (drop 12 h) @ take 4 (drop 16 h) @ drop 20 h"
    for h :: string
    using append_take_drop_id [of 8 h] tail [of 8 h] tail [of 12 h] tail [of 16 h] by simp
  have "?a = ?b" by (subst (1 2) split) (simp only: parts)
  moreover have "unat u < 16 ^ 32" and "unat v < 16 ^ 32"
    using unsigned_less [of u] unsigned_less [of v] by simp_all
  ultimately have "unat u = unat v" by (blast intro: hex_inj)
  then show "u = v" by (simp add: word_unat_eq_iff)
qed

lemma uuid_str_eq_iff [simp]: "uuid_str u = uuid_str v \<longleftrightarrow> u = v"
  by (blast dest: uuid_str_inj)

lemma dec_ne [simp]: "dec n \<noteq> []"
  by (subst dec.simps) simp

lemma dec_digits: "c \<in> set (dec n) \<Longrightarrow> 48 \<le> code c \<and> code c \<le> 57"
proof (induction n rule: dec.induct)
  case (1 n)
  show ?case
  proof (cases "n < 10")
    case True
    with "1.prems" show ?thesis by (simp add: dec.simps [of n] digit_char_code)
  next
    case False
    moreover have "c \<in> set (dec (n div 10)) \<or> c = digit_char (n mod 10)"
      using "1.prems" False by (auto simp: dec.simps [of n])
    moreover have "n mod 10 < 10" by simp
    ultimately show ?thesis using "1.IH" by (auto simp: digit_char_code)
  qed
qed

lemma dec_length_1: "length (dec n) = 1 \<longleftrightarrow> n < 10"
proof (cases "n < 10")
  case True
  then show ?thesis by (simp add: dec.simps [of n])
next
  case False
  then have "length (dec n) = length (dec (n div 10)) + 1" by (simp add: dec.simps [of n])
  with False show ?thesis by simp
qed

lemma dec_inj: "dec m = dec n \<Longrightarrow> m = n"
proof (induction m arbitrary: n rule: dec.induct)
  case (1 m)
  have lens: "m < 10 \<longleftrightarrow> n < 10" using dec_length_1 [of m] dec_length_1 [of n] "1.prems" by simp
  show ?case
  proof (cases "m < 10")
    case True
    with lens "1.prems" show ?thesis by (simp add: dec.simps [of m] dec.simps [of n] digit_char_inj)
  next
    case False
    with lens "1.prems" have "dec (m div 10) = dec (n div 10)"
      and d: "digit_char (m mod 10) = digit_char (n mod 10)"
      by (simp_all add: dec.simps [of m] dec.simps [of n])
    with False have "m div 10 = n div 10" by (blast intro: "1.IH")
    moreover have "m mod 10 < 16" and "n mod 10 < 16"
      by (rule order_less_trans [of _ 10]; simp)+
    with d have "m mod 10 = n mod 10" by (blast intro: digit_char_inj)
    ultimately show ?thesis by (metis div_mult_mod_eq)
  qed
qed

lemma int_str_inj: "int_str i = int_str j \<Longrightarrow> i = j"
proof -
  assume eq: "int_str i = int_str j"
  have minus: "CHR ''-'' \<notin> set (dec n)" for n
  proof
    assume "CHR ''-'' \<in> set (dec n)"
    then have "48 \<le> code CHR ''-''" by (blast dest: dec_digits)
    then show False by (simp add: code_def)
  qed
  have head: "CHR ''-'' # xs \<noteq> dec n" for xs n
    using minus [of n] by (metis list.set_intros(1))
  show "i = j"
    using eq head by (auto simp: int_str_def dest!: dec_inj split: if_splits) (metis head)+
qed

text \<open>No rendering of a number or an identifier holds one of the separators the code puts between them.\<close>

lemma int_str_no_bar: "CHR ''|'' \<notin> set (int_str i)"
proof
  assume "CHR ''|'' \<in> set (int_str i)"
  then have "\<exists>n. CHR ''|'' \<in> set (dec n)" by (auto simp: int_str_def split: if_splits)
  then have "code CHR ''|'' \<le> 57" by (blast dest: dec_digits)
  then show False by (simp add: code_def)
qed

subsection \<open>Bytes and Base64\<close>

definition utf8 :: "string \<Rightarrow> nat list" where
  "utf8 s = concat (map (\<lambda>c. if code c < 128 then [code c]
     else [192 + code c div 64, 128 + code c mod 64]) s)"

definition b64_alphabet :: string where
  "b64_alphabet = ''ABCDEFGHIJKLMNOPQRSTUVWXYZabcdefghijklmnopqrstuvwxyz0123456789+/''"

definition b64_char :: "nat \<Rightarrow> char" where
  "b64_char n = b64_alphabet ! n"

fun b64encode :: "nat list \<Rightarrow> string" where
  "b64encode [] = []"
| "b64encode [a] = [b64_char (a div 4), b64_char (a mod 4 * 16), CHR ''='', CHR ''='']"
| "b64encode [a, b] =
     [b64_char (a div 4), b64_char (a mod 4 * 16 + b div 16), b64_char (b mod 16 * 4), CHR ''='']"
| "b64encode (a # b # c # rest) =
     [b64_char (a div 4), b64_char (a mod 4 * 16 + b div 16),
      b64_char (b mod 16 * 4 + c div 64), b64_char (c mod 64)] @ b64encode rest"

text \<open>The decoder of RFC 4648, as the receiving provider runs it.\<close>

fun b64_index :: "char \<Rightarrow> string \<Rightarrow> nat" where
  "b64_index c [] = 0"
| "b64_index c (d # ds) = (if c = d then 0 else Suc (b64_index c ds))"

definition b64_val :: "char \<Rightarrow> nat" where
  "b64_val c = b64_index c b64_alphabet"

fun b64decode :: "string \<Rightarrow> nat list" where
  "b64decode (p # q # r # s # rest) =
     (if r = CHR ''='' then [b64_val p * 4 + b64_val q div 16]
      else if s = CHR ''='' then
        [b64_val p * 4 + b64_val q div 16, b64_val q mod 16 * 16 + b64_val r div 4]
      else [b64_val p * 4 + b64_val q div 16, b64_val q mod 16 * 16 + b64_val r div 4,
            b64_val r mod 4 * 64 + b64_val s] @ b64decode rest)"
| "b64decode _ = []"

lemma b64_index_nth: "distinct xs \<Longrightarrow> n < length xs \<Longrightarrow> b64_index (xs ! n) xs = n"
proof (induction xs arbitrary: n)
  case Nil
  then show ?case by simp
next
  case (Cons x xs)
  then show ?case by (cases n) auto
qed

lemma b64_alphabet: "distinct b64_alphabet" "length b64_alphabet = 64" "CHR ''='' \<notin> set b64_alphabet"
  by (simp_all add: b64_alphabet_def)

lemma b64_val_char [simp]: "n < 64 \<Longrightarrow> b64_val (b64_char n) = n"
  by (simp add: b64_val_def b64_char_def b64_index_nth b64_alphabet)

lemma b64_char_neq_pad [simp]: "n < 64 \<Longrightarrow> b64_char n \<noteq> CHR ''=''"
  using nth_mem [of n b64_alphabet] b64_alphabet by (metis b64_char_def)

lemma unpack_digits:
  fixes x y k :: nat
  shows "y < k \<Longrightarrow> (x * k + y) div k = x" and "y < k \<Longrightarrow> (x * k + y) mod k = y"
  by simp_all

lemma b64_bounds:
  fixes a b :: nat
  shows "a < 256 \<Longrightarrow> a div 4 < 64" "a mod 4 * 16 < 64" "b < 256 \<Longrightarrow> a mod 4 * 16 + b div 16 < 64"
    "a mod 16 * 4 < 64" "b < 256 \<Longrightarrow> a mod 16 * 4 + b div 64 < 64" "b < 256 \<Longrightarrow> b div 16 < 16"
    "b < 256 \<Longrightarrow> b div 64 < 4"
proof -
  have m: "a mod 4 < 4" "a mod 16 < 16" by simp_all
  show "a < 256 \<Longrightarrow> a div 4 < 64" "b < 256 \<Longrightarrow> b div 16 < 16" "b < 256 \<Longrightarrow> b div 64 < 4"
    by (simp_all add: less_mult_imp_div_less)
  then show "a mod 4 * 16 < 64" "b < 256 \<Longrightarrow> a mod 4 * 16 + b div 16 < 64"
    "a mod 16 * 4 < 64" "b < 256 \<Longrightarrow> a mod 16 * 4 + b div 64 < 64"
    using m by linarith+
qed

lemma b64_roundtrip: "\<forall>x\<in>set xs. x < 256 \<Longrightarrow> b64decode (b64encode xs) = xs"
proof (induction xs rule: b64encode.induct)
  case 1
  show ?case by simp
next
  case (2 a)
  then show ?case by (simp add: b64_bounds)
next
  case (3 a b)
  then have lt: "a < 256" "b < 256" by simp_all
  show ?case
    by (simp add: b64_bounds lt unpack_digits)
next
  case (4 a b c rest)
  then have lt: "a < 256" "b < 256" "c < 256" and IH: "b64decode (b64encode rest) = rest" by simp_all
  show ?case
    by (simp add: b64_bounds lt IH unpack_digits)
qed

lemma utf8_lt: "x \<in> set (utf8 s) \<Longrightarrow> x < 256"
proof -
  assume "x \<in> set (utf8 s)"
  then obtain c where x: "x \<in> set (if code c < 128 then [code c]
      else [192 + code c div 64, 128 + code c mod 64])"
    unfolding utf8_def set_concat set_map by blast
  have "code c < 256" by (rule code_lt)
  then have "code c div 64 < 4" by (simp add: less_mult_imp_div_less)
  moreover have "code c mod 64 < 64" by simp
  ultimately show ?thesis using x by (auto split: if_splits)
qed

subsection \<open>Splitting\<close>

text \<open>\<open>str.partition("://")\<close>: the part before, whether the separator occurs, the part after.\<close>

fun partition_scheme :: "string \<Rightarrow> string \<times> bool \<times> string" where
  "partition_scheme [] = ([], False, [])"
| "partition_scheme (c # cs) =
     (if take 3 (c # cs) = ''://'' then ([], True, drop 3 (c # cs))
      else (case partition_scheme cs of (a, found, b) \<Rightarrow> (c # a, found, b)))"

text \<open>\<open>sep.join(parts)\<close>.\<close>

fun join :: "string \<Rightarrow> string list \<Rightarrow> string" where
  "join sep [] = []"
| "join sep [x] = x"
| "join sep (x # y # ys) = x @ sep @ join sep (y # ys)"

text \<open>
  Scheme and netloc of \<open>urlsplit\<close>; \<open>None\<close> is its \<open>ValueError\<close>. Leading control
  characters and spaces are dropped and tabs and line breaks removed before the URL is read. The
  checks of a bracketed host and of a host outside ASCII need the library's address parser and
  Unicode tables: \<open>netloc_ok\<close> stands for "those checks pass".
\<close>

definition is_alpha :: "char \<Rightarrow> bool" where
  "is_alpha c \<longleftrightarrow> (let n = code c in (65 \<le> n \<and> n \<le> 90) \<or> (97 \<le> n \<and> n \<le> 122))"

definition scheme_char :: "char \<Rightarrow> bool" where
  "scheme_char c \<longleftrightarrow> is_alpha c \<or> (48 \<le> code c \<and> code c \<le> 57) \<or> c \<in> set ''+-.''"

definition urlsplit :: "(string \<Rightarrow> bool) \<Rightarrow> string \<Rightarrow> (string \<times> string) option" where
  "urlsplit netloc_ok url =
     (let u = filter (\<lambda>c. code c \<noteq> 9 \<and> code c \<noteq> 10 \<and> code c \<noteq> 13) (dropWhile (\<lambda>c. code c \<le> 32) url);
          before = takeWhile (\<lambda>c. c \<noteq> CHR '':'') u;
          has_scheme = (before \<noteq> [] \<and> length before < length u \<and> is_alpha (hd before)
                        \<and> list_all scheme_char before);
          scheme = (if has_scheme then py_lower before else []);
          rest = (if has_scheme then drop (Suc (length before)) u else u);
          netloc = (if take 2 rest = ''//'' then takeWhile (\<lambda>c. c \<notin> set ''/?#'') (drop 2 rest) else []);
          opened = (CHR ''['' \<in> set netloc); closed = (CHR '']'' \<in> set netloc)
      in if opened \<noteq> closed then None
         else if (opened \<or> (\<exists>c\<in>set netloc. 128 \<le> code c)) \<and> \<not> netloc_ok netloc then None
         else Some (scheme, netloc))"

lemma urlsplit_examples:
  "urlsplit f ''https://shop.example/api'' = Some (''https'', ''shop.example'')"
  "urlsplit f ''HTTP://h:80?x'' = Some (''http'', ''h:80'')"
  "urlsplit f ''ftp:/h'' = Some (''ftp'', [])"
  "urlsplit f ''//h/p'' = Some ([], ''h'')"
  "urlsplit f ''http://[h'' = None"
  by (simp_all add: urlsplit_def Let_def code_def scheme_char_def is_alpha_def py_lower_def lower_char_def
      char_of_def bit_Suc_0_iff)

end
