(* ===== verification/Sha256.thy ===== *)
theory Sha256
  imports Py_Text
begin

section \<open>SHA-256\<close>

text \<open>
  \<open>hashlib.sha256(\<dots>).hexdigest()\<close>, as FIPS 180-4 defines it, on a list of bytes. The
  request fingerprint of a reservation is such a digest; the schema's check that it has 64
  characters rests on \<open>length_sha256_hex\<close>.
\<close>

unbundle bit_operations_syntax

type_synonym w32 = "32 word"

text \<open>
  The first 32 bits of the fractional parts of the cube roots of the first 64 primes, and of the
  square roots of the first 8.
\<close>

definition sha_k :: "w32 list" where
  "sha_k =
    [1116352408, 1899447441, 3049323471, 3921009573, 961987163, 1508970993, 2453635748, 2870763221,
     3624381080, 310598401, 607225278, 1426881987, 1925078388, 2162078206, 2614888103, 3248222580,
     3835390401, 4022224774, 264347078, 604807628, 770255983, 1249150122, 1555081692, 1996064986,
     2554220882, 2821834349, 2952996808, 3210313671, 3336571891, 3584528711, 113926993, 338241895,
     666307205, 773529912, 1294757372, 1396182291, 1695183700, 1986661051, 2177026350, 2456956037,
     2730485921, 2820302411, 3259730800, 3345764771, 3516065817, 3600352804, 4094571909, 275423344,
     430227734, 506948616, 659060556, 883997877, 958139571, 1322822218, 1537002063, 1747873779,
     1955562222, 2024104815, 2227730452, 2361852424, 2428436474, 2756734187, 3204031479, 3329325298]"

definition sha_init :: "w32 list" where
  "sha_init =
    [1779033703, 3144134277, 1013904242, 2773480762, 1359893119, 2600822924, 528734635, 1541459225]"

definition small_sigma0 :: "w32 \<Rightarrow> w32" where
  "small_sigma0 x = word_rotr 7 x XOR word_rotr 18 x XOR drop_bit 3 x"

definition small_sigma1 :: "w32 \<Rightarrow> w32" where
  "small_sigma1 x = word_rotr 17 x XOR word_rotr 19 x XOR drop_bit 10 x"

definition big_sigma0 :: "w32 \<Rightarrow> w32" where
  "big_sigma0 x = word_rotr 2 x XOR word_rotr 13 x XOR word_rotr 22 x"

definition big_sigma1 :: "w32 \<Rightarrow> w32" where
  "big_sigma1 x = word_rotr 6 x XOR word_rotr 11 x XOR word_rotr 25 x"

definition sha_ch :: "w32 \<Rightarrow> w32 \<Rightarrow> w32 \<Rightarrow> w32" where
  "sha_ch x y z = (x AND y) XOR (NOT x AND z)"

definition sha_maj :: "w32 \<Rightarrow> w32 \<Rightarrow> w32 \<Rightarrow> w32" where
  "sha_maj x y z = (x AND y) XOR (x AND z) XOR (y AND z)"

text \<open>The message schedule, newest word first while it grows.\<close>

fun sha_extend :: "nat \<Rightarrow> w32 list \<Rightarrow> w32 list" where
  "sha_extend 0 ws = ws"
| "sha_extend (Suc n) ws =
     sha_extend n ((small_sigma1 (ws ! 1) + ws ! 6 + small_sigma0 (ws ! 14) + ws ! 15) # ws)"

definition sha_schedule :: "w32 list \<Rightarrow> w32 list" where
  "sha_schedule block = rev (sha_extend 48 (rev block))"

fun sha_round :: "w32 list \<Rightarrow> w32 \<times> w32 \<Rightarrow> w32 list" where
  "sha_round [a, b, c, d, e, f, g, h] (k, w) =
     (let t1 = h + big_sigma1 e + sha_ch e f g + k + w;
          t2 = big_sigma0 a + sha_maj a b c
      in [t1 + t2, a, b, c, d + t1, e, f, g])"
| "sha_round hs _ = hs"

definition sha_block :: "w32 list \<Rightarrow> w32 list \<Rightarrow> w32 list" where
  "sha_block hs block = map2 (+) hs (foldl sha_round hs (zip sha_k (sha_schedule block)))"

definition be_word :: "nat list \<Rightarrow> w32" where
  "be_word bs = of_nat (foldl (\<lambda>n b. n * 256 + b) 0 bs)"

fun chunks :: "nat \<Rightarrow> nat \<Rightarrow> 'a list \<Rightarrow> 'a list list" where
  "chunks 0 k xs = []"
| "chunks (Suc n) k xs = take k xs # chunks n k (drop k xs)"

definition sha_pad :: "nat list \<Rightarrow> nat list" where
  "sha_pad bs = (let n = length bs; bits = 8 * n in
     bs @ [128] @ replicate ((119 - n mod 64) mod 64) 0 @
     map (\<lambda>i. bits div 256 ^ (7 - i) mod 256) [0..<8])"

definition sha256 :: "nat list \<Rightarrow> w32 list" where
  "sha256 bs = (let p = sha_pad bs in
     foldl sha_block sha_init
       (map (\<lambda>block. map be_word (chunks 16 4 block)) (chunks (length p div 64) 64 p)))"

definition sha256_hex :: "nat list \<Rightarrow> string" where
  "sha256_hex bs = concat (map (\<lambda>w. hex 8 (unat w)) (sha256 bs))"

lemma length_sha_pad: "length (sha_pad bs) mod 64 = 0"
proof -
  have "(n + 1 + (119 - n mod 64) mod 64 + 8) mod 64 = (0::nat)" for n
  proof -
    define q m where "q = n div 64" and "m = n mod 64"
    have n: "n = 64 * q + m" and m: "m < 64" by (simp_all add: q_def m_def)
    have "(119 - m) mod 64 = (if m \<le> 55 then 55 - m else 119 - m)"
    proof (cases "m \<le> 55")
      case True
      then have eq: "119 - m = (55 - m) + 64" by simp
      have "(119 - m) mod 64 = 55 - m" by (simp only: eq mod_add_self2) simp
      with True show ?thesis by simp
    qed simp
    then have "n + 1 + (119 - n mod 64) mod 64 + 8 = 64 * (if m \<le> 55 then q + 1 else q + 2)"
      using m unfolding m_def [symmetric] by (simp add: n)
    then show ?thesis by simp
  qed
  from this [of "length bs"] show ?thesis by (simp add: sha_pad_def Let_def ac_simps)
qed

lemma length_sha_round [simp]: "length (sha_round hs kw) = length hs"
  by (induction hs kw rule: sha_round.induct) (simp_all add: Let_def)

lemma length_sha_rounds [simp]: "length (foldl sha_round hs kws) = length hs"
  by (induction kws arbitrary: hs) simp_all

lemma length_sha_block: "length hs = 8 \<Longrightarrow> length (sha_block hs block) = 8"
  by (simp add: sha_block_def)

lemma length_sha_blocks: "length hs = 8 \<Longrightarrow> length (foldl sha_block hs blocks) = 8"
  by (induction blocks arbitrary: hs) (simp_all add: length_sha_block)

lemma length_sha256: "length (sha256 bs) = 8"
  by (simp add: sha256_def Let_def length_sha_blocks sha_init_def)

lemma length_concat_hex: "length (concat (map (\<lambda>w. hex 8 (f w)) ws)) = 8 * length ws"
  by (induction ws) simp_all

lemma length_sha256_hex: "length (sha256_hex bs) = 64"
  by (simp add: sha256_hex_def length_concat_hex length_sha256)

end
