(* ===== verification/Reservation_Domain.thy ===== *)
theory Reservation_Domain
  imports Sha256
begin

section \<open>Reservations: the domain model\<close>

text \<open>
  The dataclasses and pure functions of \<open>service/reservation.py\<close>: statuses, items, drafts, the
  reservation aggregate with its two transitions, the request fingerprint and the resolution of an
  idempotent retry. \<open>exn\<close> lists the exceptions of the whole program.
\<close>

subsection \<open>Statuses, items and exceptions\<close>

datatype reservation_status =
  Pending | Confirming | Confirmed | Releasing | Cancelled | Expired | Failed

fun status_value :: "reservation_status \<Rightarrow> string" where
  "status_value Pending = ''pending''"
| "status_value Confirming = ''confirming''"
| "status_value Confirmed = ''confirmed''"
| "status_value Releasing = ''releasing''"
| "status_value Cancelled = ''cancelled''"
| "status_value Expired = ''expired''"
| "status_value Failed = ''failed''"

record item =
  it_product :: uuid
  it_provider :: uuid
  it_quantity :: int

datatype exn =
    InvalidReservationQuantityError int
  | InvalidReservationTtlError duration
  | EmptyReservationError
  | IdempotencyConflictError string uuid
  | ConcurrentReservationCreationError
  | ReservationNotCancellableError uuid
  | ReservationNotConfirmableError uuid
  | ReservationReconciliationRequiredError uuid
  | InsufficientInventoryError "item list"
  | ReservationNotFoundError uuid
  | SecretResolutionError
  | ProviderCallFailedError uuid
  | UnknownProviderOutcomeError uuid string
  | InventoryConfirmationError
  | InventoryReleaseError
  | HttpStatusError nat
  | HttpTransportError
  | PayloadValidationError
  | InventoryBelowReservedError uuid uuid int
  | InventoryHasActiveReservationsError uuid uuid int
  | InventoryLevelNotFoundError uuid uuid
  | ProductNotFoundError uuid
  | ProductSkuConflictError string
  | InvalidProductConfigurationError string
  | ProviderNotFoundError uuid
  | ProviderNameConflictError string
  | InvalidProviderConfigurationError string
  | IntegrityError string
  | DataError
  | PyValueError
  | PyOverflowError

text \<open>\<open>ReservationItem.__post_init__\<close>\<close>

definition mk_item :: "uuid \<Rightarrow> uuid \<Rightarrow> int \<Rightarrow> exn + item" where
  "mk_item product provider quantity =
     (if quantity \<le> 0 then Inl (InvalidReservationQuantityError quantity)
      else Inr \<lparr>it_product = product, it_provider = provider, it_quantity = quantity\<rparr>)"

subsection \<open>The aggregate\<close>

record draft =
  dr_id :: uuid
  dr_user :: uuid
  dr_items :: "item list"
  dr_key :: string
  dr_fingerprint :: string
  dr_now :: instant
  dr_ttl :: duration

record reservation =
  res_id :: uuid
  res_user :: uuid
  res_items :: "item list"
  res_key :: string
  res_fingerprint :: string
  res_created :: instant
  res_expires :: instant
  res_status :: reservation_status
  res_target :: "reservation_status option"

text \<open>
  \<open>Reservation.__post_init__\<close>, which the constructor runs and \<open>dataclasses.replace\<close>
  runs again.
\<close>

definition mk_reservation :: "reservation \<Rightarrow> exn + reservation" where
  "mk_reservation r =
     (if res_items r = [] then Inl EmptyReservationError
      else let ttl = res_expires r - res_created r in
        if ttl \<le> 0 then Inl (InvalidReservationTtlError ttl) else Inr r)"

definition start :: "draft \<Rightarrow> exn + reservation" where
  "start d = mk_reservation
     \<lparr>res_id = dr_id d, res_user = dr_user d, res_items = dr_items d, res_key = dr_key d,
      res_fingerprint = dr_fingerprint d, res_created = dr_now d, res_expires = dr_now d + dr_ttl d,
      res_status = Pending, res_target = None\<rparr>"

definition confirm_domain :: "reservation \<Rightarrow> exn + reservation" where
  "confirm_domain r =
     (if res_status r = Confirmed then Inr r
      else if res_status r = Cancelled then Inl (ReservationNotConfirmableError (res_id r))
      else mk_reservation (r\<lparr>res_status := Confirmed, res_target := None\<rparr>))"

definition cancel_domain :: "reservation \<Rightarrow> exn + reservation" where
  "cancel_domain r =
     (if res_status r = Cancelled then Inr r
      else if res_status r = Confirmed then Inl (ReservationNotCancellableError (res_id r))
      else if res_status r = Confirming then Inl (ReservationReconciliationRequiredError (res_id r))
      else mk_reservation (r\<lparr>res_status := Cancelled, res_target := None\<rparr>))"

definition valid_reservation :: "reservation \<Rightarrow> bool" where
  "valid_reservation r \<longleftrightarrow> res_items r \<noteq> [] \<and> res_created r < res_expires r"

lemma mk_reservation_Inr: "mk_reservation r = Inr r' \<longleftrightarrow> r' = r \<and> valid_reservation r"
  by (auto simp: mk_reservation_def valid_reservation_def Let_def)

lemma mk_reservation_valid: "valid_reservation r \<Longrightarrow> mk_reservation r = Inr r"
  by (simp add: mk_reservation_Inr)

lemma start_Inr:
  "start d = Inr r \<longleftrightarrow> dr_items d \<noteq> [] \<and> 0 < dr_ttl d \<and>
     r = \<lparr>res_id = dr_id d, res_user = dr_user d, res_items = dr_items d, res_key = dr_key d,
      res_fingerprint = dr_fingerprint d, res_created = dr_now d, res_expires = dr_now d + dr_ttl d,
      res_status = Pending, res_target = None\<rparr>"
  unfolding start_def mk_reservation_Inr valid_reservation_def by auto

subsection \<open>Fingerprints\<close>

definition item_key :: "item \<Rightarrow> uuid \<times> uuid" where
  "item_key i = (it_product i, it_provider i)"

definition item_str :: "item \<Rightarrow> string" where
  "item_str i = uuid_str (it_product i) @ '':'' @ uuid_str (it_provider i) @ '':'' @ int_str (it_quantity i)"

definition canonical_items :: "item list \<Rightarrow> string" where
  "canonical_items items = join ''|'' (map item_str (sort_key item_key items))"

definition reservation_request_fingerprint :: "item list \<Rightarrow> string" where
  "reservation_request_fingerprint items = sha256_hex (utf8 (canonical_items items))"

text \<open>\<open>_resolve_idempotent_retry\<close>\<close>

definition resolve_idempotent_retry :: "reservation \<Rightarrow> string \<Rightarrow> string \<Rightarrow> exn + reservation" where
  "resolve_idempotent_retry existing key fingerprint =
     (if res_fingerprint existing \<noteq> fingerprint
      then Inl (IdempotencyConflictError key (res_id existing))
      else if res_status existing = Failed \<or> res_target existing = Some Failed
      then Inl (InsufficientInventoryError (res_items existing))
      else Inr existing)"

subsection \<open>The fingerprint identifies the request\<close>

lemma digit_char_range: "n < 16 \<Longrightarrow> 48 \<le> code (digit_char n) \<and> code (digit_char n) \<le> 102"
  by (simp add: digit_char_code)

lemma hex_chars: "c \<in> set (hex w v) \<Longrightarrow> 48 \<le> code c \<and> code c \<le> 102"
proof (induction w arbitrary: v)
  case 0
  then show ?case by simp
next
  case (Suc w)
  have "v mod 16 < 16" by simp
  then have "48 \<le> code (digit_char (v mod 16)) \<and> code (digit_char (v mod 16)) \<le> 102"
    by (rule digit_char_range)
  with Suc show ?case by auto
qed

lemma uuid_str_chars: "c \<in> set (uuid_str u) \<Longrightarrow> 45 \<le> code c \<and> code c \<le> 102"
proof -
  assume "c \<in> set (uuid_str u)"
  then have "c = CHR ''-'' \<or> c \<in> set (hex 32 (unat u))"
    by (auto simp: uuid_str_def Let_def dest: in_set_takeD in_set_dropD)
  then show ?thesis by (auto dest!: hex_chars simp: code_def)
qed

lemma int_str_chars: "c \<in> set (int_str i) \<Longrightarrow> 45 \<le> code c \<and> code c \<le> 57"
  by (auto simp: int_str_def code_def dest: dec_digits [unfolded code_def] split: if_splits)

lemma item_str_chars: "c \<in> set (item_str i) \<Longrightarrow> 45 \<le> code c \<and> code c \<le> 102"
  unfolding item_str_def by (auto dest!: uuid_str_chars int_str_chars simp: code_def)

lemma item_str_no_bar: "CHR ''|'' \<notin> set (item_str i)"
  using item_str_chars [of "CHR ''|''" i] by (auto simp: code_def)

lemma item_str_ne: "item_str i \<noteq> []"
  by (simp add: item_str_def)

lemma item_str_inj: "item_str i = item_str j \<Longrightarrow> i = j"
  unfolding item_str_def by (auto simp: append_eq_append_conv dest!: int_str_inj)

text \<open>A joined list of non-empty parts without the separator can be taken apart again.\<close>

lemma split_at_bar:
  "a @ CHR ''|'' # x = b @ CHR ''|'' # y \<Longrightarrow> CHR ''|'' \<notin> set a \<Longrightarrow> CHR ''|'' \<notin> set b \<Longrightarrow>
   a = b \<and> x = y"
  by (induction a arbitrary: b; case_tac b) (auto)

lemma join_bar_inj:
  assumes "join ''|'' xs = join ''|'' ys"
    and "\<forall>x\<in>set xs. x \<noteq> [] \<and> CHR ''|'' \<notin> set x" and "\<forall>y\<in>set ys. y \<noteq> [] \<and> CHR ''|'' \<notin> set y"
  shows "xs = ys"
  using assms
proof (induction "''|''" xs arbitrary: ys rule: join.induct)
  case 1
  then show ?case
  proof (cases ys)
    case (Cons y zs)
    with 1 show ?thesis by (cases zs) auto
  qed simp
next
  case (2 x)
  then show ?case
  proof (cases ys)
    case (Cons y zs)
    with 2 show ?thesis by (cases zs) (auto simp: split: if_splits)
  qed auto
next
  case (3 x x' xs)
  then show ?case
  proof (cases ys)
    case Nil
    with 3 show ?thesis by simp
  next
    case (Cons y zs)
    note ys = this
    show ?thesis
    proof (cases zs)
      case Nil
      then have "CHR ''|'' \<in> set y" using "3.prems" ys by (metis append_Cons in_set_conv_decomp join.simps(2,3))
      then show ?thesis using "3.prems" ys by simp
    next
      case (Cons z ws)
      have "x @ CHR ''|'' # join ''|'' (x' # xs) = y @ CHR ''|'' # join ''|'' (z # ws)"
        using "3.prems"(1) ys Cons by simp
      then have "x = y \<and> join ''|'' (x' # xs) = join ''|'' (z # ws)"
        by (rule split_at_bar) (use "3.prems" ys in auto)
      moreover have "x' # xs = z # ws"
        by (rule "3.hyps") (use calculation "3.prems" ys Cons in auto)
      ultimately show ?thesis using ys Cons by simp
    qed
  qed
qed

lemma join_chars: "c \<in> set (join sep xs) \<Longrightarrow> c \<in> set sep \<or> (\<exists>x\<in>set xs. c \<in> set x)"
  by (induction sep xs rule: join.induct) auto

lemma utf8_ascii: "\<forall>c\<in>set s. code c < 128 \<Longrightarrow> utf8 s = map code s"
  by (induction s) (simp_all add: utf8_def)

lemma canonical_items_ascii: "c \<in> set (canonical_items items) \<Longrightarrow> code c < 128"
  unfolding canonical_items_def by (auto dest!: join_chars item_str_chars simp: code_def)

lemma utf8_canonical_items: "utf8 (canonical_items items) = map code (canonical_items items)"
  by (rule utf8_ascii) (blast dest: canonical_items_ascii)

lemma code_inj: "inj code"
  by (rule injI) (metis char_of_code)

lemma canonical_items_inj:
  "canonical_items xs = canonical_items ys \<Longrightarrow> sort_key item_key xs = sort_key item_key ys"
proof -
  assume "canonical_items xs = canonical_items ys"
  then have "map item_str (sort_key item_key xs) = map item_str (sort_key item_key ys)"
    unfolding canonical_items_def by (rule join_bar_inj) (auto simp: item_str_ne item_str_no_bar)
  then show ?thesis by (rule map_injective) (auto intro: injI item_str_inj)
qed

lemma canonical_items_mset: "canonical_items xs = canonical_items ys \<Longrightarrow> mset xs = mset ys"
  by (metis canonical_items_inj mset_sort)

lemma canonical_items_perm:
  assumes "mset xs = mset ys" and "distinct (map item_key xs)"
  shows "canonical_items xs = canonical_items ys"
proof -
  have "inj_on item_key (set xs)" using assms(2) by (simp add: distinct_map)
  then have "sort_key item_key xs = sort_key item_key ys"
    using assms(1) by (intro sort_key_inj_key_eq) simp_all
  then show ?thesis by (simp add: canonical_items_def)
qed



end
