(* ===== verification/Schema.thy ===== *)
theory Schema
  imports Reservation_Domain
begin

section \<open>The tables and their constraints\<close>

text \<open>
  \<open>repository/models.py\<close>: one record per table, with the columns the program reads or writes,
  a database of tables, and one insertion per table that checks what PostgreSQL checks in the order
  it checks it: column lengths, \<open>CHECK\<close> constraints, primary and unique keys, foreign keys.
  A violated constraint is an \<open>IntegrityError\<close> with the constraint's name; a value that does
  not fit its column is a \<open>DataError\<close>. The counters of versions and attempts are unbounded here.
\<close>

subsection \<open>Column enumerations\<close>

datatype provider_kind = Internal | External

fun kind_value :: "provider_kind \<Rightarrow> string" where
  "kind_value Internal = ''internal''"
| "kind_value External = ''external''"

datatype auth_type = Auth_None | Auth_Api_Key | Auth_Bearer | Auth_Basic | Auth_OAuth2

fun auth_value :: "auth_type \<Rightarrow> string" where
  "auth_value Auth_None = ''none''"
| "auth_value Auth_Api_Key = ''api_key''"
| "auth_value Auth_Bearer = ''bearer''"
| "auth_value Auth_Basic = ''basic''"
| "auth_value Auth_OAuth2 = ''oauth2''"

datatype status_model =
  M_Pending | M_Reserving | M_Active | M_Confirming | M_Confirmed | M_Releasing | M_Cancelled
| M_Expired | M_Failed

fun status_model_value :: "status_model \<Rightarrow> string" where
  "status_model_value M_Pending = ''pending''"
| "status_model_value M_Reserving = ''reserving''"
| "status_model_value M_Active = ''active''"
| "status_model_value M_Confirming = ''confirming''"
| "status_model_value M_Confirmed = ''confirmed''"
| "status_model_value M_Releasing = ''releasing''"
| "status_model_value M_Cancelled = ''cancelled''"
| "status_model_value M_Expired = ''expired''"
| "status_model_value M_Failed = ''failed''"

datatype allocation_status =
  A_Pending | A_Held | A_Confirming | A_Confirmed | A_Releasing | A_Released | A_Failed | A_Unknown

datatype operation_type = Op_Check | Op_Hold | Op_Confirm | Op_Release

datatype operation_status = Op_Pending | Op_In_Progress | Op_Succeeded | Op_Failed | Op_Unknown

text \<open>
  \<open>ReservationStatus(model.status.value)\<close> and its converse: the enumeration is looked up by
  value, and a value it lacks raises \<open>ValueError\<close>.
\<close>

definition all_statuses :: "reservation_status list" where
  "all_statuses = [Pending, Confirming, Confirmed, Releasing, Cancelled, Expired, Failed]"

definition all_status_models :: "status_model list" where
  "all_status_models = [M_Pending, M_Reserving, M_Active, M_Confirming, M_Confirmed, M_Releasing,
     M_Cancelled, M_Expired, M_Failed]"

definition parse_status :: "string \<Rightarrow> exn + reservation_status" where
  "parse_status v = (case find (\<lambda>s. status_value s = v) all_statuses of
     None \<Rightarrow> Inl PyValueError | Some s \<Rightarrow> Inr s)"

definition parse_status_model :: "string \<Rightarrow> exn + status_model" where
  "parse_status_model v = (case find (\<lambda>s. status_model_value s = v) all_status_models of
     None \<Rightarrow> Inl PyValueError | Some s \<Rightarrow> Inr s)"

definition status_to_model :: "reservation_status \<Rightarrow> exn + status_model" where
  "status_to_model s = parse_status_model (status_value s)"

definition status_of_model :: "status_model \<Rightarrow> exn + reservation_status" where
  "status_of_model m = parse_status (status_model_value m)"

text \<open>A JSON value, the type of a credential's public configuration.\<close>

datatype json =
  JNull | JBool bool | JNum int | JStr string | JList "json list" | JObj "(string \<times> json) list"

subsection \<open>Rows\<close>

record product_row =
  p_id :: uuid
  p_sku :: string
  p_name :: string
  p_active :: bool

record provider_row =
  v_id :: uuid
  v_name :: string
  v_kind :: provider_kind
  v_driver :: string
  v_base_url :: "string option"
  v_timeout_ms :: int
  v_availability :: bool
  v_hold :: bool
  v_confirm :: bool
  v_release :: bool
  v_enabled :: bool

record credential_row =
  c_provider :: uuid
  c_auth :: auth_type
  c_secret_ref :: "string option"
  c_config :: "(string \<times> json) list"

record offer_row =
  o_product :: uuid
  o_provider :: uuid
  o_on_hand :: int
  o_reserved :: int
  o_priority :: int
  o_group :: "uuid option"
  o_version :: int
  o_observed :: "instant option"

record reservation_row =
  r_id :: uuid
  r_user :: uuid
  r_key :: string
  r_fingerprint :: string
  r_status :: status_model
  r_expires :: instant
  r_created :: instant
  r_updated :: instant
  r_target :: "status_model option"
  r_failure_code :: "string option"
  r_failure_reason :: "string option"

record item_row =
  ri_id :: uuid
  ri_reservation :: uuid
  ri_product :: uuid
  ri_provider :: uuid
  ri_quantity :: int

record allocation_row =
  al_id :: uuid
  al_item :: uuid
  al_provider :: uuid
  al_quantity :: int
  al_status :: allocation_status
  al_hold_key :: string
  al_reference :: "string option"

record operation_row =
  op_id :: uuid
  op_allocation :: uuid
  op_type :: operation_type
  op_status :: operation_status
  op_key :: string
  op_attempts :: int
  op_next_attempt :: "instant option"
  op_reference :: "string option"
  op_error_code :: "string option"
  op_error_message :: "string option"

record order_row =
  od_id :: uuid
  od_reservation :: uuid
  od_user :: uuid

record order_item_row =
  oi_id :: uuid
  oi_order :: uuid
  oi_product :: uuid
  oi_quantity :: int

record database =
  products :: "product_row list"
  providers :: "provider_row list"
  credentials :: "credential_row list"
  offers :: "offer_row list"
  reservations :: "reservation_row list"
  items :: "item_row list"
  allocations :: "allocation_row list"
  operations :: "operation_row list"
  orders :: "order_row list"
  order_items :: "order_item_row list"

definition empty_database :: database where
  "empty_database = \<lparr>products = [], providers = [], credentials = [], offers = [], reservations = [],
     items = [], allocations = [], operations = [], orders = [], order_items = []\<rparr>"

subsection \<open>Lookups by key\<close>

definition find_product :: "uuid \<Rightarrow> database \<Rightarrow> product_row option" where
  "find_product p d = find (\<lambda>r. p_id r = p) (products d)"

definition find_provider :: "uuid \<Rightarrow> database \<Rightarrow> provider_row option" where
  "find_provider v d = find (\<lambda>r. v_id r = v) (providers d)"

definition find_credential :: "uuid \<Rightarrow> database \<Rightarrow> credential_row option" where
  "find_credential v d = find (\<lambda>r. c_provider r = v) (credentials d)"

definition find_offer :: "uuid \<Rightarrow> uuid \<Rightarrow> database \<Rightarrow> offer_row option" where
  "find_offer p v d = find (\<lambda>r. o_product r = p \<and> o_provider r = v) (offers d)"

definition find_reservation :: "uuid \<Rightarrow> database \<Rightarrow> reservation_row option" where
  "find_reservation r d = find (\<lambda>x. r_id x = r) (reservations d)"

definition find_item :: "uuid \<Rightarrow> database \<Rightarrow> item_row option" where
  "find_item i d = find (\<lambda>x. ri_id x = i) (items d)"

definition find_operation :: "string \<Rightarrow> database \<Rightarrow> operation_row option" where
  "find_operation k d = find (\<lambda>x. op_key x = k) (operations d)"

definition find_order :: "uuid \<Rightarrow> database \<Rightarrow> order_row option" where
  "find_order r d = find (\<lambda>x. od_reservation x = r) (orders d)"

subsection \<open>Insertions with their constraints\<close>

text \<open>The first violated constraint of a list of named conditions.\<close>

fun check_constraints :: "(string \<times> bool) list \<Rightarrow> exn + unit" where
  "check_constraints [] = Inr ()"
| "check_constraints ((name, holds) # rest) =
     (if holds then check_constraints rest else Inl (IntegrityError name))"

text \<open>
  The range of an \<open>Integer\<close> column: a bound value beyond it is refused before the statement
  runs. Versions and attempt counts, which only count up, are not bounded here.
\<close>

definition int4 :: "int \<Rightarrow> bool" where
  "int4 n \<longleftrightarrow> - (2 ^ 31) \<le> n \<and> n < 2 ^ 31"

definition insert_product :: "product_row \<Rightarrow> database \<Rightarrow> exn + database" where
  "insert_product r d =
     (if 100 < length (p_sku r) \<or> 255 < length (p_name r) then Inl DataError
      else case check_constraints
        [(''ck_products_sku_not_empty'', p_sku r \<noteq> []),
         (''ck_products_name_not_empty'', p_name r \<noteq> []),
         (''pk_products'', find_product (p_id r) d = None),
         (''uq_products_sku'', list_all (\<lambda>x. p_sku x \<noteq> p_sku r) (products d))] of
        Inl e \<Rightarrow> Inl e | Inr _ \<Rightarrow> Inr (d\<lparr>products := products d @ [r]\<rparr>))"

definition provider_columns_fit :: "provider_row \<Rightarrow> bool" where
  "provider_columns_fit r \<longleftrightarrow> length (v_name r) \<le> 100 \<and> length (v_driver r) \<le> 100 \<and> int4 (v_timeout_ms r) \<and>
     (case v_base_url r of None \<Rightarrow> True | Some u \<Rightarrow> length u \<le> 500)"

definition provider_checks :: "provider_row \<Rightarrow> (string \<times> bool) list" where
  "provider_checks r =
     [(''ck_inventory_providers_external_provider_requires_base_url'',
         v_kind r \<noteq> External \<or> v_base_url r \<noteq> None),
      (''ck_inventory_providers_positive_request_timeout'', 0 < v_timeout_ms r)]"

definition insert_provider :: "provider_row \<Rightarrow> database \<Rightarrow> exn + database" where
  "insert_provider r d =
     (if \<not> provider_columns_fit r then Inl DataError
      else case check_constraints (provider_checks r @
        [(''pk_inventory_providers'', find_provider (v_id r) d = None),
         (''uq_inventory_providers_name'', list_all (\<lambda>x. v_name x \<noteq> v_name r) (providers d))]) of
        Inl e \<Rightarrow> Inl e | Inr _ \<Rightarrow> Inr (d\<lparr>providers := providers d @ [r]\<rparr>))"

definition offer_checks :: "offer_row \<Rightarrow> (string \<times> bool) list" where
  "offer_checks r =
     [(''ck_product_offers_non_negative_on_hand'', 0 \<le> o_on_hand r),
      (''ck_product_offers_non_negative_reserved'', 0 \<le> o_reserved r),
      (''ck_product_offers_reserved_not_above_on_hand'', o_reserved r \<le> o_on_hand r),
      (''ck_product_offers_positive_version'', 1 \<le> o_version r),
      (''ck_product_offers_non_negative_allocation_priority'', 0 \<le> o_priority r)]"

definition insert_reservation :: "reservation_row \<Rightarrow> database \<Rightarrow> exn + database" where
  "insert_reservation r d =
     (if 128 < length (r_key r) \<or> 64 < length (r_fingerprint r) then Inl DataError
      else case check_constraints
        [(''ck_reservations_idempotency_key_not_empty'', r_key r \<noteq> []),
         (''ck_reservations_request_fingerprint_sha256'', length (r_fingerprint r) = 64),
         (''ck_reservations_valid_release_target_status'',
            r_target r \<in> {None, Some M_Cancelled, Some M_Expired, Some M_Failed}),
         (''pk_reservations'', find_reservation (r_id r) d = None),
         (''uq_reservations_user_id_idempotency_key'',
            list_all (\<lambda>x. \<not> (r_user x = r_user r \<and> r_key x = r_key r)) (reservations d))] of
        Inl e \<Rightarrow> Inl e | Inr _ \<Rightarrow> Inr (d\<lparr>reservations := reservations d @ [r]\<rparr>))"

definition insert_item :: "item_row \<Rightarrow> database \<Rightarrow> exn + database" where
  "insert_item r d =
     (if \<not> int4 (ri_quantity r) then Inl DataError
      else case check_constraints
        [(''ck_reservation_items_positive_requested_quantity'', 0 < ri_quantity r),
         (''pk_reservation_items'', find_item (ri_id r) d = None),
         (''uq_reservation_items_reservation_id_product_id'',
            list_all (\<lambda>x. \<not> (ri_reservation x = ri_reservation r \<and> ri_product x = ri_product r)) (items d)),
         (''fk_reservation_items_reservation_id_reservations'',
            find_reservation (ri_reservation r) d \<noteq> None),
         (''fk_reservation_items_product_id_products'', find_product (ri_product r) d \<noteq> None),
         (''fk_reservation_items_provider_id_inventory_providers'',
            find_provider (ri_provider r) d \<noteq> None)] of
        Inl e \<Rightarrow> Inl e | Inr _ \<Rightarrow> Inr (d\<lparr>items := items d @ [r]\<rparr>))"

definition insert_allocation :: "allocation_row \<Rightarrow> database \<Rightarrow> exn + database" where
  "insert_allocation r d =
     (if 255 < length (al_hold_key r) \<or>
         (case al_reference r of None \<Rightarrow> False | Some h \<Rightarrow> 255 < length h) then Inl DataError
      else case check_constraints
        [(''ck_inventory_allocations_positive_quantity'', 0 < al_quantity r),
         (''pk_inventory_allocations'', list_all (\<lambda>x. al_id x \<noteq> al_id r) (allocations d)),
         (''uq_inventory_allocations_reservation_item_id_provider_id'',
            list_all (\<lambda>x. \<not> (al_item x = al_item r \<and> al_provider x = al_provider r)) (allocations d)),
         (''uq_inventory_allocations_hold_idempotency_key'',
            list_all (\<lambda>x. al_hold_key x \<noteq> al_hold_key r) (allocations d)),
         (''fk_inventory_allocations_reservation_item_id_reservation_items'',
            find_item (al_item r) d \<noteq> None),
         (''fk_inventory_allocations_provider_id_inventory_providers'',
            find_provider (al_provider r) d \<noteq> None)] of
        Inl e \<Rightarrow> Inl e | Inr _ \<Rightarrow> Inr (d\<lparr>allocations := allocations d @ [r]\<rparr>))"

definition insert_operation :: "operation_row \<Rightarrow> database \<Rightarrow> exn + database" where
  "insert_operation r d =
     (if 255 < length (op_key r) \<or>
         (case op_reference r of None \<Rightarrow> False | Some h \<Rightarrow> 255 < length h) then Inl DataError
      else case check_constraints
        [(''ck_provider_operations_non_negative_attempt_count'', 0 \<le> op_attempts r),
         (''pk_provider_operations'', list_all (\<lambda>x. op_id x \<noteq> op_id r) (operations d)),
         (''uq_provider_operations_idempotency_key'', find_operation (op_key r) d = None),
         (''fk_provider_operations_allocation_id_inventory_allocations'',
            list_ex (\<lambda>x. al_id x = op_allocation r) (allocations d))] of
        Inl e \<Rightarrow> Inl e | Inr _ \<Rightarrow> Inr (d\<lparr>operations := operations d @ [r]\<rparr>))"

definition insert_order :: "order_row \<Rightarrow> database \<Rightarrow> exn + database" where
  "insert_order r d =
     (case check_constraints
        [(''pk_orders'', list_all (\<lambda>x. od_id x \<noteq> od_id r) (orders d)),
         (''uq_orders_reservation_id'', find_order (od_reservation r) d = None),
         (''fk_orders_reservation_id_reservations'', find_reservation (od_reservation r) d \<noteq> None)] of
        Inl e \<Rightarrow> Inl e | Inr _ \<Rightarrow> Inr (d\<lparr>orders := orders d @ [r]\<rparr>))"

definition insert_order_item :: "order_item_row \<Rightarrow> database \<Rightarrow> exn + database" where
  "insert_order_item r d =
     (case check_constraints
        [(''ck_order_items_positive_quantity'', 0 < oi_quantity r),
         (''pk_order_items'', list_all (\<lambda>x. oi_id x \<noteq> oi_id r) (order_items d)),
         (''uq_order_items_order_id_product_id'',
            list_all (\<lambda>x. \<not> (oi_order x = oi_order r \<and> oi_product x = oi_product r)) (order_items d)),
         (''fk_order_items_order_id_orders'', list_ex (\<lambda>x. od_id x = oi_order r) (orders d)),
         (''fk_order_items_product_id_products'', find_product (oi_product r) d \<noteq> None)] of
        Inl e \<Rightarrow> Inl e | Inr _ \<Rightarrow> Inr (d\<lparr>order_items := order_items d @ [r]\<rparr>))"

subsection \<open>What a successful insertion tells\<close>

lemma check_constraints_Inr: "check_constraints cs = Inr u \<longleftrightarrow> (\<forall>c\<in>set cs. snd c)"
  by (induction cs rule: check_constraints.induct) auto

lemma check_constraints_Inl: "check_constraints cs = Inl e \<Longrightarrow> \<exists>n. e = IntegrityError n \<and> (n, False) \<in> set cs"
  by (induction cs rule: check_constraints.induct) (auto split: if_splits)

lemma insert_reservation_Inr:
  "insert_reservation r d = Inr d' \<Longrightarrow>
     d' = d\<lparr>reservations := reservations d @ [r]\<rparr> \<and> find_reservation (r_id r) d = None \<and>
     (\<forall>x\<in>set (reservations d). \<not> (r_user x = r_user r \<and> r_key x = r_key r)) \<and> r_key r \<noteq> [] \<and>
     length (r_fingerprint r) = 64"
  by (auto simp: insert_reservation_def check_constraints_Inr list_all_iff simp del: check_constraints.simps split: if_splits sum.splits)

lemma insert_item_Inr:
  "insert_item r d = Inr d' \<Longrightarrow>
     d' = d\<lparr>items := items d @ [r]\<rparr> \<and> 0 < ri_quantity r \<and> find_item (ri_id r) d = None \<and>
     (\<forall>x\<in>set (items d). \<not> (ri_reservation x = ri_reservation r \<and> ri_product x = ri_product r)) \<and>
     find_reservation (ri_reservation r) d \<noteq> None \<and> find_product (ri_product r) d \<noteq> None \<and>
     find_provider (ri_provider r) d \<noteq> None"
  by (auto simp: insert_item_def check_constraints_Inr list_all_iff simp del: check_constraints.simps split: if_splits sum.splits)

lemma insert_allocation_Inr:
  "insert_allocation r d = Inr d' \<Longrightarrow>
     d' = d\<lparr>allocations := allocations d @ [r]\<rparr> \<and> 0 < al_quantity r \<and>
     (\<forall>x\<in>set (allocations d). al_id x \<noteq> al_id r) \<and>
     (\<forall>x\<in>set (allocations d). \<not> (al_item x = al_item r \<and> al_provider x = al_provider r)) \<and>
     find_item (al_item r) d \<noteq> None \<and> find_provider (al_provider r) d \<noteq> None"
  by (auto simp: insert_allocation_def check_constraints_Inr list_all_iff simp del: check_constraints.simps split: if_splits sum.splits)

lemma insert_operation_Inr:
  "insert_operation r d = Inr d' \<Longrightarrow>
     d' = d\<lparr>operations := operations d @ [r]\<rparr> \<and> 0 \<le> op_attempts r \<and>
     (\<forall>x\<in>set (operations d). op_id x \<noteq> op_id r) \<and> find_operation (op_key r) d = None"
  by (auto simp: insert_operation_def check_constraints_Inr list_all_iff simp del: check_constraints.simps split: if_splits sum.splits)

lemma insert_order_Inr:
  "insert_order r d = Inr d' \<Longrightarrow>
     d' = d\<lparr>orders := orders d @ [r]\<rparr> \<and> (\<forall>x\<in>set (orders d). od_id x \<noteq> od_id r) \<and>
     find_order (od_reservation r) d = None \<and> find_reservation (od_reservation r) d \<noteq> None"
  by (auto simp: insert_order_def check_constraints_Inr list_all_iff simp del: check_constraints.simps split: sum.splits)

lemma insert_order_item_Inr:
  "insert_order_item r d = Inr d' \<Longrightarrow>
     d' = d\<lparr>order_items := order_items d @ [r]\<rparr> \<and> 0 < oi_quantity r \<and>
     (\<forall>x\<in>set (order_items d). oi_id x \<noteq> oi_id r) \<and> (\<exists>x\<in>set (orders d). od_id x = oi_order r)"
  by (auto simp: insert_order_item_def check_constraints_Inr list_all_iff list_ex_iff simp del: check_constraints.simps split: sum.splits)

lemmas insert_Inr = insert_reservation_Inr insert_item_Inr insert_allocation_Inr insert_operation_Inr
  insert_order_Inr insert_order_item_Inr

subsection \<open>Statuses survive storage\<close>

lemma stored_status: "status_of_model M_Pending = Inr Pending" "status_of_model M_Confirming = Inr Confirming"
    "status_of_model M_Confirmed = Inr Confirmed" "status_of_model M_Releasing = Inr Releasing"
    "status_of_model M_Cancelled = Inr Cancelled" "status_of_model M_Expired = Inr Expired"
    "status_of_model M_Failed = Inr Failed"
  by (simp_all add: status_of_model_def parse_status_def all_statuses_def)

text \<open>
  Every domain status can be stored, and reading the stored value gives the same status back;
  the two model statuses the domain does not have are the ones a read rejects.
\<close>

theorem status_roundtrip:
  "(\<exists>m. status_to_model s = Inr m \<and> status_of_model m = Inr s)
   \<and> (status_of_model m = Inl PyValueError \<longleftrightarrow> m = M_Reserving \<or> m = M_Active)"
proof
  show "\<exists>m. status_to_model s = Inr m \<and> status_of_model m = Inr s"
    by (cases s) (simp_all add: status_to_model_def status_of_model_def parse_status_model_def
      parse_status_def all_statuses_def all_status_models_def)
  show "status_of_model m = Inl PyValueError \<longleftrightarrow> m = M_Reserving \<or> m = M_Active"
    by (cases m) (simp_all add: status_of_model_def parse_status_def all_statuses_def)
qed

lemma status_of_model_simps [simp]:
  "status_of_model M_Pending = Inr Pending" "status_of_model M_Confirming = Inr Confirming"
  "status_of_model M_Confirmed = Inr Confirmed" "status_of_model M_Releasing = Inr Releasing"
  "status_of_model M_Cancelled = Inr Cancelled" "status_of_model M_Expired = Inr Expired"
  "status_of_model M_Failed = Inr Failed" "status_of_model M_Reserving = Inl PyValueError"
  "status_of_model M_Active = Inl PyValueError"
  by (simp_all add: status_of_model_def parse_status_def all_statuses_def)

lemma status_to_model_simps [simp]:
  "status_to_model Pending = Inr M_Pending" "status_to_model Confirming = Inr M_Confirming"
  "status_to_model Confirmed = Inr M_Confirmed" "status_to_model Releasing = Inr M_Releasing"
  "status_to_model Cancelled = Inr M_Cancelled" "status_to_model Expired = Inr M_Expired"
  "status_to_model Failed = Inr M_Failed"
  by (simp_all add: status_to_model_def parse_status_model_def all_status_models_def)

end
