(* ===== verification/Provider_Port.thy ===== *)
theory Provider_Port
  imports Schema
begin

section \<open>Provider ports: attempts, routing and the circuit breaker\<close>

text \<open>
  \<open>service/provider.py\<close>. The outcomes and commands of the four provider operations; the
  router that tries hold-capable providers in order; the circuit breaker, whose two atomic parts
  (before and after the awaited call) are pure functions of the circuit and are composed by
  \<open>execute\<close>. The router is written over a record of port operations, as the class is written
  over its protocols; the locale \<open>stock_ports\<close> states the contract such ports promise.
\<close>

subsection \<open>Outcomes, attempts and commands\<close>

datatype hold_outcome = H_Held | H_Out_Of_Stock | H_Temporarily_Unavailable | H_Unknown

datatype confirm_outcome = C_Confirmed | C_Rejected | C_Temporarily_Unavailable | C_Unknown

datatype release_outcome = R_Released | R_Temporarily_Unavailable | R_Unknown

datatype availability_outcome = V_Fresh | V_Stale | V_Temporarily_Unavailable

fun confirm_outcome_value :: "confirm_outcome \<Rightarrow> string" where
  "confirm_outcome_value C_Confirmed = ''confirmed''"
| "confirm_outcome_value C_Rejected = ''rejected''"
| "confirm_outcome_value C_Temporarily_Unavailable = ''temporarily_unavailable''"
| "confirm_outcome_value C_Unknown = ''unknown''"

fun release_outcome_value :: "release_outcome \<Rightarrow> string" where
  "release_outcome_value R_Released = ''released''"
| "release_outcome_value R_Temporarily_Unavailable = ''temporarily_unavailable''"
| "release_outcome_value R_Unknown = ''unknown''"

record availability_attempt =
  av_outcome :: availability_outcome
  av_quantity :: "int option"
  av_observed :: "instant option"

record hold_attempt =
  ha_outcome :: hold_outcome
  ha_reference :: "string option"

record confirm_attempt =
  ca_outcome :: confirm_outcome

record release_attempt =
  ra_outcome :: release_outcome

record availability_command =
  ac_product :: uuid

record hold_command =
  hc_product :: uuid
  hc_quantity :: int
  hc_key :: string

record confirm_command =
  cc_reference :: string
  cc_key :: string

record release_command =
  rc_reference :: string
  rc_key :: string

record provider_hold =
  ph_provider :: uuid
  ph_reference :: "string option"

definition availability_fresh :: "int \<Rightarrow> instant option \<Rightarrow> availability_attempt" where
  "availability_fresh quantity observed =
     \<lparr>av_outcome = V_Fresh, av_quantity = Some quantity, av_observed = observed\<rparr>"

definition availability_stale :: "int \<Rightarrow> instant option \<Rightarrow> availability_attempt" where
  "availability_stale quantity observed =
     \<lparr>av_outcome = V_Stale, av_quantity = Some quantity, av_observed = observed\<rparr>"

definition availability_temporarily_unavailable :: availability_attempt where
  "availability_temporarily_unavailable =
     \<lparr>av_outcome = V_Temporarily_Unavailable, av_quantity = None, av_observed = None\<rparr>"

definition hold_held :: "string option \<Rightarrow> hold_attempt" where
  "hold_held reference = \<lparr>ha_outcome = H_Held, ha_reference = reference\<rparr>"

definition hold_out_of_stock :: hold_attempt where
  "hold_out_of_stock = \<lparr>ha_outcome = H_Out_Of_Stock, ha_reference = None\<rparr>"

definition hold_temporarily_unavailable :: hold_attempt where
  "hold_temporarily_unavailable = \<lparr>ha_outcome = H_Temporarily_Unavailable, ha_reference = None\<rparr>"

definition hold_unknown :: hold_attempt where
  "hold_unknown = \<lparr>ha_outcome = H_Unknown, ha_reference = None\<rparr>"

lemmas attempt_defs = availability_fresh_def availability_stale_def
  availability_temporarily_unavailable_def hold_held_def hold_out_of_stock_def
  hold_temporarily_unavailable_def hold_unknown_def

subsection \<open>The circuit breaker\<close>

record circuit =
  cs_failures :: int
  cs_opened :: "instant option"
  cs_probe :: bool

definition closed_circuit :: circuit where
  "closed_circuit = \<lparr>cs_failures = 0, cs_opened = None, cs_probe = False\<rparr>"

record breaker_config =
  bc_threshold :: int
  bc_timeout :: duration

datatype admission = Rejected | Admitted (is_probe: bool)

text \<open>\<open>_execute\<close> up to the awaited call.\<close>

definition admit :: "breaker_config \<Rightarrow> instant \<Rightarrow> circuit \<Rightarrow> admission \<times> circuit" where
  "admit cfg now c =
     (case cs_opened c of
        None \<Rightarrow> (Admitted False, c)
      | Some opened_at \<Rightarrow>
          if now - opened_at < bc_timeout cfg then (Rejected, c)
          else if cs_probe c then (Rejected, c)
          else (Admitted True, c\<lparr>cs_probe := True\<rparr>))"

definition count_failure :: "breaker_config \<Rightarrow> instant \<Rightarrow> circuit \<Rightarrow> circuit" where
  "count_failure cfg now c =
     (let c' = c\<lparr>cs_failures := cs_failures c + 1\<rparr> in
      if bc_threshold cfg \<le> cs_failures c' then c'\<lparr>cs_opened := Some now\<rparr> else c')"

text \<open>
  \<open>_execute\<close> from the call's return on: a failed call and an unknown attempt count as failures,
  any other attempt closes the circuit, any other exception leaves it; a probe is no longer in
  flight in every case (\<open>finally\<close>).
\<close>

definition failing :: "('a \<Rightarrow> bool) \<Rightarrow> exn + 'a \<Rightarrow> bool" where
  "failing is_unknown r = (case r of
     Inl (ProviderCallFailedError _) \<Rightarrow> True | Inl _ \<Rightarrow> False | Inr attempt \<Rightarrow> is_unknown attempt)"

definition settle ::
  "breaker_config \<Rightarrow> instant \<Rightarrow> ('a \<Rightarrow> bool) \<Rightarrow> bool \<Rightarrow> exn + 'a \<Rightarrow> circuit \<Rightarrow> circuit" where
  "settle cfg now is_unknown probe r c =
     (let c' = (if failing is_unknown r then count_failure cfg now c
                else case r of Inl _ \<Rightarrow> c | Inr _ \<Rightarrow> c\<lparr>cs_failures := 0, cs_opened := None\<rparr>)
      in if probe then c'\<lparr>cs_probe := False\<rparr> else c')"

definition settled_result :: "'a \<Rightarrow> exn + 'a \<Rightarrow> exn + 'a" where
  "settled_result temporarily_unavailable r = (case r of
     Inl (ProviderCallFailedError _) \<Rightarrow> Inr temporarily_unavailable | _ \<Rightarrow> r)"

text \<open>
  The whole of \<open>_execute\<close> over a state that holds the circuit. The clock is read only where the
  code reads it: to test an open circuit's age, and to stamp a circuit that opens.
\<close>

definition catch :: "('s, exn, 'a) prog \<Rightarrow> ('s, exn, exn + 'a) prog" where
  [prog_simps]: "catch m s = (case m s of (r, s') \<Rightarrow> (Inr r, s'))"

definition clock_if :: "bool \<Rightarrow> ('s, exn, instant) prog \<Rightarrow> ('s, exn, instant) prog" where
  [prog_simps]: "clock_if b clock = (if b then clock else ret 0)"

definition execute ::
  "breaker_config \<Rightarrow> ('s \<Rightarrow> circuit) \<Rightarrow> (circuit \<Rightarrow> 's \<Rightarrow> 's) \<Rightarrow> ('s, exn, instant) prog \<Rightarrow>
   'a \<Rightarrow> ('a \<Rightarrow> bool) \<Rightarrow> ('s, exn, 'a) prog \<Rightarrow> ('s, exn, 'a) prog" where
  "execute cfg circuit_of put monotonic temporarily_unavailable is_unknown operation =
     andThen (gets circuit_of) (\<lambda>c0.
     andThen (clock_if (cs_opened c0 \<noteq> None) monotonic) (\<lambda>now.
     case admit cfg now c0 of
       (Rejected, _) \<Rightarrow> ret temporarily_unavailable
     | (Admitted probe, c1) \<Rightarrow>
         andThen (modify (put c1)) (\<lambda>_.
         andThen (catch operation) (\<lambda>r.
         andThen (gets circuit_of) (\<lambda>c2.
         andThen (clock_if (failing is_unknown r \<and> bc_threshold cfg \<le> cs_failures c2 + 1) monotonic) (\<lambda>later.
         andThen (modify (put (settle cfg later is_unknown probe r c2))) (\<lambda>_.
         lift_sum (settled_result temporarily_unavailable r))))))))"

lemma keeps_catch [keeps_intros]: "keeps f m \<Longrightarrow> keeps f (catch m)"
  by (rule keepsI) (auto simp: catch_def dest: keepsD split: prod.splits)

lemma keeps_clock_if [keeps_intros]: "keeps f m \<Longrightarrow> keeps f (clock_if b m)"
  by (simp add: clock_if_def keeps_ret)

lemma keeps_admission [keeps_intros]:
  "(a = Rejected \<Longrightarrow> keeps f m) \<Longrightarrow> (\<And>p. a = Admitted p \<Longrightarrow> keeps f (k p)) \<Longrightarrow>
   keeps f (case a of Rejected \<Rightarrow> m | Admitted p \<Rightarrow> k p)"
  by (cases a) simp_all

lemma keeps_execute:
  assumes "keeps f clock" and "keeps f operation" and "\<And>c s. f (put c s) = f s"
  shows "keeps f (execute cfg circuit_of put clock t u operation)"
  unfolding execute_def by (intro keeps_intros assms keeps_modify)

subsection \<open>What the breaker guarantees\<close>

lemma admit_open_window:
  "cs_opened c = Some t \<Longrightarrow> now - t < bc_timeout cfg \<Longrightarrow> admit cfg now c = (Rejected, c)"
  by (simp add: admit_def)

lemma admit_probe_only_after_window:
  "admit cfg now c = (Admitted True, c') \<Longrightarrow>
     \<exists>t. cs_opened c = Some t \<and> bc_timeout cfg \<le> now - t \<and> \<not> cs_probe c"
  by (auto simp: admit_def split: option.splits if_splits)

text \<open>
  The circuit is open exactly when the failures have reached the threshold.
\<close>

definition circuit_ok :: "breaker_config \<Rightarrow> circuit \<Rightarrow> bool" where
  "circuit_ok cfg c \<longleftrightarrow> 0 \<le> cs_failures c \<and> (cs_opened c \<noteq> None \<longleftrightarrow> bc_threshold cfg \<le> cs_failures c)"

lemma circuit_ok_closed: "0 < bc_threshold cfg \<Longrightarrow> circuit_ok cfg closed_circuit"
  by (simp add: circuit_ok_def closed_circuit_def)

lemma circuit_ok_admit: "circuit_ok cfg c \<Longrightarrow> admit cfg now c = (a, c') \<Longrightarrow> circuit_ok cfg c'"
  by (auto simp: admit_def circuit_ok_def split: option.splits if_splits)

lemma circuit_ok_settle:
  "0 < bc_threshold cfg \<Longrightarrow> circuit_ok cfg c \<Longrightarrow> circuit_ok cfg (settle cfg now u p r c)"
  by (auto simp: settle_def circuit_ok_def count_failure_def Let_def split: sum.splits)

subsection \<open>Concurrent calls\<close>

text \<open>
  Coroutines interleave only where they await, so calls in flight are a multiset of probe flags:
  a step admits or rejects a new call, or settles one in flight with any result at any time.
\<close>

inductive circuit_step ::
  "breaker_config \<Rightarrow> circuit \<times> bool multiset \<Rightarrow> circuit \<times> bool multiset \<Rightarrow> bool" for cfg where
  begin_call: "admit cfg now c = (Admitted probe, c') \<Longrightarrow>
     circuit_step cfg (c, calls) (c', add_mset probe calls)"
| reject_call: "admit cfg now c = (Rejected, c') \<Longrightarrow> circuit_step cfg (c, calls) (c', calls)"
| end_call: "probe \<in># calls \<Longrightarrow>
     circuit_step cfg (c, calls) (settle cfg now (is_unknown :: hold_attempt \<Rightarrow> bool) probe r c, calls - {#probe#})"

inductive_cases circuit_stepE: "circuit_step cfg (c, calls) (c', calls')"

definition circuit_inv :: "breaker_config \<Rightarrow> circuit \<times> bool multiset \<Rightarrow> bool" where
  "circuit_inv cfg s \<longleftrightarrow> circuit_ok cfg (fst s) \<and> count (snd s) True = (if cs_probe (fst s) then 1 else 0)"

lemma settle_probe: "cs_probe (settle cfg now u p r c) = (if p then False else cs_probe c)"
  by (auto simp: settle_def count_failure_def Let_def split: sum.splits)

lemma admit_cases:
  "admit cfg now c = (a, c') \<Longrightarrow>
     (a = Admitted False \<and> c' = c \<and> cs_opened c = None) \<or> (a = Rejected \<and> c' = c) \<or>
     (a = Admitted True \<and> \<not> cs_probe c \<and> c' = c\<lparr>cs_probe := True\<rparr>)"
  by (auto simp: admit_def split: option.splits if_splits)

lemma circuit_step_inv:
  assumes "0 < bc_threshold cfg" and "circuit_inv cfg s" and "circuit_step cfg s t"
  shows "circuit_inv cfg t"
  using assms(3,2)
proof (cases rule: circuit_step.cases)
  case (begin_call now c probe c' calls)
  with assms(2) show ?thesis
    by (auto simp: circuit_inv_def dest: admit_cases circuit_ok_admit)
next
  case (reject_call now c c' calls)
  with assms(2) show ?thesis by (auto simp: circuit_inv_def dest: admit_cases)
next
  case (end_call probe calls c now is_unknown r)
  then have "circuit_ok cfg (fst t)"
    using assms(1,2) by (auto simp: circuit_inv_def intro: circuit_ok_settle)
  moreover have "probe \<Longrightarrow> cs_probe c"
    using end_call assms(2) count_greater_zero_iff [of calls True]
    by (auto simp: circuit_inv_def split: if_splits)
  ultimately show ?thesis
    using end_call assms(2) by (auto simp: circuit_inv_def settle_probe split: if_splits)
qed

definition circuit_init :: "circuit \<times> bool multiset" where
  "circuit_init = (closed_circuit, {#})"

interpretation breaker: transition_system "\<lambda>s. s = circuit_init \<and> 0 < bc_threshold cfg"
    "\<lambda>s t. 0 < bc_threshold cfg \<and> circuit_step cfg s t" "circuit_inv cfg" for cfg
proof unfold_locales
  show "circuit_inv cfg s" if "s = circuit_init \<and> 0 < bc_threshold cfg" for s
    using that circuit_ok_closed [of cfg]
    by (simp add: circuit_inv_def circuit_init_def) (simp add: closed_circuit_def)
  show "circuit_inv cfg t" if "circuit_inv cfg s" "0 < bc_threshold cfg \<and> circuit_step cfg s t" for s t
    using that by (blast intro: circuit_step_inv)
qed

lemma three_steps: "r a b \<Longrightarrow> r b c \<Longrightarrow> r c d \<Longrightarrow> r\<^sup>*\<^sup>* a d"
  by (meson converse_rtranclp_into_rtranclp r_into_rtranclp)

text \<open>
  C8. However the calls through one circuit interleave, at most one probe is in flight, a probe is
  in flight exactly when the circuit says so, and the circuit is open exactly when the counted
  failures have reached the threshold.
\<close>

theorem breaker_single_probe:
  assumes "0 < bc_threshold cfg" and "(circuit_step cfg)\<^sup>*\<^sup>* circuit_init (c, calls)"
  shows "count calls True = (if cs_probe c then 1 else 0) \<and>
    (cs_opened c \<noteq> None \<longleftrightarrow> bc_threshold cfg \<le> cs_failures c)"
proof -
  have "circuit_inv cfg (c, calls)"
    using breaker.reachable_good [of circuit_init cfg "(c, calls)"] assms by simp
  then show ?thesis by (simp add: circuit_inv_def circuit_ok_def)
qed

theorem breaker_single_probe_witness:
  "let cfg = \<lparr>bc_threshold = 1, bc_timeout = 5\<rparr>;
       c = \<lparr>cs_failures = 1, cs_opened = Some 10, cs_probe = True\<rparr>
   in count {#True#} True = (if cs_probe c then 1 else 0) \<and>
      (cs_opened c \<noteq> None \<longleftrightarrow> bc_threshold cfg \<le> cs_failures c)"
proof -
  let ?cfg = "\<lparr>bc_threshold = 1, bc_timeout = 5\<rparr>"
  let ?c = "\<lparr>cs_failures = 1, cs_opened = Some 10, cs_probe = True\<rparr>"
  have call: "circuit_step ?cfg circuit_init (closed_circuit, {#False#})"
    unfolding circuit_init_def
    by (rule circuit_step.begin_call [where now = 0 and probe = False])
      (simp add: admit_def closed_circuit_def)
  have "circuit_step ?cfg (closed_circuit, {#False#})
      (settle ?cfg 10 (\<lambda>_ :: hold_attempt. False) False (Inl (ProviderCallFailedError 0)) closed_circuit,
       {#False#} - {#False#})"
    by (rule circuit_step.end_call) simp
  then have fail: "circuit_step ?cfg (closed_circuit, {#False#})
      (\<lparr>cs_failures = 1, cs_opened = Some 10, cs_probe = False\<rparr>, {#})"
    by (simp add: settle_def failing_def count_failure_def closed_circuit_def)
  have probe: "circuit_step ?cfg (\<lparr>cs_failures = 1, cs_opened = Some 10, cs_probe = False\<rparr>, {#})
      (?c, add_mset True {#})"
    by (rule circuit_step.begin_call [where now = 15]) (simp add: admit_def)
  have "(circuit_step ?cfg)\<^sup>*\<^sup>* circuit_init (?c, {#True#})"
    using three_steps [of "circuit_step ?cfg"] call fail probe by simp
  then show ?thesis
    using breaker_single_probe [of ?cfg ?c "{#True#}"] by (simp add: Let_def)
qed

lemma settle_failing:
  "failing u r \<Longrightarrow> settle cfg now u False r c = count_failure cfg now c"
  by (simp add: settle_def Let_def)

lemma fold_count_failure:
  "0 < bc_threshold cfg \<Longrightarrow> circuit_ok cfg c \<Longrightarrow> \<forall>(now, r)\<in>set rs. failing u r \<Longrightarrow>
   fold (\<lambda>(now, r). settle cfg now u False r) rs c = c' \<Longrightarrow>
   cs_failures c' = cs_failures c + int (length rs) \<and> circuit_ok cfg c'"
proof (induction rs arbitrary: c)
  case Nil
  then show ?case by simp
next
  case (Cons x rs)
  obtain now r where x: "x = (now, r)" by (cases x)
  let ?c = "settle cfg now u False r c"
  have "circuit_ok cfg ?c" using Cons.prems by (blast intro: circuit_ok_settle)
  moreover have "cs_failures ?c = cs_failures c + 1"
    using Cons.prems x by (auto simp: settle_failing count_failure_def Let_def)
  ultimately show ?case using Cons.IH [of ?c] Cons.prems x by simp
qed

text \<open>
  C9. On a closed circuit, failed calls open it at the threshold and not before; while it is open
  a call made within the recovery time returns the temporarily-unavailable attempt without calling
  the provider, and leaves everything but the clock alone.
\<close>

theorem breaker_trips_and_shields:
  fixes circuit_of :: "'s \<Rightarrow> circuit" and operation :: "('s, exn, 'a) prog"
  assumes "0 < bc_threshold cfg" and "\<forall>(now, r)\<in>set rs. failing is_unknown r"
    and "circuit_of s = fold (\<lambda>(now, r). settle cfg now is_unknown False r) rs closed_circuit"
  shows "(cs_opened (circuit_of s) = None \<longleftrightarrow> int (length rs) < bc_threshold cfg) \<and>
    (\<forall>opened now s'. cs_opened (circuit_of s) = Some opened \<longrightarrow> clock s = (Inr now, s') \<longrightarrow>
       now - opened < bc_timeout cfg \<longrightarrow>
       execute cfg circuit_of put clock unavailable is_unknown operation s = (Inr unavailable, s'))"
proof
  have "cs_failures (circuit_of s) = int (length rs) \<and> circuit_ok cfg (circuit_of s)"
    using fold_count_failure [OF assms(1) circuit_ok_closed [OF assms(1)] assms(2) assms(3) [symmetric]]
    by (simp add: closed_circuit_def)
  then show "cs_opened (circuit_of s) = None \<longleftrightarrow> int (length rs) < bc_threshold cfg"
    by (auto simp: circuit_ok_def)
  show "\<forall>opened now s'. cs_opened (circuit_of s) = Some opened \<longrightarrow> clock s = (Inr now, s') \<longrightarrow>
       now - opened < bc_timeout cfg \<longrightarrow>
       execute cfg circuit_of put clock unavailable is_unknown operation s = (Inr unavailable, s')"
    by (auto simp: execute_def prog_simps admit_open_window)
qed

theorem breaker_trips_and_shields_witness:
  "execute \<lparr>bc_threshold = 2, bc_timeout = 30\<rparr> fst (\<lambda>c s. (c, snd s)) (\<lambda>s. (Inr (snd s), s))
     hold_temporarily_unavailable (\<lambda>a. ha_outcome a = H_Unknown) (raise SecretResolutionError)
     (\<lparr>cs_failures = 2, cs_opened = Some 11, cs_probe = False\<rparr>, 40)
   = (Inr hold_temporarily_unavailable, (\<lparr>cs_failures = 2, cs_opened = Some 11, cs_probe = False\<rparr>, 40))"
  using breaker_trips_and_shields
    [of "\<lparr>bc_threshold = 2, bc_timeout = 30\<rparr>" "[(10, Inl (ProviderCallFailedError 7)), (11, Inr hold_unknown)]"
        "\<lambda>a. ha_outcome a = H_Unknown" fst "(\<lparr>cs_failures = 2, cs_opened = Some 11, cs_probe = False\<rparr>, 40 :: int)"
        "\<lambda>s. (Inr (snd s), s)" "\<lambda>c s. (c, snd s)" hold_temporarily_unavailable "raise SecretResolutionError"]
  by (simp add: settle_def failing_def count_failure_def closed_circuit_def hold_unknown_def)

subsection \<open>The router\<close>

text \<open>
  A provider the router can hold at; \<open>pt_availability\<close> is \<open>None\<close> for a provider that
  is not an \<open>AvailabilityProvider\<close>.
\<close>

record 's hold_port =
  pt_id :: uuid
  pt_availability :: "(availability_command \<Rightarrow> ('s, exn, availability_attempt) prog) option"
  pt_hold :: "hold_command \<Rightarrow> ('s, exn, hold_attempt) prog"

text \<open>The \<open>continue\<close> conditions of the loop, after the availability call.\<close>

definition skip_candidate :: "hold_command \<Rightarrow> availability_attempt \<Rightarrow> bool" where
  "skip_candidate cmd availability \<longleftrightarrow>
     av_outcome availability = V_Temporarily_Unavailable \<or>
     av_outcome availability = V_Fresh \<and>
       (case av_quantity availability of None \<Rightarrow> False | Some available \<Rightarrow> available < hc_quantity cmd)"

definition check_candidate ::
  "(uuid \<Rightarrow> bool) \<Rightarrow> (uuid \<Rightarrow> availability_attempt \<Rightarrow> ('s, exn, unit) prog) \<Rightarrow> 's hold_port \<Rightarrow>
   hold_command \<Rightarrow> ('s, exn, bool) prog" where
  "check_candidate ids observe p cmd =
     (case pt_availability p of
        None \<Rightarrow> ret False
      | Some availability \<Rightarrow>
          if ids (pt_id p) then
            andThen (availability \<lparr>ac_product = hc_product cmd\<rparr>) (\<lambda>attempt.
            andThen (observe (pt_id p) attempt) (\<lambda>_.
            ret (skip_candidate cmd attempt)))
          else ret False)"

primrec router_hold ::
  "(uuid \<Rightarrow> bool) \<Rightarrow> (uuid \<Rightarrow> availability_attempt \<Rightarrow> ('s, exn, unit) prog) \<Rightarrow> 's hold_port list \<Rightarrow>
   hold_command \<Rightarrow> ('s, exn, provider_hold option) prog" where
  "router_hold ids observe [] cmd = ret None"
| "router_hold ids observe (p # ps) cmd =
     andThen (check_candidate ids observe p cmd) (\<lambda>skip.
       if skip then router_hold ids observe ps cmd
       else andThen (pt_hold p cmd) (\<lambda>attempt.
         if ha_outcome attempt = H_Held
         then ret (Some \<lparr>ph_provider = pt_id p, ph_reference = ha_reference attempt\<rparr>)
         else if ha_outcome attempt = H_Unknown
         then raise (UnknownProviderOutcomeError (pt_id p) (hc_key cmd))
         else router_hold ids observe ps cmd))"

lemma andThen_assoc: "andThen (andThen m f) g = andThen m (\<lambda>x. andThen (f x) g)"
  by (rule ext) (auto simp: andThen_def split: prod.splits sum.splits)

lemma andThen_ret: "andThen (ret x) f = f x"
  by (rule ext) (simp add: prog_simps)

lemma andThen_raise: "andThen (raise e) f = raise e"
  by (rule ext) (simp add: prog_simps)

lemma andThen_if: "andThen (if b then m else n) f = (if b then andThen m f else andThen n f)"
  by simp



text \<open>
  The contract between the router and its providers: a stock account that availability calls and
  observations of observable providers do not touch, that a hold changes exactly when its outcome
  is held, and an invariant that all three keep when they return.
\<close>

locale stock_ports =
  fixes inv :: "'s \<Rightarrow> bool"
    and account :: "'s \<Rightarrow> 'v"
    and takes :: "uuid \<Rightarrow> hold_command \<Rightarrow> 'v \<Rightarrow> 'v \<Rightarrow> bool"
    and honest :: "'s hold_port \<Rightarrow> bool"
    and observable :: "uuid \<Rightarrow> bool"
    and observe :: "uuid \<Rightarrow> availability_attempt \<Rightarrow> ('s, exn, unit) prog"
    and cmd :: hold_command
  assumes hold_takes: "honest p \<Longrightarrow> triple (\<lambda>s. inv s \<and> account s = a) (pt_hold p cmd)
      (\<lambda>r s. inv s \<and> (if ha_outcome r = H_Held then takes (pt_id p) cmd a (account s) else account s = a))
      (\<lambda>_ _. True)"
    and availability_reads: "honest p \<Longrightarrow> pt_availability p = Some av \<Longrightarrow>
      triple (\<lambda>s. inv s \<and> account s = a) (av \<lparr>ac_product = hc_product cmd\<rparr>)
        (\<lambda>_ s. inv s \<and> account s = a) (\<lambda>_ _. True)"
    and observation_reads: "observable v \<Longrightarrow> triple (\<lambda>s. inv s \<and> account s = a) (observe v attempt)
        (\<lambda>_ s. inv s \<and> account s = a) (\<lambda>_ _. True)"
begin

definition taken :: "'s hold_port list \<Rightarrow> 'v \<Rightarrow> provider_hold option \<Rightarrow> 's \<Rightarrow> bool" where
  "taken ps a r s \<longleftrightarrow> inv s \<and> (case r of
      None \<Rightarrow> account s = a
    | Some h \<Rightarrow> ph_provider h \<in> pt_id ` set ps \<and> takes (ph_provider h) cmd a (account s))"

lemma check_reads: "honest p \<Longrightarrow> (ids (pt_id p) \<Longrightarrow> observable (pt_id p)) \<Longrightarrow>
   triple (\<lambda>s. inv s \<and> account s = a) (check_candidate ids observe p cmd)
     (\<lambda>_ s. inv s \<and> account s = a) (\<lambda>_ _. True)"
proof (cases "pt_availability p")
  case None
  then show ?thesis by (auto simp: check_candidate_def intro: triple_ret)
next
  case (Some av)
  moreover assume "honest p" "ids (pt_id p) \<Longrightarrow> observable (pt_id p)"
  ultimately show ?thesis
    unfolding check_candidate_def
    by (auto intro!: triple_ret triple_andThen [OF availability_reads] triple_andThen [OF observation_reads])
qed

lemma router_takes_once:
  "\<forall>p\<in>set ps. honest p \<and> (ids (pt_id p) \<longrightarrow> observable (pt_id p)) \<Longrightarrow>
   triple (\<lambda>s. inv s \<and> account s = a) (router_hold ids observe ps cmd) (taken ps a) (\<lambda>_ _. True)"
proof (induction ps)
  case Nil
  show ?case by (auto simp: taken_def intro: triple_ret)
next
  case (Cons p ps)
  have p: "honest p" "ids (pt_id p) \<Longrightarrow> observable (pt_id p)" using Cons.prems by auto
  have rest: "triple (\<lambda>s. inv s \<and> account s = a) (router_hold ids observe ps cmd)
     (taken (p # ps) a) (\<lambda>_ _. True)"
    using Cons by (auto intro!: triple_cons [OF Cons.IH] simp: taken_def split: option.splits)
  have held: "triple
     (\<lambda>s. inv s \<and> (if ha_outcome r = H_Held then takes (pt_id p) cmd a (account s) else account s = a))
     (if ha_outcome r = H_Held
         then ret (Some \<lparr>ph_provider = pt_id p, ph_reference = ha_reference r\<rparr>)
         else if ha_outcome r = H_Unknown
         then raise (UnknownProviderOutcomeError (pt_id p) (hc_key cmd))
         else router_hold ids observe ps cmd) (taken (p # ps) a) (\<lambda>_ _. True)" for r
    using rest by (auto intro!: triple_ret triple_raise simp: taken_def)
  show ?case
    unfolding router_hold.simps
    using rest by (auto intro!: triple_andThen [OF check_reads [OF p]] triple_andThen [OF hold_takes [OF p(1)]] held)
qed

end

end
