(* ===== verification/World.thy ===== *)
theory World
  imports Provider_Port
begin

section \<open>The world: database, remote providers, clocks and transactions\<close>

text \<open>
  The state every service operation runs in and what it cannot decide itself. The
  \<open>environment\<close> answers HTTP requests, reads clocks, draws identifiers and environment
  variables, and parses JSON payloads; it is a parameter of the model. The \<open>world\<close> is the
  database with the copy a rollback restores, the provider registry (settings and circuits), the
  requests sent so far, and the positions reached in the environment's streams.
\<close>

subsection \<open>State\<close>

record http_request =
  rq_method :: string
  rq_url :: string
  rq_headers :: "(string \<times> string) list"
  rq_body :: "json option"
  rq_timeout :: int

text \<open>
  \<open>Timed_Out\<close> is \<open>httpx.TimeoutException\<close>, \<open>Transport_Error\<close> any other
  \<open>httpx.TransportError\<close>.
\<close>

datatype http_reply = Timed_Out | Transport_Error | Reply nat string

record environment =
  e_reply :: "nat \<Rightarrow> http_request \<Rightarrow> http_reply"
  e_monotonic :: "nat \<Rightarrow> instant"
  e_utc :: "nat \<Rightarrow> instant"
  e_db_clock :: "nat \<Rightarrow> instant"
  e_uuid :: "nat \<Rightarrow> uuid"
  e_environ :: "(string \<Rightarrow> string option) option"
  e_json :: "string \<Rightarrow> json option"
  e_int :: "json \<Rightarrow> int option"
  e_datetime :: "json \<Rightarrow> (instant \<times> bool) option"
  e_breaker :: breaker_config

text \<open>\<open>_ExternalProviderSettings\<close>\<close>

record provider_settings =
  ps_base_url :: string
  ps_timeout :: int
  ps_credentials :: "credential_row option"

datatype breaker_call = Call_Availability | Call_Hold | Call_Confirm | Call_Release

record world =
  w_db :: database
  w_saved :: database
  w_registry :: "uuid \<Rightarrow> (provider_settings \<times> (breaker_call \<Rightarrow> circuit)) option"
  w_log :: "http_request list"
  w_ticks :: nat
  w_ids :: nat
  w_now :: instant

type_synonym 'a io = "(world, exn, 'a) prog"

subsection \<open>Clocks, identifiers and the database\<close>

definition read_clock :: "(nat \<Rightarrow> instant) \<Rightarrow> instant io" where
  [prog_simps]: "read_clock c w = (Inr (c (w_ticks w)), w\<lparr>w_ticks := w_ticks w + 1\<rparr>)"

definition fresh_uuid :: "environment \<Rightarrow> uuid io" where
  [prog_simps]: "fresh_uuid E w = (Inr (e_uuid E (w_ids w)), w\<lparr>w_ids := w_ids w + 1\<rparr>)"

definition db_query :: "(database \<Rightarrow> 'a) \<Rightarrow> 'a io" where
  [prog_simps]: "db_query f w = (Inr (f (w_db w)), w)"

definition db_write :: "(database \<Rightarrow> database) \<Rightarrow> unit io" where
  [prog_simps]: "db_write f w = (Inr (), w\<lparr>w_db := f (w_db w)\<rparr>)"

text \<open>A statement that may violate a constraint.\<close>

definition try_write :: "(database \<Rightarrow> exn + database) \<Rightarrow> unit io" where
  [prog_simps]: "try_write f w = (case f (w_db w) of
     Inl e \<Rightarrow> (Inl e, w) | Inr d \<Rightarrow> (Inr (), w\<lparr>w_db := d\<rparr>))"

text \<open>
  \<open>async with session.begin()\<close>: an exception restores the database as it was at the start.
  \<open>now()\<close> is the time the transaction started.
\<close>

definition begin_transaction :: "environment \<Rightarrow> world \<Rightarrow> world" where
  "begin_transaction E w =
     w\<lparr>w_saved := w_db w, w_now := e_db_clock E (w_ticks w), w_ticks := w_ticks w + 1\<rparr>"

definition transaction :: "environment \<Rightarrow> 'a io \<Rightarrow> 'a io" where
  "transaction E m w = (case m (begin_transaction E w) of
     (Inl e, w') \<Rightarrow> (Inl e, w'\<lparr>w_db := w_saved w'\<rparr>)
   | (Inr x, w') \<Rightarrow> (Inr x, w'))"

text \<open>
  Other transactions that commit in between, under \<open>READ COMMITTED\<close>: they change what this
  one reads from now on, and what a rollback leaves.
\<close>

definition interfere :: "(database \<Rightarrow> database) \<Rightarrow> unit io" where
  [prog_simps]: "interfere f w = (Inr (), w\<lparr>w_db := f (w_db w), w_saved := f (w_saved w)\<rparr>)"

text \<open>
  \<open>reservation_transaction\<close>: a violation of the idempotency constraint is a concurrent
  creation.
\<close>

definition idempotency_constraint :: string where
  "idempotency_constraint = ''uq_reservations_user_id_idempotency_key''"

definition violates_constraint :: "exn \<Rightarrow> string \<Rightarrow> bool" where
  "violates_constraint e name \<longleftrightarrow> e = IntegrityError name"

definition reservation_transaction :: "environment \<Rightarrow> 'a io \<Rightarrow> 'a io" where
  "reservation_transaction E m = handle (transaction E m) (\<lambda>e.
     if violates_constraint e idempotency_constraint then raise ConcurrentReservationCreationError
     else raise e)"

subsection \<open>What each step leaves alone\<close>

lemma keeps_read_clock: "(\<And>w n. f (w\<lparr>w_ticks := n\<rparr>) = f w) \<Longrightarrow> keeps f (read_clock c)"
  by (rule keepsI) (auto simp: prog_simps)

lemma keeps_fresh_uuid: "(\<And>w n. f (w\<lparr>w_ids := n\<rparr>) = f w) \<Longrightarrow> keeps f (fresh_uuid E)"
  by (rule keepsI) (auto simp: prog_simps)

lemma keeps_query [keeps_intros]: "keeps f (db_query g)"
  by (simp add: keeps_def db_query_def)

lemma keeps_write: "(\<And>w d. f (w\<lparr>w_db := d\<rparr>) = f w) \<Longrightarrow> keeps f (db_write g)"
  by (rule keepsI) (auto simp: prog_simps)

lemma keeps_try_write: "(\<And>w d. f (w\<lparr>w_db := d\<rparr>) = f w) \<Longrightarrow> keeps f (try_write g)"
  by (rule keepsI) (auto simp: prog_simps split: sum.splits)

lemma keeps_db_ticks [keeps_intros]: "keeps w_db (read_clock c)" "keeps w_saved (read_clock c)"
    "keeps w_registry (read_clock c)" "keeps w_log (read_clock c)" "keeps w_now (read_clock c)"
  by (simp_all add: keeps_read_clock)

lemma keeps_db_ids [keeps_intros]: "keeps w_db (fresh_uuid E)" "keeps w_saved (fresh_uuid E)"
    "keeps w_registry (fresh_uuid E)" "keeps w_log (fresh_uuid E)" "keeps w_now (fresh_uuid E)"
  by (simp_all add: keeps_fresh_uuid)

lemma keeps_writes [keeps_intros]: "keeps w_saved (db_write g)" "keeps w_registry (db_write g)"
    "keeps w_log (db_write g)" "keeps w_now (db_write g)" "keeps w_saved (try_write h)"
    "keeps w_registry (try_write h)" "keeps w_log (try_write h)" "keeps w_now (try_write h)"
  by (simp_all add: keeps_write keeps_try_write)

subsection \<open>Rules for the database statements\<close>

lemma triple_query: "(\<And>w. P w \<Longrightarrow> Q (f (w_db w)) w) \<Longrightarrow> triple P (db_query f) Q R"
  by (simp add: triple_def db_query_def)

lemma triple_write: "(\<And>w. P w \<Longrightarrow> Q () (w\<lparr>w_db := f (w_db w)\<rparr>)) \<Longrightarrow> triple P (db_write f) Q R"
  by (simp add: triple_def db_write_def)

lemma triple_try_write:
  "(\<And>w d. P w \<Longrightarrow> f (w_db w) = Inr d \<Longrightarrow> Q () (w\<lparr>w_db := d\<rparr>)) \<Longrightarrow>
   (\<And>w e. P w \<Longrightarrow> f (w_db w) = Inl e \<Longrightarrow> R e w) \<Longrightarrow> triple P (try_write f) Q R"
  by (simp add: triple_def try_write_def split: sum.splits)

text \<open>
  A transaction whose body keeps the saved copy is atomic: it commits what the body wrote or
  leaves the database it found.
\<close>

lemma transaction_rollback:
  assumes "keeps w_saved m" and "transaction E m w = (Inl e, w')"
  shows "w_db w' = w_db w"
proof -
  obtain w1 where "m (begin_transaction E w) = (Inl e, w1)" and w': "w' = w1\<lparr>w_db := w_saved w1\<rparr>"
    using assms(2) by (auto simp: transaction_def split: prod.splits sum.splits)
  then have "w_saved w1 = w_saved (begin_transaction E w)" using assms(1) by (blast dest: keepsD)
  with w' show ?thesis by (simp add: begin_transaction_def)
qed

lemma transaction_Inr:
  "transaction E m w = (Inr x, w') \<longleftrightarrow> m (begin_transaction E w) = (Inr x, w')"
  by (auto simp: transaction_def split: prod.splits sum.splits)

lemma begin_transaction_simps [simp]:
  "w_db (begin_transaction E w) = w_db w" "w_saved (begin_transaction E w) = w_db w"
  "w_registry (begin_transaction E w) = w_registry w" "w_log (begin_transaction E w) = w_log w"
  "w_ids (begin_transaction E w) = w_ids w"
  by (simp_all add: begin_transaction_def)

lemma reservation_transaction_cases:
  "reservation_transaction E m w = (case transaction E m w of
     (Inl e, w') \<Rightarrow> (Inl (if e = IntegrityError idempotency_constraint
        then ConcurrentReservationCreationError else e), w')
   | (Inr x, w') \<Rightarrow> (Inr x, w'))"
  by (auto simp: reservation_transaction_def violates_constraint_def prog_simps
      split: prod.splits sum.splits)

lemma reservation_transaction_Inr:
  "reservation_transaction E m w = (Inr x, w') \<longleftrightarrow> m (begin_transaction E w) = (Inr x, w')"
  by (simp add: transaction_Inr [symmetric] reservation_transaction_cases split: prod.split sum.split)

lemma reservation_transaction_rollback:
  "keeps w_saved m \<Longrightarrow> reservation_transaction E m w = (Inl e, w') \<Longrightarrow> w_db w' = w_db w"
  by (auto simp: reservation_transaction_cases split: prod.splits sum.splits
      dest: transaction_rollback)

text \<open>
  Lifting a triple about the database over a transaction: the postcondition of a normal return
  holds of the committed database, and an exception leaves the database as it was.
\<close>

lemma triple_transaction:
  assumes "triple P m Q (\<lambda>_ _. True)" and "keeps w_saved m"
    and "\<And>w. P0 w \<Longrightarrow> P (begin_transaction E w)" and "\<And>w. P0 w \<Longrightarrow> w_db w = d"
  shows "triple P0 (reservation_transaction E m) Q (\<lambda>_ w. w_db w = d)"
proof (rule tripleI)
  fix w x w'
  assume "P0 w" and "reservation_transaction E m w = (Inr x, w')"
  then show "Q x w'" using assms(1,3) by (auto simp: reservation_transaction_Inr dest: triple_Inr)
next
  fix w e w'
  assume "P0 w" and "reservation_transaction E m w = (Inl e, w')"
  then show "w_db w' = d" using assms(2,4) by (auto dest: reservation_transaction_rollback)
qed

subsection \<open>A concrete environment and world\<close>

text \<open>For evaluating the model: the provider answers everything with the given reply.\<close>

definition sample_environment :: "http_reply \<Rightarrow> environment" where
  "sample_environment reply = \<lparr>e_reply = (\<lambda>_ _. reply), e_monotonic = int, e_utc = int, e_db_clock = int,
     e_uuid = (\<lambda>n. word_of_int (1000 + int n)), e_environ = None,
     e_json = (\<lambda>_. Some (JObj [(''hold_reference'', JStr ''h1'')])), e_int = (\<lambda>_. None),
     e_datetime = (\<lambda>_. None), e_breaker = \<lparr>bc_threshold = 3, bc_timeout = 30\<rparr>\<rparr>"

definition world_of :: "database \<Rightarrow> world" where
  "world_of d = \<lparr>w_db = d, w_saved = d, w_registry = (\<lambda>_. None), w_log = [], w_ticks = 0, w_ids = 0,
     w_now = 0\<rparr>"

lemmas sample_simps = sample_environment_def world_of_def

end
