(* ===== verification/Http_Provider.thy ===== *)
theory Http_Provider
  imports World
begin

section \<open>External providers over HTTP\<close>

text \<open>
  \<open>repository/provider.py\<close>: secret references, request headers, the four HTTP calls and
  their outcomes, and the registry that keeps one circuit breaker per provider; the breaker's
  methods of \<open>service/provider.py\<close> close the loop. \<open>e_environ\<close> is \<open>None\<close> when
  no secret resolver is configured. A request's time-out is kept in milliseconds.
\<close>

subsection \<open>Secrets and headers\<close>

text \<open>\<open>EnvironmentSecretResolver.resolve\<close>\<close>

definition resolve_secret :: "(string \<Rightarrow> string option) \<Rightarrow> string \<Rightarrow> exn + string" where
  "resolve_secret environ secret_ref =
     (case partition_scheme secret_ref of (scheme, separator, variable_name) \<Rightarrow>
        if \<not> separator \<or> scheme \<noteq> ''env'' \<or> variable_name = [] then Inl SecretResolutionError
        else case environ variable_name of
          None \<Rightarrow> Inl SecretResolutionError
        | Some secret \<Rightarrow> if secret = [] then Inl SecretResolutionError else Inr secret)"

definition secret_resolver :: "environment \<Rightarrow> (string \<Rightarrow> exn + string) option" where
  "secret_resolver E = map_option resolve_secret (e_environ E)"

text \<open>\<open>headers[name] = value\<close>\<close>

fun dict_set :: "string \<Rightarrow> 'a \<Rightarrow> (string \<times> 'a) list \<Rightarrow> (string \<times> 'a) list" where
  "dict_set k v [] = [(k, v)]"
| "dict_set k v ((k', v') # rest) = (if k' = k then (k, v) # rest else (k', v') # dict_set k v rest)"

definition dict_get :: "string \<Rightarrow> json \<Rightarrow> (string \<times> json) list \<Rightarrow> json" where
  "dict_get k d kvs = (case map_of kvs k of None \<Rightarrow> d | Some v \<Rightarrow> v)"

text \<open>
  The test on the header name shared by the adapter and the management service: a non-blank
  string that is not the idempotency header.
\<close>

definition usable_header_name :: "string \<Rightarrow> bool" where
  "usable_header_name name \<longleftrightarrow> py_strip name \<noteq> [] \<and> py_casefold name \<noteq> ''idempotency-key''"

definition usable_username :: "string \<Rightarrow> bool" where
  "usable_username name \<longleftrightarrow> py_strip name \<noteq> [] \<and> CHR '':'' \<notin> set name"

text \<open>\<open>_request_headers\<close> after the secret and the header name are known.\<close>

definition authorization_value :: "uuid \<Rightarrow> credential_row \<Rightarrow> string \<Rightarrow> exn + string" where
  "authorization_value pid c secret =
     (if c_auth c = Auth_Api_Key then Inr secret
      else if c_auth c = Auth_Basic then
        (case map_of (c_config c) ''username'' of
           Some (JStr username) \<Rightarrow>
             if usable_username username
             then Inr (''Basic '' @ b64encode (utf8 (username @ '':'' @ secret)))
             else Inl (ProviderCallFailedError pid)
         | _ \<Rightarrow> Inl (ProviderCallFailedError pid))
      else if c_auth c \<noteq> Auth_Bearer \<and> c_auth c \<noteq> Auth_OAuth2 then Inl (ProviderCallFailedError pid)
      else
        (case dict_get ''scheme'' (JStr ''Bearer'') (c_config c) of
           JStr scheme \<Rightarrow> Inr (scheme @ '' '' @ secret)
         | _ \<Rightarrow> Inl (ProviderCallFailedError pid)))"

definition request_headers ::
  "(string \<Rightarrow> exn + string) option \<Rightarrow> uuid \<Rightarrow> credential_row option \<Rightarrow> string \<Rightarrow>
   exn + (string \<times> string) list" where
  "request_headers resolver pid credential key =
     (let headers = [(''Idempotency-Key'', key)] in
      case credential of
        None \<Rightarrow> Inr headers
      | Some c \<Rightarrow>
          if c_auth c = Auth_None then Inr headers
          else (case (resolver, c_secret_ref c) of
            (Some resolve, Some secret_ref) \<Rightarrow>
              (case resolve secret_ref of
                 Inl SecretResolutionError \<Rightarrow> Inl (ProviderCallFailedError pid)
               | Inl e \<Rightarrow> Inl e
               | Inr secret \<Rightarrow>
                   (case dict_get ''header_name''
                        (JStr (if c_auth c = Auth_Api_Key then ''X-API-Key'' else ''Authorization''))
                        (c_config c) of
                      JStr name \<Rightarrow>
                        if usable_header_name name then
                          (case authorization_value pid c secret of
                             Inl e \<Rightarrow> Inl e
                           | Inr value \<Rightarrow> Inr (dict_set name value headers))
                        else Inl (ProviderCallFailedError pid)
                    | _ \<Rightarrow> Inl (ProviderCallFailedError pid)))
          | _ \<Rightarrow> Inl (ProviderCallFailedError pid)))"

subsection \<open>Requests and replies\<close>

definition http_send :: "environment \<Rightarrow> http_request \<Rightarrow> http_reply io" where
  [prog_simps]: "http_send E req w =
     (Inr (e_reply E (length (w_log w)) req), w\<lparr>w_log := w_log w @ [req]\<rparr>)"

definition is_server_error :: "nat \<Rightarrow> bool" where
  "is_server_error status \<longleftrightarrow> 500 \<le> status \<and> status \<le> 599"

definition is_success :: "nat \<Rightarrow> bool" where
  "is_success status \<longleftrightarrow> 200 \<le> status \<and> status \<le> 299"

definition rstrip_slash :: "string \<Rightarrow> string" where
  "rstrip_slash s = rev (dropWhile (\<lambda>c. c = CHR ''/'') (rev s))"

definition removesuffix :: "string \<Rightarrow> string \<Rightarrow> string" where
  "removesuffix suffix s =
     (if suffix \<noteq> [] \<and> length suffix \<le> length s \<and> drop (length s - length suffix) s = suffix
      then take (length s - length suffix) s else s)"

definition hold_url :: "provider_settings \<Rightarrow> string" where
  "hold_url st = rstrip_slash (ps_base_url st) @ ''/holds''"

text \<open>\<open>_HoldResponse\<close> and \<open>_AvailabilityResponse\<close>: exactly their fields, of their types.\<close>

definition parse_hold :: "environment \<Rightarrow> string \<Rightarrow> string option" where
  "parse_hold E body = (case e_json E body of
     Some (JObj [(k, JStr reference)]) \<Rightarrow> if k = ''hold_reference'' then Some reference else None
   | _ \<Rightarrow> None)"

definition parse_availability :: "environment \<Rightarrow> string \<Rightarrow> (int \<times> instant \<times> bool) option" where
  "parse_availability E body = (case e_json E body of
     Some (JObj kvs) \<Rightarrow>
       if list_all (\<lambda>(k, _). k = ''available_quantity'' \<or> k = ''observed_at'') kvs then
         (case (map_of kvs ''available_quantity'', map_of kvs ''observed_at'') of
            (Some q, Some t) \<Rightarrow>
              (case (e_int E q, e_datetime E t) of
                 (Some quantity, Some (observed, aware)) \<Rightarrow>
                   if 0 \<le> quantity then Some (quantity, observed, aware) else None
               | _ \<Rightarrow> None)
          | _ \<Rightarrow> None)
       else None
   | _ \<Rightarrow> None)"

definition availability_max_age :: duration where
  "availability_max_age = 60000000"

subsection \<open>The four calls\<close>

text \<open>Headers are built before the request is sent; an exception there sends nothing.\<close>

definition http_call ::
  "environment \<Rightarrow> uuid \<Rightarrow> provider_settings \<Rightarrow> string \<Rightarrow> string \<Rightarrow> string \<Rightarrow> json option \<Rightarrow> http_reply io" where
  "http_call E pid st verb url key body =
     andThen (lift_sum (request_headers (secret_resolver E) pid (ps_credentials st) key)) (\<lambda>headers.
       http_send E \<lparr>rq_method = verb, rq_url = url, rq_headers = headers, rq_body = body,
         rq_timeout = ps_timeout st\<rparr>)"

definition http_availability ::
  "environment \<Rightarrow> uuid \<Rightarrow> provider_settings \<Rightarrow> availability_command \<Rightarrow> availability_attempt io" where
  "http_availability E pid st cmd =
     andThen (http_call E pid st ''GET''
         (removesuffix ''/holds'' (hold_url st) @ ''/availability/'' @ uuid_str (ac_product cmd))
         (''availability:product:'' @ uuid_str (ac_product cmd)) None) (\<lambda>reply.
       case reply of
         Timed_Out \<Rightarrow> ret availability_temporarily_unavailable
       | Transport_Error \<Rightarrow> raise HttpTransportError
       | Reply status body \<Rightarrow>
           if is_server_error status then raise (ProviderCallFailedError pid)
           else if \<not> is_success status then raise (HttpStatusError status)
           else (case parse_availability E body of
               None \<Rightarrow> raise (ProviderCallFailedError pid)
             | Some (quantity, observed, aware) \<Rightarrow>
                 if \<not> aware then raise (ProviderCallFailedError pid)
                 else andThen (read_clock (e_utc E)) (\<lambda>now. ret
                   (if availability_max_age < now - observed
                    then availability_stale quantity (Some observed)
                    else availability_fresh quantity (Some observed)))))"

definition http_hold ::
  "environment \<Rightarrow> uuid \<Rightarrow> provider_settings \<Rightarrow> hold_command \<Rightarrow> hold_attempt io" where
  "http_hold E pid st cmd =
     andThen (http_call E pid st ''POST'' (hold_url st) (hc_key cmd)
         (Some (JObj [(''product_id'', JStr (uuid_str (hc_product cmd))),
                      (''quantity'', JNum (hc_quantity cmd))]))) (\<lambda>reply.
       case reply of
         Timed_Out \<Rightarrow> ret hold_unknown
       | Transport_Error \<Rightarrow> raise HttpTransportError
       | Reply status body \<Rightarrow>
           if status = 409 then ret hold_out_of_stock
           else if is_server_error status then raise (ProviderCallFailedError pid)
           else if \<not> is_success status then raise (HttpStatusError status)
           else (case parse_hold E body of
               None \<Rightarrow> raise PayloadValidationError
             | Some reference \<Rightarrow> ret (hold_held (Some reference))))"

definition http_confirm ::
  "environment \<Rightarrow> uuid \<Rightarrow> provider_settings \<Rightarrow> confirm_command \<Rightarrow> confirm_attempt io" where
  "http_confirm E pid st cmd =
     andThen (http_call E pid st ''POST'' (hold_url st @ ''/'' @ cc_reference cmd @ ''/confirm'')
         (cc_key cmd) None) (\<lambda>reply.
       case reply of
         Timed_Out \<Rightarrow> ret \<lparr>ca_outcome = C_Unknown\<rparr>
       | Transport_Error \<Rightarrow> raise HttpTransportError
       | Reply status body \<Rightarrow>
           if status = 404 \<or> status = 409 then ret \<lparr>ca_outcome = C_Rejected\<rparr>
           else if is_server_error status then raise (ProviderCallFailedError pid)
           else if \<not> is_success status then raise (HttpStatusError status)
           else ret \<lparr>ca_outcome = C_Confirmed\<rparr>)"

definition http_release ::
  "environment \<Rightarrow> uuid \<Rightarrow> provider_settings \<Rightarrow> release_command \<Rightarrow> release_attempt io" where
  "http_release E pid st cmd =
     andThen (http_call E pid st ''POST'' (hold_url st @ ''/'' @ rc_reference cmd @ ''/release'')
         (rc_key cmd) None) (\<lambda>reply.
       case reply of
         Timed_Out \<Rightarrow> ret \<lparr>ra_outcome = R_Unknown\<rparr>
       | Transport_Error \<Rightarrow> raise HttpTransportError
       | Reply status body \<Rightarrow>
           if status = 404 then ret \<lparr>ra_outcome = R_Released\<rparr>
           else if is_server_error status then raise (ProviderCallFailedError pid)
           else if \<not> is_success status then raise (HttpStatusError status)
           else ret \<lparr>ra_outcome = R_Released\<rparr>)"

subsection \<open>The registry and its circuit breakers\<close>

definition get_external :: "uuid \<Rightarrow> provider_settings \<Rightarrow> unit io" where
  "get_external pid st = modify (\<lambda>w. case w_registry w pid of
       Some (registered, circuits) \<Rightarrow>
         if registered = st then w
         else w\<lparr>w_registry := (w_registry w)(pid \<mapsto> (st, \<lambda>_. closed_circuit))\<rparr>
     | None \<Rightarrow> w\<lparr>w_registry := (w_registry w)(pid \<mapsto> (st, \<lambda>_. closed_circuit))\<rparr>)"

definition circuit_at :: "uuid \<Rightarrow> breaker_call \<Rightarrow> world \<Rightarrow> circuit" where
  "circuit_at pid k w = (case w_registry w pid of
     None \<Rightarrow> closed_circuit | Some (_, circuits) \<Rightarrow> circuits k)"

definition put_circuit :: "uuid \<Rightarrow> breaker_call \<Rightarrow> circuit \<Rightarrow> world \<Rightarrow> world" where
  "put_circuit pid k c w = (case w_registry w pid of
     None \<Rightarrow> w
   | Some (st, circuits) \<Rightarrow> w\<lparr>w_registry := (w_registry w)(pid \<mapsto> (st, circuits(k := c)))\<rparr>)"

definition breaker_availability ::
  "environment \<Rightarrow> uuid \<Rightarrow> provider_settings \<Rightarrow> availability_command \<Rightarrow> availability_attempt io" where
  "breaker_availability E pid st cmd =
     execute (e_breaker E) (circuit_at pid Call_Availability) (put_circuit pid Call_Availability)
       (read_clock (e_monotonic E)) availability_temporarily_unavailable (\<lambda>_. False)
       (http_availability E pid st cmd)"

definition breaker_hold ::
  "environment \<Rightarrow> uuid \<Rightarrow> provider_settings \<Rightarrow> hold_command \<Rightarrow> hold_attempt io" where
  "breaker_hold E pid st cmd =
     execute (e_breaker E) (circuit_at pid Call_Hold) (put_circuit pid Call_Hold)
       (read_clock (e_monotonic E)) hold_temporarily_unavailable (\<lambda>a. ha_outcome a = H_Unknown)
       (http_hold E pid st cmd)"

definition breaker_confirm ::
  "environment \<Rightarrow> uuid \<Rightarrow> provider_settings \<Rightarrow> confirm_command \<Rightarrow> confirm_attempt io" where
  "breaker_confirm E pid st cmd =
     execute (e_breaker E) (circuit_at pid Call_Confirm) (put_circuit pid Call_Confirm)
       (read_clock (e_monotonic E)) \<lparr>ca_outcome = C_Temporarily_Unavailable\<rparr>
       (\<lambda>a. ca_outcome a = C_Unknown) (http_confirm E pid st cmd)"

definition breaker_release ::
  "environment \<Rightarrow> uuid \<Rightarrow> provider_settings \<Rightarrow> release_command \<Rightarrow> release_attempt io" where
  "breaker_release E pid st cmd =
     execute (e_breaker E) (circuit_at pid Call_Release) (put_circuit pid Call_Release)
       (read_clock (e_monotonic E)) \<lparr>ra_outcome = R_Temporarily_Unavailable\<rparr>
       (\<lambda>a. ra_outcome a = R_Unknown) (http_release E pid st cmd)"

subsection \<open>External calls do not touch the database\<close>

lemma put_circuit_keeps [simp]:
  "w_db (put_circuit pid k c w) = w_db w" "w_saved (put_circuit pid k c w) = w_saved w"
  "w_log (put_circuit pid k c w) = w_log w" "w_now (put_circuit pid k c w) = w_now w"
  "w_ids (put_circuit pid k c w) = w_ids w"
  by (simp_all add: put_circuit_def split: option.splits prod.splits)

lemma keeps_http_send [keeps_intros]: "keeps w_db (http_send E r)" "keeps w_saved (http_send E r)"
    "keeps w_registry (http_send E r)" "keeps w_now (http_send E r)" "keeps w_ids (http_send E r)"
  by (auto intro!: keepsI simp: prog_simps)

lemma keeps_ids_clock [keeps_intros]: "keeps w_ids (read_clock c)"
  by (rule keepsI) (auto simp: prog_simps)

lemma keeps_get_external [keeps_intros]: "keeps w_db (get_external pid st)"
    "keeps w_saved (get_external pid st)" "keeps w_log (get_external pid st)"
    "keeps w_now (get_external pid st)" "keeps w_ids (get_external pid st)"
  unfolding get_external_def by (auto intro!: keeps_modify split: option.splits)

lemma keeps_reply [keeps_intros]:
  "keeps f m \<Longrightarrow> keeps f n \<Longrightarrow> (\<And>st b. keeps f (k st b)) \<Longrightarrow>
   keeps f (case r of Timed_Out \<Rightarrow> m | Transport_Error \<Rightarrow> n | Reply st b \<Rightarrow> k st b)"
  by (cases r) simp_all

lemmas http_call_defs = http_call_def http_availability_def http_hold_def http_confirm_def
  http_release_def

lemma keeps_http_db [keeps_intros]:
  "keeps w_db (http_availability E pid st a)" "keeps w_db (http_hold E pid st h)"
  "keeps w_db (http_confirm E pid st c)" "keeps w_db (http_release E pid st r)"
  unfolding http_call_defs by (intro keeps_intros)+

lemma keeps_http_saved [keeps_intros]:
  "keeps w_saved (http_availability E pid st a)" "keeps w_saved (http_hold E pid st h)"
  "keeps w_saved (http_confirm E pid st c)" "keeps w_saved (http_release E pid st r)"
  unfolding http_call_defs by (intro keeps_intros)+

lemma keeps_http_now [keeps_intros]:
  "keeps w_now (http_availability E pid st a)" "keeps w_now (http_hold E pid st h)"
  "keeps w_now (http_confirm E pid st c)" "keeps w_now (http_release E pid st r)"
  unfolding http_call_defs by (intro keeps_intros)+

lemmas breaker_defs = breaker_availability_def breaker_hold_def breaker_confirm_def
  breaker_release_def

lemma keeps_breaker_db [keeps_intros]:
  "keeps w_db (breaker_availability E pid st a)" "keeps w_db (breaker_hold E pid st h)"
  "keeps w_db (breaker_confirm E pid st c)" "keeps w_db (breaker_release E pid st r)"
  unfolding breaker_defs by (rule keeps_execute; intro keeps_intros put_circuit_keeps)+

lemma keeps_breaker_saved [keeps_intros]:
  "keeps w_saved (breaker_availability E pid st a)" "keeps w_saved (breaker_hold E pid st h)"
  "keeps w_saved (breaker_confirm E pid st c)" "keeps w_saved (breaker_release E pid st r)"
  unfolding breaker_defs by (rule keeps_execute; intro keeps_intros put_circuit_keeps)+

lemma keeps_breaker_now [keeps_intros]:
  "keeps w_now (breaker_availability E pid st a)" "keeps w_now (breaker_hold E pid st h)"
  "keeps w_now (breaker_confirm E pid st c)" "keeps w_now (breaker_release E pid st r)"
  unfolding breaker_defs by (rule keeps_execute; intro keeps_intros put_circuit_keeps)+

subsection \<open>Properties\<close>

lemma utf8_basic: "utf8 (u @ CHR '':'' # t) = utf8 u @ 58 # utf8 t"
proof -
  have "code CHR '':'' = 58" by (simp add: code_def)
  then show ?thesis by (simp add: utf8_def)
qed

lemma colon_code: "code c = 58 \<longleftrightarrow> c = CHR '':''"
proof
  assume "code c = 58"
  then have "c = char_of (58 :: nat)" by (metis char_of_code)
  then show "c = CHR '':''" by (simp add: char_of_def bit_Suc_0_iff)
qed (simp add: code_def)

lemma utf8_no_colon: "CHR '':'' \<notin> set s \<Longrightarrow> 58 \<notin> set (utf8 s)"
  unfolding utf8_def by (auto simp: colon_code split: if_splits)

lemma b64_utf8: "b64decode (b64encode (utf8 s)) = utf8 s"
  by (rule b64_roundtrip) (simp add: utf8_lt)

lemma usable_header_neq: "usable_header_name name \<Longrightarrow> name \<noteq> ''Idempotency-Key''"
  by (auto simp: usable_header_name_def py_casefold_def lower_char_def code_def char_of_def bit_Suc_0_iff)

lemma authorization_basic:
  "authorization_value pid c secret = Inr value \<Longrightarrow> c_auth c = Auth_Basic \<Longrightarrow>
   \<exists>username. map_of (c_config c) ''username'' = Some (JStr username) \<and> CHR '':'' \<notin> set username \<and>
     value = ''Basic '' @ b64encode (utf8 (username @ '':'' @ secret))"
  by (auto simp: authorization_value_def usable_username_def split: option.splits json.splits if_splits)

lemma request_headers_Inr:
  assumes "request_headers resolver pid (Some c) key = Inr hs" and "c_auth c \<noteq> Auth_None"
  obtains resolve secret_ref secret name "value" where "resolver = Some resolve"
    "c_secret_ref c = Some secret_ref" "resolve secret_ref = Inr secret" "usable_header_name name"
    "authorization_value pid c secret = Inr value" "hs = [(''Idempotency-Key'', key), (name, value)]"
  using assms
  by (auto simp: request_headers_def Let_def split: option.splits sum.splits
      exn.splits json.splits if_splits dest: usable_header_neq)

text \<open>
  Authentication adds exactly one header to a request and never touches its idempotency key:
  the header is not blank and does not spell \<open>Idempotency-Key\<close> in any case. For basic
  authentication its value decodes to the user name, a colon and the resolved secret, with no colon
  in the user name's bytes, so the provider recovers both.
\<close>

theorem authenticated_request_headers:
  assumes "request_headers resolver pid (Some c) key = Inr hs" and "c_auth c \<noteq> Auth_None"
  shows "\<exists>name value resolve secret_ref secret. hs = [(''Idempotency-Key'', key), (name, value)] \<and>
    py_strip name \<noteq> [] \<and> py_casefold name \<noteq> py_casefold ''Idempotency-Key'' \<and>
    resolver = Some resolve \<and> c_secret_ref c = Some secret_ref \<and> resolve secret_ref = Inr secret \<and>
    (c_auth c = Auth_Basic \<longrightarrow> (\<exists>username. map_of (c_config c) ''username'' = Some (JStr username) \<and>
       take 6 value = ''Basic '' \<and> b64decode (drop 6 value) = utf8 username @ 58 # utf8 secret \<and>
       58 \<notin> set (utf8 username)))"
  using assms
proof (rule request_headers_Inr)
  fix resolve secret_ref secret name "value"
  assume parts: "resolver = Some resolve" "c_secret_ref c = Some secret_ref"
    "resolve secret_ref = Inr secret" "usable_header_name name"
    "authorization_value pid c secret = Inr value" "hs = [(''Idempotency-Key'', key), (name, value)]"
  have lower: "py_casefold ''Idempotency-Key'' = ''idempotency-key''"
    by (simp add: py_casefold_def lower_char_def code_def char_of_def bit_Suc_0_iff)
  have "c_auth c = Auth_Basic \<longrightarrow> (\<exists>username. map_of (c_config c) ''username'' = Some (JStr username) \<and>
       take 6 value = ''Basic '' \<and> b64decode (drop 6 value) = utf8 username @ 58 # utf8 secret \<and>
       58 \<notin> set (utf8 username))"
  proof
    assume "c_auth c = Auth_Basic"
    with parts(5) obtain username where u: "map_of (c_config c) ''username'' = Some (JStr username)"
      "CHR '':'' \<notin> set username" "value = ''Basic '' @ b64encode (utf8 (username @ '':'' @ secret))"
      by (blast dest: authorization_basic)
    have "b64decode (drop 6 value) = utf8 (username @ '':'' @ secret)"
      unfolding u(3) by (simp add: b64_utf8)
    with u(1,2) show "\<exists>username. map_of (c_config c) ''username'' = Some (JStr username) \<and>
       take 6 value = ''Basic '' \<and> b64decode (drop 6 value) = utf8 username @ 58 # utf8 secret \<and>
       58 \<notin> set (utf8 username)"
      by (simp add: u(3) utf8_basic utf8_no_colon)
  qed
  with parts show ?thesis by (auto simp: usable_header_name_def lower)
qed

theorem authenticated_request_headers_witness:
  "let c = \<lparr>c_provider = 7, c_auth = Auth_Basic, c_secret_ref = Some ''env://P'',
            c_config = [(''username'', JStr ''al'')]\<rparr>
   in \<exists>name value. request_headers (Some (resolve_secret (\<lambda>_. Some ''pw''))) 7 (Some c) ''k''
        = Inr [(''Idempotency-Key'', ''k''), (name, value)] \<and>
      b64decode (drop 6 value) = utf8 ''al'' @ 58 # utf8 ''pw''"
proof -
  let ?c = "\<lparr>c_provider = 7, c_auth = Auth_Basic, c_secret_ref = Some ''env://P'',
            c_config = [(''username'', JStr ''al'')]\<rparr>"
  let ?r = "Some (resolve_secret (\<lambda>_. Some ''pw''))"
  have res: "resolve_secret (\<lambda>_. Some ''pw'') ''env://P'' = Inr ''pw''"
    by (simp add: resolve_secret_def)
  have hs: "\<exists>hs. request_headers ?r 7 (Some ?c) ''k'' = Inr hs"
    by (simp add: request_headers_def Let_def res dict_get_def usable_header_name_def py_strip_def
        py_space_def code_def py_casefold_def lower_char_def char_of_def bit_Suc_0_iff
        authorization_value_def usable_username_def)
  then obtain hs where "request_headers ?r 7 (Some ?c) ''k'' = Inr hs" by blast
  from authenticated_request_headers [OF this] this show ?thesis by (auto simp: Let_def res)
qed



lemma circuit_at_put:
  "circuit_at pid' k' (put_circuit pid k c w) =
     (if pid' = pid \<and> k' = k \<and> w_registry w pid \<noteq> None then c else circuit_at pid' k' w)"
  by (auto simp: circuit_at_def put_circuit_def split: option.splits prod.splits)

lemma keeps_http_circuit [keeps_intros]:
  "keeps (circuit_at p k) (http_availability E pid st a)" "keeps (circuit_at p k) (http_hold E pid st h)"
  "keeps (circuit_at p k) (http_confirm E pid st c)" "keeps (circuit_at p k) (http_release E pid st r)"
proof -
  have send: "keeps (circuit_at p k) (http_send E req)" "keeps (circuit_at p k) (read_clock c)" for req c
    by (auto intro!: keepsI simp: prog_simps circuit_at_def)
  show "keeps (circuit_at p k) (http_availability E pid st a)" "keeps (circuit_at p k) (http_hold E pid st h)"
    "keeps (circuit_at p k) (http_confirm E pid st c)" "keeps (circuit_at p k) (http_release E pid st r)"
    unfolding http_call_defs by (intro keeps_intros send)+
qed

lemma keeps_other_circuit:
  assumes "(p, k') \<noteq> (pid, k)" and "keeps (circuit_at p k') m"
  shows "keeps (circuit_at p k')
    (execute cfg (circuit_at pid k) (put_circuit pid k) (read_clock c) t u m)"
proof (rule keeps_execute)
  show "keeps (circuit_at p k') (read_clock c)"
    by (auto intro!: keepsI simp: prog_simps circuit_at_def)
qed (use assms in \<open>auto simp: circuit_at_put\<close>)

text \<open>
  The circuits are separate: a call of one kind at one provider, whatever its result, leaves
  the circuit of every other kind and of every other provider as it was; a healthy stock read
  cannot close a broken hold circuit. Asking the registry again with unchanged settings keeps the
  circuits; with changed settings it starts with closed ones.
\<close>

theorem circuits_are_separate:
  "((p, k) \<noteq> (pid, Call_Availability) \<longrightarrow>
      circuit_at p k (snd (breaker_availability E pid st a w)) = circuit_at p k w) \<and>
   ((p, k) \<noteq> (pid, Call_Hold) \<longrightarrow> circuit_at p k (snd (breaker_hold E pid st h w)) = circuit_at p k w) \<and>
   ((p, k) \<noteq> (pid, Call_Confirm) \<longrightarrow>
      circuit_at p k (snd (breaker_confirm E pid st c w)) = circuit_at p k w) \<and>
   ((p, k) \<noteq> (pid, Call_Release) \<longrightarrow>
      circuit_at p k (snd (breaker_release E pid st r w)) = circuit_at p k w) \<and>
   circuit_at p k (snd (get_external pid st w)) =
     (if p = pid \<and> map_option fst (w_registry w pid) \<noteq> Some st then closed_circuit else circuit_at p k w)"
proof (intro conjI impI)
  show "circuit_at p k (snd (get_external pid st w)) =
     (if p = pid \<and> map_option fst (w_registry w pid) \<noteq> Some st then closed_circuit else circuit_at p k w)"
    by (auto simp: get_external_def modify_def circuit_at_def split: option.splits)
qed (simp_all add: breaker_defs keeps_other_circuit [unfolded keeps_def, rule_format]
      keeps_http_circuit [unfolded keeps_def])

theorem circuits_are_separate_witness:
  "let E = sample_environment (Reply 500 []);
       st = \<lparr>ps_base_url = ''http://h'', ps_timeout = 1000, ps_credentials = None\<rparr>;
       w = snd (get_external 5 st (world_of empty_database))
   in circuit_at 5 Call_Hold (snd (breaker_availability E 5 st \<lparr>ac_product = 1\<rparr> w)) = circuit_at 5 Call_Hold w"
  unfolding Let_def
  using circuits_are_separate [of 5 Call_Hold 5 "sample_environment (Reply 500 [])"
      "\<lparr>ps_base_url = ''http://h'', ps_timeout = 1000, ps_credentials = None\<rparr>" "\<lparr>ac_product = 1\<rparr>"
      "snd (get_external 5 \<lparr>ps_base_url = ''http://h'', ps_timeout = 1000, ps_credentials = None\<rparr>
         (world_of empty_database))"]
  by simp

end
