(* ===== verification/Inventory_Repo.thy ===== *)
theory Inventory_Repo
  imports Http_Provider
begin

section \<open>The inventory repository\<close>

text \<open>
  \<open>repository/inventory.py\<close>: conditional updates of an offer row, the candidates a hold may
  use, the ports built for them, and \<open>try_hold_selected\<close>, which runs the router over them.
  The last part states the stock account that everything except a hold leaves alone, and shows the
  ports keep the router's contract (locale \<open>stock_ports\<close>).
\<close>

subsection \<open>Offer rows\<close>

record snapshot =
  sn_product :: uuid
  sn_provider :: uuid
  sn_on_hand :: int
  sn_reserved :: int
  sn_version :: int

definition sn_available :: "snapshot \<Rightarrow> int" where
  "sn_available s = sn_on_hand s - sn_reserved s"

definition snapshot_of :: "offer_row \<Rightarrow> snapshot" where
  "snapshot_of r = \<lparr>sn_product = o_product r, sn_provider = o_provider r, sn_on_hand = o_on_hand r,
     sn_reserved = o_reserved r, sn_version = o_version r\<rparr>"

definition offer_at :: "uuid \<Rightarrow> uuid \<Rightarrow> offer_row \<Rightarrow> bool" where
  "offer_at p v r \<longleftrightarrow> o_product r = p \<and> o_provider r = v"

definition map_offer :: "uuid \<Rightarrow> uuid \<Rightarrow> (offer_row \<Rightarrow> offer_row) \<Rightarrow> database \<Rightarrow> database" where
  "map_offer p v f d = d\<lparr>offers := update_where (offer_at p v) f (offers d)\<rparr>"

text \<open>
  \<open>UPDATE product_offers SET .. WHERE product_id = p AND provider_id = v AND cond RETURNING ..\<close>
\<close>

definition update_offer ::
  "uuid \<Rightarrow> uuid \<Rightarrow> (offer_row \<Rightarrow> bool) \<Rightarrow> (offer_row \<Rightarrow> offer_row) \<Rightarrow> snapshot option io" where
  "update_offer p v cond f =
     andThen (db_query (find_offer p v)) (\<lambda>row. case row of
       None \<Rightarrow> ret None
     | Some r \<Rightarrow>
         if \<not> cond r then ret None
         else andThen (lift_sum (check_constraints (offer_checks (f r)))) (\<lambda>_.
              andThen (db_write (map_offer p v f)) (\<lambda>_. ret (Some (snapshot_of (f r))))))"

definition get_snapshot :: "uuid \<Rightarrow> uuid \<Rightarrow> snapshot option io" where
  "get_snapshot p v = db_query (\<lambda>d. map_option snapshot_of (find_offer p v d))"

definition hold_stock :: "int \<Rightarrow> offer_row \<Rightarrow> offer_row" where
  "hold_stock q r = r\<lparr>o_reserved := o_reserved r + q, o_version := o_version r + 1\<rparr>"

definition confirm_stock :: "int \<Rightarrow> offer_row \<Rightarrow> offer_row" where
  "confirm_stock q r = r\<lparr>o_on_hand := o_on_hand r - q, o_reserved := o_reserved r - q,
     o_version := o_version r + 1\<rparr>"

definition release_stock :: "int \<Rightarrow> offer_row \<Rightarrow> offer_row" where
  "release_stock q r = r\<lparr>o_reserved := o_reserved r - q, o_version := o_version r + 1\<rparr>"

definition try_hold :: "uuid \<Rightarrow> uuid \<Rightarrow> int \<Rightarrow> snapshot option io" where
  "try_hold p v q = update_offer p v (\<lambda>r. q \<le> o_on_hand r - o_reserved r) (hold_stock q)"

definition confirm_hold :: "uuid \<Rightarrow> uuid \<Rightarrow> int \<Rightarrow> snapshot option io" where
  "confirm_hold p v q = update_offer p v (\<lambda>r. q \<le> o_on_hand r \<and> q \<le> o_reserved r) (confirm_stock q)"

definition release_hold :: "uuid \<Rightarrow> uuid \<Rightarrow> int \<Rightarrow> snapshot option io" where
  "release_hold p v q = update_offer p v (\<lambda>r. q \<le> o_reserved r) (release_stock q)"

text \<open>\<open>observe_availability\<close>\<close>

definition observe_stock :: "int \<Rightarrow> instant option \<Rightarrow> offer_row \<Rightarrow> offer_row" where
  "observe_stock available observed r = r\<lparr>o_on_hand := max (o_reserved r) available,
     o_observed := observed, o_version := o_version r + 1\<rparr>"

definition observe_availability :: "uuid \<Rightarrow> uuid \<Rightarrow> availability_attempt \<Rightarrow> unit io" where
  "observe_availability p v attempt =
     (case (av_outcome attempt, av_quantity attempt) of
        (V_Fresh, Some available) \<Rightarrow>
          if \<not> int4 available then raise DataError
          else andThen (update_offer p v (\<lambda>_. True) (observe_stock available (av_observed attempt)))
            (\<lambda>_. ret ())
      | _ \<Rightarrow> ret ())"

subsection \<open>Ports\<close>

definition internal_port :: "uuid \<Rightarrow> world hold_port" where
  "internal_port v = \<lparr>pt_id = v,
     pt_availability = Some (\<lambda>cmd. andThen (get_snapshot (ac_product cmd) v) (\<lambda>s. ret
       (availability_fresh (case s of None \<Rightarrow> 0 | Some level \<Rightarrow> sn_available level) None))),
     pt_hold = (\<lambda>cmd. andThen (try_hold (hc_product cmd) v (hc_quantity cmd)) (\<lambda>s. ret
       (case s of None \<Rightarrow> hold_out_of_stock | Some _ \<Rightarrow> hold_held None)))\<rparr>"

definition external_port :: "environment \<Rightarrow> uuid \<Rightarrow> provider_settings \<Rightarrow> world hold_port" where
  "external_port E v st = \<lparr>pt_id = v, pt_availability = Some (breaker_availability E v st),
     pt_hold = breaker_hold E v st\<rparr>"

definition settings_of :: "provider_row \<Rightarrow> string \<Rightarrow> credential_row option \<Rightarrow> provider_settings" where
  "settings_of r base_url credential =
     \<lparr>ps_base_url = base_url, ps_timeout = v_timeout_ms r, ps_credentials = credential\<rparr>"

text \<open>\<open>_hold_provider\<close>\<close>

definition hold_provider ::
  "environment \<Rightarrow> provider_row \<Rightarrow> credential_row option \<Rightarrow> world hold_port option io" where
  "hold_provider E r credential =
     (if v_kind r = Internal then ret (Some (internal_port (v_id r)))
      else case v_base_url r of
        None \<Rightarrow> ret None
      | Some base_url \<Rightarrow>
          if v_driver r = ''http'' then
            (let st = settings_of r base_url credential in
             andThen (get_external (v_id r) st) (\<lambda>_. ret (Some (external_port E (v_id r) st))))
          else ret None)"

subsection \<open>Holding at the selected provider or its routing group\<close>

definition in_selected_group :: "uuid \<Rightarrow> uuid option \<Rightarrow> offer_row \<Rightarrow> bool" where
  "in_selected_group v routing r = (case routing of
     None \<Rightarrow> o_provider r = v | Some g \<Rightarrow> o_group r = Some g)"

definition routing_candidates :: "uuid \<Rightarrow> uuid \<Rightarrow> database \<Rightarrow> (provider_row \<times> credential_row option) list" where
  "routing_candidates p v d =
     (let routing = Option.bind (find_offer p v d) o_group;
          rows = filter (\<lambda>r. o_product r = p \<and> in_selected_group v routing r) (offers d);
          joined = List.map_filter (\<lambda>r. find_provider (o_provider r) d)
                     (sort_key (\<lambda>r. (o_priority r, o_provider r)) rows)
      in map (\<lambda>r. (r, find_credential (v_id r) d)) (filter (\<lambda>r. v_enabled r \<and> v_hold r) joined))"

definition configure :: "environment \<Rightarrow> (provider_row \<times> credential_row option) list \<Rightarrow>
    (provider_row \<times> world hold_port) list io" where
  "configure E candidates =
     andThen (for_each (\<lambda>(r, credential). hold_provider E r credential) candidates) (\<lambda>ports. ret
       (List.map_filter (\<lambda>((r, _), port). map_option (Pair r) port) (zip candidates ports)))"

definition checks_availability :: "(provider_row \<times> world hold_port) list \<Rightarrow> uuid \<Rightarrow> bool" where
  "checks_availability configured v =
     list_ex (\<lambda>(r, _). v_id r = v \<and> v_kind r = External \<and> v_availability r) configured"

definition try_hold_selected ::
  "environment \<Rightarrow> uuid \<Rightarrow> uuid \<Rightarrow> int \<Rightarrow> string \<Rightarrow> provider_hold option io" where
  "try_hold_selected E p v q key =
     andThen (db_query (routing_candidates p v)) (\<lambda>candidates.
     andThen (configure E candidates) (\<lambda>configured.
       router_hold (checks_availability configured) (observe_availability p) (map snd configured)
         \<lparr>hc_product = p, hc_quantity = q, hc_key = key\<rparr>))"

subsection \<open>Well-formed offers\<close>

definition offer_ok :: "offer_row \<Rightarrow> bool" where
  "offer_ok r \<longleftrightarrow> (\<forall>c\<in>set (offer_checks r). snd c)"

definition offer_key :: "offer_row \<Rightarrow> uuid \<times> uuid" where
  "offer_key r = (o_product r, o_provider r)"

definition offers_ok :: "database \<Rightarrow> bool" where
  "offers_ok d \<longleftrightarrow> list_all offer_ok (offers d) \<and> distinct (map offer_key (offers d)) \<and>
     list_all (\<lambda>r. find_provider (o_provider r) d \<noteq> None) (offers d)"

lemma offer_ok_iff: "offer_ok r \<longleftrightarrow> 0 \<le> o_on_hand r \<and> 0 \<le> o_reserved r \<and> o_reserved r \<le> o_on_hand r \<and>
    1 \<le> o_version r \<and> 0 \<le> o_priority r"
  by (auto simp: offer_ok_def offer_checks_def)

lemma check_offer: "check_constraints (offer_checks r) = Inr u \<longleftrightarrow> offer_ok r"
  by (simp add: check_constraints_Inr offer_ok_def)

lemma find_offer_Some: "find_offer p v d = Some r \<Longrightarrow> r \<in> set (offers d) \<and> offer_at p v r"
  unfolding find_offer_def offer_at_def by (drule find_SomeD) simp

lemma find_offer_iff:
  "offers_ok d \<Longrightarrow> find_offer p v d = Some r \<longleftrightarrow> r \<in> set (offers d) \<and> o_product r = p \<and> o_provider r = v"
  using find_Some_iff_mem [of offer_key "offers d" "(p, v)" r]
  by (simp add: offers_ok_def find_offer_def offer_key_def)

definition keeps_key :: "(offer_row \<Rightarrow> offer_row) \<Rightarrow> bool" where
  "keeps_key f \<longleftrightarrow> (\<forall>r. o_product (f r) = o_product r \<and> o_provider (f r) = o_provider r)"

lemma keeps_key_stock [simp]: "keeps_key (hold_stock q)" "keeps_key (confirm_stock q)"
    "keeps_key (release_stock q)" "keeps_key (observe_stock a t)"
  by (simp_all add: keeps_key_def hold_stock_def confirm_stock_def release_stock_def observe_stock_def)

lemma offers_ok_map_offer:
  assumes "offers_ok d" and "keeps_key f" and "find_offer p v d = Some r" and "offer_ok (f r)"
  shows "offers_ok (map_offer p v f d)"
proof -
  have "x = r" if "x \<in> set (offers d)" "offer_at p v x" for x
    using that assms(1,3) by (simp add: find_offer_iff offer_at_def)
      (metis assms(1) find_offer_iff option.inject that(2) offer_at_def)
  then have "list_all offer_ok (offers (map_offer p v f d))"
    using assms(1,4) by (auto simp: map_offer_def list_all_iff set_update_where offers_ok_def)
  moreover have "map offer_key (offers (map_offer p v f d)) = map offer_key (offers d)"
    using assms(2) by (auto simp: map_offer_def offer_key_def keeps_key_def intro!: map_update_where)
  moreover have "list_all (\<lambda>r. find_provider (o_provider r) (map_offer p v f d) \<noteq> None) (offers (map_offer p v f d))"
    using assms(1,2) by (auto simp: offers_ok_def list_all_iff map_offer_def set_update_where keeps_key_def
        find_provider_def)
  ultimately show ?thesis using assms(1) by (simp add: offers_ok_def)
qed

lemma find_offer_map_offer:
  "keeps_key f \<Longrightarrow> find_offer p' v' (map_offer p v f d) =
     map_option (\<lambda>r. if p' = p \<and> v' = v then f r else r) (find_offer p' v' d)"
proof -
  assume "keeps_key f"
  then have "find_offer p' v' (map_offer p v f d) =
     map_option (\<lambda>r. if offer_at p v r then f r else r) (find_offer p' v' d)"
    unfolding find_offer_def map_offer_def
    by (simp add: find_update_where_same keeps_key_def)
  also have "\<dots> = map_option (\<lambda>r. if p' = p \<and> v' = v then f r else r) (find_offer p' v' d)"
    by (cases "find_offer p' v' d") (auto dest: find_offer_Some simp: offer_at_def)
  finally show ?thesis .
qed

lemma check_offer_Inl: "check_constraints (offer_checks r) = Inl e \<Longrightarrow> \<not> offer_ok r \<and> (\<exists>n. e = IntegrityError n)"
  using check_constraints_Inl [of "offer_checks r" e] check_offer [of r] by auto

text \<open>The one way an offer update returns, and the two ways it can fail to update.\<close>

lemma update_offer_cases:
  "update_offer p v cond f w = (r, w') \<Longrightarrow>
     (r = Inr None \<and> w' = w \<and> (\<forall>x. find_offer p v (w_db w) = Some x \<longrightarrow> \<not> cond x)) \<or>
     (\<exists>x. find_offer p v (w_db w) = Some x \<and> cond x \<and> \<not> offer_ok (f x) \<and> w' = w \<and>
        (\<exists>n. r = Inl (IntegrityError n))) \<or>
     (\<exists>x. find_offer p v (w_db w) = Some x \<and> cond x \<and> offer_ok (f x) \<and>
        r = Inr (Some (snapshot_of (f x))) \<and> w' = w\<lparr>w_db := map_offer p v f (w_db w)\<rparr>)"
  by (auto simp: update_offer_def prog_simps check_offer split: option.splits if_splits sum.splits
      dest: check_offer_Inl)

lemma keeps_update_offer [keeps_intros]: "keeps w_saved (update_offer p v c f)"
    "keeps w_registry (update_offer p v c f)" "keeps w_log (update_offer p v c f)"
    "keeps w_now (update_offer p v c f)"
  unfolding update_offer_def by (intro keeps_intros)+

subsection \<open>The stock account\<close>

text \<open>
  What availability calls and observations leave alone: every table, and of the offers everything
  but the version and, for a provider that is not internal, the observed quantity.
\<close>

definition is_internal :: "database \<Rightarrow> uuid \<Rightarrow> bool" where
  "is_internal d v = (case find_provider v d of None \<Rightarrow> False | Some r \<Rightarrow> v_kind r = Internal)"

definition account_offer :: "database \<Rightarrow> offer_row \<Rightarrow> offer_row" where
  "account_offer d r = (if is_internal d (o_provider r) then r\<lparr>o_version := 0\<rparr>
     else r\<lparr>o_on_hand := 0, o_version := 0, o_observed := None\<rparr>)"

definition stock_account :: "database \<Rightarrow> database" where
  "stock_account d = d\<lparr>offers := map (account_offer d) (offers d)\<rparr>"

definition reserve :: "int \<Rightarrow> offer_row \<Rightarrow> offer_row" where
  "reserve q r = r\<lparr>o_reserved := o_reserved r + q\<rparr>"

definition takes_stock :: "uuid \<Rightarrow> hold_command \<Rightarrow> database \<Rightarrow> database \<Rightarrow> bool" where
  "takes_stock v cmd a a' \<longleftrightarrow>
     (if is_internal a v then
        (\<exists>r. find_offer (hc_product cmd) v a = Some r \<and> hc_quantity cmd \<le> o_on_hand r - o_reserved r) \<and>
        a' = map_offer (hc_product cmd) v (reserve (hc_quantity cmd)) a
      else a' = a)"

lemma is_internal_map_offer [simp]: "is_internal (map_offer p v f d) u = is_internal d u"
  by (simp add: is_internal_def map_offer_def find_provider_def)

lemma is_internal_account [simp]: "is_internal (stock_account d) u = is_internal d u"
  by (simp add: is_internal_def stock_account_def find_provider_def)

lemma account_offer_map_offer [simp]: "account_offer (map_offer p v f d) = account_offer d"
  by (rule ext) (simp add: account_offer_def)

lemma account_offer_key [simp]: "offer_at p v (account_offer d r) = offer_at p v r"
  by (simp add: account_offer_def offer_at_def)

lemma stock_account_map_offer:
  assumes "\<And>r. offer_at p v r \<Longrightarrow> account_offer d (f r) = g (account_offer d r)"
  shows "stock_account (map_offer p v f d) = map_offer p v g (stock_account d)"
proof -
  have "map (account_offer d) (update_where (offer_at p v) f xs) =
      update_where (offer_at p v) g (map (account_offer d) xs)" for xs
    using assms by (induction xs) auto
  then show ?thesis
    unfolding stock_account_def by (simp add: map_offer_def) (simp add: map_offer_def [symmetric])
qed

lemma stock_account_hold:
  "is_internal d v \<Longrightarrow> stock_account (map_offer p v (hold_stock q) d) = map_offer p v (reserve q) (stock_account d)"
  by (rule stock_account_map_offer) (simp add: account_offer_def hold_stock_def reserve_def offer_at_def)

lemma map_offer_id: "map_offer p v (\<lambda>r. r) d = d"
  by (simp add: map_offer_def update_where_def)

lemma stock_account_observe:
  "\<not> is_internal d v \<Longrightarrow> stock_account (map_offer p v (observe_stock n t) d) = stock_account d"
  using stock_account_map_offer [of p v d "observe_stock n t" "\<lambda>r. r"]
  by (simp add: account_offer_def observe_stock_def offer_at_def map_offer_id)

lemma find_offer_account: "find_offer p v (stock_account d) = map_option (account_offer d) (find_offer p v d)"
proof -
  have "find (\<lambda>r. o_product r = p \<and> o_provider r = v) (map (account_offer d) xs) =
      map_option (account_offer d) (find (\<lambda>r. o_product r = p \<and> o_provider r = v) xs)" for xs
    by (induction xs) (auto simp: account_offer_def)
  then show ?thesis by (simp add: find_offer_def stock_account_def)
qed

subsection \<open>The ports keep the router's contract\<close>

definition stock_inv :: "(uuid \<Rightarrow> bool) \<Rightarrow> world \<Rightarrow> bool" where
  "stock_inv internal w \<longleftrightarrow> offers_ok (w_db w) \<and> (\<forall>v. is_internal (w_db w) v = internal v)"

definition honest_port :: "environment \<Rightarrow> (uuid \<Rightarrow> bool) \<Rightarrow> world hold_port \<Rightarrow> bool" where
  "honest_port E internal port \<longleftrightarrow>
     (\<exists>v. internal v \<and> port = internal_port v) \<or> (\<exists>v st. \<not> internal v \<and> port = external_port E v st)"

definition db_account :: "world \<Rightarrow> database" where
  "db_account w = stock_account (w_db w)"

lemma keeps_db_triple:
  "keeps w_db m \<Longrightarrow> triple (\<lambda>s. stock_inv i s \<and> db_account s = a) m (\<lambda>_ s. stock_inv i s \<and> db_account s = a)
     (\<lambda>_ _. True)"
  by (rule tripleI) (auto simp: stock_inv_def db_account_def dest: keepsD)

lemma offer_ok_hold:
  "offer_ok r \<Longrightarrow> q \<le> o_on_hand r - o_reserved r \<Longrightarrow> 0 \<le> q \<Longrightarrow> offer_ok (hold_stock q r)"
  by (simp add: offer_ok_iff hold_stock_def)

lemma offer_ok_observe: "offer_ok r \<Longrightarrow> offer_ok (observe_stock n t r)"
  unfolding offer_ok_iff by (auto simp: observe_stock_def)

lemma internal_hold_takes:
  assumes "internal v"
  shows "triple (\<lambda>s. stock_inv internal s \<and> db_account s = a) (pt_hold (internal_port v) cmd)
    (\<lambda>r s. stock_inv internal s \<and>
      (if ha_outcome r = H_Held then takes_stock v cmd a (db_account s) else db_account s = a)) (\<lambda>_ _. True)"
proof (rule tripleI)
  fix s r s'
  assume pre: "stock_inv internal s \<and> db_account s = a"
    and run: "pt_hold (internal_port v) cmd s = (Inr r, s')"
  let ?p = "hc_product cmd" and ?q = "hc_quantity cmd"
  from run obtain x where x: "try_hold ?p v ?q s = (Inr x, s')"
    and r: "r = (case x of None \<Rightarrow> hold_out_of_stock | Some _ \<Rightarrow> hold_held None)"
    by (auto simp: internal_port_def prog_simps split: prod.splits sum.splits)
  show "stock_inv internal s' \<and>
      (if ha_outcome r = H_Held then takes_stock v cmd a (db_account s') else db_account s' = a)"
  proof (cases x)
    case None
    with x have "s' = s" by (auto simp: try_hold_def dest: update_offer_cases)
    with pre r None show ?thesis by (simp add: hold_out_of_stock_def)
  next
    case (Some sn)
    with x obtain o1 where o1: "find_offer ?p v (w_db s) = Some o1" "?q \<le> o_on_hand o1 - o_reserved o1"
      "offer_ok (hold_stock ?q o1)" "s' = s\<lparr>w_db := map_offer ?p v (hold_stock ?q) (w_db s)\<rparr>"
      by (auto simp: try_hold_def dest!: update_offer_cases)
    have "is_internal (w_db s) v" using pre assms by (simp add: stock_inv_def)
    then have "takes_stock v cmd a (db_account s')"
      using pre o1 find_offer_Some [OF o1(1)]
      by (auto simp: takes_stock_def db_account_def stock_account_hold find_offer_account
          account_offer_def offer_at_def)
    moreover have "stock_inv internal s'"
      using pre o1 by (auto simp: stock_inv_def intro: offers_ok_map_offer)
    ultimately show ?thesis using r Some by (simp add: hold_held_def)
  qed
qed simp

lemma observe_cases:
  "observe_availability p v attempt s = (Inr x, s') \<Longrightarrow>
     s' = s \<or> (\<exists>n t y. update_offer p v (\<lambda>_. True) (observe_stock n t) s = (Inr y, s'))"
  by (cases "av_outcome attempt"; cases "av_quantity attempt"; cases "fst (update_offer p v (\<lambda>_. True)
      (observe_stock (the (av_quantity attempt)) (av_observed attempt)) s)")
    (auto simp: observe_availability_def prog_simps split: prod.splits if_splits)

interpretation inventory_ports: stock_ports "stock_inv internal" db_account takes_stock
  "honest_port E internal" "\<lambda>v. \<not> internal v" "observe_availability p" cmd for E internal p cmd
proof unfold_locales
  fix port a
  assume "honest_port E internal port"
  then consider v where "internal v" "port = internal_port v" | v st where "\<not> internal v" "port = external_port E v st"
    by (auto simp: honest_port_def)
  then show "triple (\<lambda>s. stock_inv internal s \<and> db_account s = a) (pt_hold port cmd)
    (\<lambda>r s. stock_inv internal s \<and>
      (if ha_outcome r = H_Held then takes_stock (pt_id port) cmd a (db_account s) else db_account s = a))
    (\<lambda>_ _. True)"
  proof cases
    case (1 v)
    have "pt_id port = v" using 1 by (simp add: internal_port_def)
    with 1 show ?thesis by (simp only: internal_hold_takes)
  next
    case (2 v st)
    then have "keeps w_db (pt_hold port cmd)" by (simp add: external_port_def keeps_intros)
    with 2 show ?thesis
      by (intro tripleI)
        (auto simp: stock_inv_def db_account_def takes_stock_def external_port_def dest: keepsD)
  qed
next
  fix port a av
  assume "honest_port E internal port" and av: "pt_availability port = Some av"
  then consider v where "port = internal_port v" | v st where "port = external_port E v st"
    by (auto simp: honest_port_def)
  then have "keeps w_db (av \<lparr>ac_product = hc_product cmd\<rparr>)"
    by cases (use av in \<open>auto simp: internal_port_def external_port_def get_snapshot_def intro!: keeps_intros\<close>)
  then show "triple (\<lambda>s. stock_inv internal s \<and> db_account s = a) (av \<lparr>ac_product = hc_product cmd\<rparr>)
     (\<lambda>_ s. stock_inv internal s \<and> db_account s = a) (\<lambda>_ _. True)"
    by (rule keeps_db_triple)
next
  fix v a attempt
  assume "\<not> internal v"
  show "triple (\<lambda>s. stock_inv internal s \<and> db_account s = a) (observe_availability p v attempt)
     (\<lambda>_ s. stock_inv internal s \<and> db_account s = a) (\<lambda>_ _. True)"
  proof (rule tripleI)
    fix s x s'
    assume pre: "stock_inv internal s \<and> db_account s = a"
      and "observe_availability p v attempt s = (Inr x, s')"
    from observe_cases [OF this(2)]
    consider "s' = s" | n t y where "update_offer p v (\<lambda>_. True) (observe_stock n t) s = (Inr y, s')"
      by blast
    then show "stock_inv internal s' \<and> db_account s' = a"
    proof cases
      case (2 n t y)
      have external: "\<not> is_internal (w_db s) v"
        using pre \<open>\<not> internal v\<close> by (simp add: stock_inv_def)
      from update_offer_cases [OF 2]
      consider "s' = s" | o1 where "find_offer p v (w_db s) = Some o1" "offer_ok (observe_stock n t o1)"
        "s' = s\<lparr>w_db := map_offer p v (observe_stock n t) (w_db s)\<rparr>" by blast
      then show ?thesis
      proof cases
        case (2 o1)
        have "offers_ok (map_offer p v (observe_stock n t) (w_db s))"
          using offers_ok_map_offer [of "w_db s" "observe_stock n t" p v o1] 2(1,2) pre
          by (simp add: stock_inv_def)
        with pre 2(3) external show ?thesis by (simp add: stock_inv_def db_account_def stock_account_observe)
      qed (use pre in simp)
    qed (use pre in simp)
  qed simp
qed

subsection \<open>What a selected hold does\<close>

text \<open>The providers a hold for the selected one may use.\<close>

definition eligible :: "uuid \<Rightarrow> uuid \<Rightarrow> database \<Rightarrow> uuid \<Rightarrow> bool" where
  "eligible p v d u \<longleftrightarrow>
     (\<exists>r\<in>set (offers d). o_product r = p \<and> o_provider r = u \<and>
        in_selected_group v (Option.bind (find_offer p v d) o_group) r) \<and>
     (\<exists>x. find_provider u d = Some x \<and> v_enabled x \<and> v_hold x)"

lemma find_provider_id: "find_provider v d = Some r \<Longrightarrow> v_id r = v"
  unfolding find_provider_def by (drule find_SomeD) simp

lemma set_map_filter: "set (List.map_filter f xs) = {y. \<exists>x\<in>set xs. f x = Some y}"
  by (induction xs) (auto simp: List.map_filter_simps split: option.splits)

lemma routing_candidates_mem:
  "(r, c) \<in> set (routing_candidates p v d) \<Longrightarrow>
     find_provider (v_id r) d = Some r \<and> eligible p v d (v_id r) \<and> c = find_credential (v_id r) d"
proof -
  assume "(r, c) \<in> set (routing_candidates p v d)"
  then obtain row where "row \<in> set (offers d)" "o_product row = p" "find_provider (o_provider row) d = Some r"
    "in_selected_group v (Option.bind (find_offer p v d) o_group) row" "v_enabled r" "v_hold r"
    "c = find_credential (v_id r) d"
    by (auto simp: routing_candidates_def Let_def set_map_filter)
  moreover from this(3) have "o_provider row = v_id r" by (simp add: find_provider_id)
  ultimately show ?thesis by (auto simp: eligible_def)
qed

lemma hold_provider_Inr:
  "hold_provider E r c w = (Inr x, w') \<Longrightarrow> w_db w' = w_db w \<and> (case x of None \<Rightarrow> True
     | Some port \<Rightarrow> pt_id port = v_id r \<and> (\<forall>internal. (internal (v_id r) = (v_kind r = Internal)) \<longrightarrow>
         honest_port E internal port))"
proof -
  assume run: "hold_provider E r c w = (Inr x, w')"
  have "keeps w_db (hold_provider E r c)"
    unfolding hold_provider_def Let_def by (intro keeps_intros)
  with run have "w_db w' = w_db w" by (blast dest: keepsD)
  moreover have "case x of None \<Rightarrow> True
     | Some port \<Rightarrow> pt_id port = v_id r \<and> (\<forall>internal. (internal (v_id r) = (v_kind r = Internal)) \<longrightarrow>
         honest_port E internal port)"
  proof (cases "v_kind r")
    case Internal
    with run have "x = Some (internal_port (v_id r))" by (simp add: hold_provider_def ret_def)
    then show ?thesis using Internal by (simp add: honest_port_def) (auto simp: internal_port_def)
  next
    case External
    with run have "x = None \<or> (\<exists>st. x = Some (external_port E (v_id r) st))"
      by (auto simp: hold_provider_def Let_def prog_simps get_external_def split: if_splits option.splits)
    then show ?thesis using External by (auto simp: honest_port_def) (auto simp: external_port_def)
  qed
  ultimately show ?thesis ..
qed

lemma for_each_Inr:
  assumes "for_each f xs w = (Inr ys, w')"
    and "\<And>x w y w'. x \<in> set xs \<Longrightarrow> f x w = (Inr y, w') \<Longrightarrow> P x y"
  shows "list_all2 P xs ys"
  using assms
proof (induction xs arbitrary: w ys)
  case Nil
  then show ?case by (simp add: ret_def)
next
  case (Cons x xs)
  then obtain y w1 zs where "f x w = (Inr y, w1)" "for_each f xs w1 = (Inr zs, w')" "ys = y # zs"
    by (auto simp: prog_simps split: prod.splits sum.splits)
  with Cons show ?case by auto
qed

lemma configure_Inr:
  assumes run: "configure E candidates w = (Inr configured, w')"
    and "\<forall>(r, c)\<in>set candidates. internal (v_id r) = (v_kind r = Internal)"
  shows "w_db w' = w_db w \<and> (\<forall>(r, port)\<in>set configured. r \<in> fst ` set candidates \<and> pt_id port = v_id r \<and>
    honest_port E internal port)"
proof -
  let ?P = "\<lambda>x port. case port of None \<Rightarrow> True | Some q \<Rightarrow> pt_id q = v_id (fst x) \<and> honest_port E internal q"
  have "keeps w_db (configure E candidates)"
    unfolding configure_def
    by (intro keeps_intros) (auto simp: hold_provider_def Let_def intro!: keeps_intros split: prod.split)
  with run have db: "w_db w' = w_db w" by (blast dest: keepsD)
  from run obtain ports where ports: "for_each (\<lambda>(r, c). hold_provider E r c) candidates w = (Inr ports, w')"
    and configured: "configured = List.map_filter (\<lambda>((r, _), port). map_option (Pair r) port) (zip candidates ports)"
    by (auto simp: configure_def prog_simps split: prod.splits sum.splits)
  from ports have "list_all2 ?P candidates ports"
  proof (rule for_each_Inr)
    fix x w y w'
    assume "x \<in> set candidates" and call: "(case x of (r, c) \<Rightarrow> hold_provider E r c) w = (Inr y, w')"
    with assms(2) have "internal (v_id (fst x)) = (v_kind (fst x) = Internal)" by auto
    moreover from call have "hold_provider E (fst x) (snd x) w = (Inr y, w')" by (simp add: split_beta)
    ultimately show "?P x y" by (auto dest: hold_provider_Inr split: option.splits)
  qed
  then have "\<forall>(x, port)\<in>set (zip candidates ports). x \<in> set candidates \<and> ?P x port"
    by (auto simp: list_all2_iff dest: set_zip_leftD)
  moreover have "\<exists>c. ((r, c), Some port) \<in> set (zip candidates ports)" if "(r, port) \<in> set configured" for r port
    using that by (auto simp: configured set_map_filter)
  ultimately have "r \<in> fst ` set candidates \<and> pt_id port = v_id r \<and> honest_port E internal port"
    if "(r, port) \<in> set configured" for r port
    using that by (force simp: image_iff)
  with db show ?thesis by blast
qed

lemma try_hold_selected_takes:
  "triple (\<lambda>w. stock_inv internal w \<and> w_db w = d) (try_hold_selected E p v q key)
     (\<lambda>r w. stock_inv internal w \<and> (case r of
         None \<Rightarrow> db_account w = stock_account d
       | Some h \<Rightarrow> eligible p v d (ph_provider h) \<and>
           takes_stock (ph_provider h) \<lparr>hc_product = p, hc_quantity = q, hc_key = key\<rparr> (stock_account d) (db_account w)))
     (\<lambda>_ _. True)"
proof (rule tripleI)
  fix w r w'
  assume pre: "stock_inv internal w \<and> w_db w = d" and run: "try_hold_selected E p v q key w = (Inr r, w')"
  let ?cmd = "\<lparr>hc_product = p, hc_quantity = q, hc_key = key\<rparr>"
  let ?candidates = "routing_candidates p v d"
  from run pre obtain configured w1 where conf: "configure E ?candidates w = (Inr configured, w1)"
    and route: "router_hold (checks_availability configured) (observe_availability p) (map snd configured) ?cmd w1
      = (Inr r, w')"
    by (auto simp: try_hold_selected_def prog_simps split: prod.splits sum.splits)
  have kinds: "\<forall>(x, c)\<in>set ?candidates. internal (v_id x) = (v_kind x = Internal)"
    using pre by (auto dest!: routing_candidates_mem simp: stock_inv_def is_internal_def split: option.splits)
  note ports = configure_Inr [OF conf kinds]
  have w1: "stock_inv internal w1 \<and> db_account w1 = stock_account d"
    using pre ports by (auto simp: stock_inv_def db_account_def)
  have honest: "\<forall>port\<in>set (map snd configured). honest_port E internal port \<and>
      (checks_availability configured (pt_id port) \<longrightarrow> \<not> internal (pt_id port))"
  proof
    fix port
    assume "port \<in> set (map snd configured)"
    then have "honest_port E internal port" using ports by auto
    moreover have "\<not> internal (pt_id port)" if checks: "checks_availability configured (pt_id port)"
    proof -
      obtain x y where "(x, y) \<in> set configured" "v_id x = pt_id port" "v_kind x = External"
        using checks by (auto simp: checks_availability_def list_ex_iff)
      then show ?thesis using ports kinds by fastforce
    qed
    ultimately show "honest_port E internal port \<and>
      (checks_availability configured (pt_id port) \<longrightarrow> \<not> internal (pt_id port))" by blast
  qed
  have "inventory_ports.taken internal ?cmd (map snd configured) (stock_account d) r w'"
    using triple_Inr [OF inventory_ports.router_takes_once [OF honest] w1 route] .
  moreover have "eligible p v d u" if "u \<in> pt_id ` set (map snd configured)" for u
    using that ports routing_candidates_mem by fastforce
  ultimately show "stock_inv internal w' \<and> (case r of
         None \<Rightarrow> db_account w' = stock_account d
       | Some h \<Rightarrow> eligible p v d (ph_provider h) \<and>
           takes_stock (ph_provider h) ?cmd (stock_account d) (db_account w'))"
    by (simp add: inventory_ports.taken_def split: option.splits)
qed simp

subsection \<open>Properties\<close>

text \<open>A small shop for evaluating the model: one product at an internal and an external provider.\<close>

definition sample_provider :: "uuid \<Rightarrow> provider_kind \<Rightarrow> provider_row" where
  "sample_provider v k = \<lparr>v_id = v, v_name = uuid_str v, v_kind = k,
     v_driver = (if k = Internal then ''internal'' else ''http''),
     v_base_url = (if k = Internal then None else Some ''http://shop''), v_timeout_ms = 2000,
     v_availability = False, v_hold = True, v_confirm = True, v_release = True, v_enabled = True\<rparr>"

definition sample_offer :: "uuid \<Rightarrow> uuid \<Rightarrow> int \<Rightarrow> int \<Rightarrow> uuid option \<Rightarrow> offer_row" where
  "sample_offer p v on_hand priority routing = \<lparr>o_product = p, o_provider = v, o_on_hand = on_hand,
     o_reserved = 0, o_priority = priority, o_group = routing, o_version = 1, o_observed = None\<rparr>"

definition sample_database :: database where
  "sample_database = empty_database\<lparr>
     products := [\<lparr>p_id = 1, p_sku = ''sku'', p_name = ''thing'', p_active = True\<rparr>],
     providers := [sample_provider 10 Internal, sample_provider 20 External],
     offers := [sample_offer 1 10 5 2 None, sample_offer 1 20 5 1 None]\<rparr>"

lemmas sample_db_simps = sample_database_def sample_provider_def sample_offer_def empty_database_def

lemma sample_offers_ok: "offers_ok sample_database"
  by (simp add: offers_ok_def offer_ok_def offer_checks_def sample_db_simps offer_key_def find_provider_def)

lemma map_offer_twice: "keeps_key f \<Longrightarrow> map_offer p v g (map_offer p v f d) = map_offer p v (g \<circ> f) d"
  by (simp add: map_offer_def update_where_def offer_at_def keeps_key_def)

lemma update_offer_run:
  assumes "find_offer p v (w_db w) = Some r" and "cond r" and "offer_ok (f r)"
  shows "update_offer p v cond f w =
    (Inr (Some (snapshot_of (f r))), w\<lparr>w_db := map_offer p v f (w_db w)\<rparr>)"
proof -
  have "check_constraints (offer_checks (f r)) = Inr ()" using assms(3) by (simp add: check_offer)
  with assms show ?thesis by (simp add: update_offer_def prog_simps)
qed

text \<open>
  A hold succeeds exactly when enough is available, and what it took can always be given back
  or consumed: releasing the same quantity right after returns and restores the row but for its
  version, and confirming it returns and lowers the stock by exactly that quantity, leaving the
  reserved quantity as before the hold.
\<close>

theorem hold_release_confirm_roundtrip:
  assumes "offers_ok (w_db w)" and "0 < q"
  shows "(fst (try_hold p v q w) \<noteq> Inr None \<longleftrightarrow>
      (\<exists>r. find_offer p v (w_db w) = Some r \<and> q \<le> o_on_hand r - o_reserved r)) \<and>
    (\<forall>s w1. try_hold p v q w = (Inr (Some s), w1) \<longrightarrow>
      (\<exists>r. find_offer p v (w_db w) = Some r \<and>
        offers_ok (w_db w1) \<and> find_offer p v (w_db w1) = Some (hold_stock q r) \<and>
        (\<exists>s2. release_hold p v q w1 = (Inr (Some s2),
           w\<lparr>w_db := map_offer p v (\<lambda>x. x\<lparr>o_version := o_version x + 2\<rparr>) (w_db w)\<rparr>)) \<and>
        (\<exists>s3. confirm_hold p v q w1 = (Inr (Some s3),
           w\<lparr>w_db := map_offer p v
              (\<lambda>x. x\<lparr>o_on_hand := o_on_hand x - q, o_version := o_version x + 2\<rparr>) (w_db w)\<rparr>))))"
proof (intro conjI allI impI)
  have ok: "offer_ok r" if "find_offer p v (w_db w) = Some r" for r
    using that assms(1) by (auto simp: offers_ok_def list_all_iff dest: find_offer_Some)
  show "fst (try_hold p v q w) \<noteq> Inr None \<longleftrightarrow>
      (\<exists>r. find_offer p v (w_db w) = Some r \<and> q \<le> o_on_hand r - o_reserved r)"
  proof (intro iffI)
    assume some: "fst (try_hold p v q w) \<noteq> Inr None"
    show "\<exists>r. find_offer p v (w_db w) = Some r \<and> q \<le> o_on_hand r - o_reserved r"
    proof (rule ccontr)
      assume "\<not> ?thesis"
      then have "try_hold p v q w = (Inr None, w)"
        by (auto simp: try_hold_def update_offer_def prog_simps split: option.split)
      with some show False by simp
    qed
  next
    assume "\<exists>r. find_offer p v (w_db w) = Some r \<and> q \<le> o_on_hand r - o_reserved r"
    then show "fst (try_hold p v q w) \<noteq> Inr None"
      using ok assms(2) by (auto simp: try_hold_def update_offer_run offer_ok_hold)
  qed
  fix s w1
  assume "try_hold p v q w = (Inr (Some s), w1)"
  then obtain r where r: "find_offer p v (w_db w) = Some r" "q \<le> o_on_hand r - o_reserved r"
      "offer_ok (hold_stock q r)" and w1: "w1 = w\<lparr>w_db := map_offer p v (hold_stock q) (w_db w)\<rparr>"
    by (auto simp: try_hold_def dest!: update_offer_cases)
  have held: "find_offer p v (w_db w1) = Some (hold_stock q r)"
    by (simp add: w1 find_offer_map_offer r(1))
  have rel: "offer_ok (release_stock q (hold_stock q r))" and
    conf: "offer_ok (confirm_stock q (hold_stock q r))"
    using ok [OF r(1)] r(2) assms(2)
    by (simp_all add: offer_ok_iff hold_stock_def release_stock_def confirm_stock_def)
  have "release_stock q \<circ> hold_stock q = (\<lambda>x. x\<lparr>o_version := o_version x + 2\<rparr>)"
    by (rule ext) (simp add: release_stock_def hold_stock_def)
  moreover have "confirm_stock q \<circ> hold_stock q =
      (\<lambda>x. x\<lparr>o_on_hand := o_on_hand x - q, o_version := o_version x + 2\<rparr>)"
    by (rule ext) (simp add: confirm_stock_def hold_stock_def)
  moreover have "q \<le> o_reserved (hold_stock q r)" "q \<le> o_on_hand (hold_stock q r)"
    using ok [OF r(1)] r(2) by (simp_all add: offer_ok_iff hold_stock_def)
  moreover have "offers_ok (w_db w1)"
    using offers_ok_map_offer [of "w_db w" "hold_stock q" p v r] assms(1) r(1,3) by (simp add: w1)
  ultimately show "\<exists>r. find_offer p v (w_db w) = Some r \<and>
        offers_ok (w_db w1) \<and> find_offer p v (w_db w1) = Some (hold_stock q r) \<and>
        (\<exists>s2. release_hold p v q w1 = (Inr (Some s2),
           w\<lparr>w_db := map_offer p v (\<lambda>x. x\<lparr>o_version := o_version x + 2\<rparr>) (w_db w)\<rparr>)) \<and>
        (\<exists>s3. confirm_hold p v q w1 = (Inr (Some s3),
           w\<lparr>w_db := map_offer p v
              (\<lambda>x. x\<lparr>o_on_hand := o_on_hand x - q, o_version := o_version x + 2\<rparr>) (w_db w)\<rparr>))"
    using r(1) held rel conf
    by (simp add: release_hold_def confirm_hold_def update_offer_run w1 map_offer_twice)
qed

theorem hold_release_confirm_roundtrip_witness:
  "fst (try_hold 1 10 3 (world_of sample_database)) \<noteq> Inr None \<and>
   fst (try_hold 1 10 6 (world_of sample_database)) = Inr None"
  using hold_release_confirm_roundtrip [of "world_of sample_database" 3 1 10]
    hold_release_confirm_roundtrip [of "world_of sample_database" 6 1 10] sample_offers_ok
  by (simp add: world_of_def find_offer_def sample_db_simps)

text \<open>
  C6. A hold for a selected provider never leaves its routing group: it ends with a provider that
  is enabled, can hold, and offers the product, and that is the selected one or, when its offer has
  a group, one of the same group. If that provider is internal exactly the quantity is reserved
  there, within what was available; nothing else in the database changes but the observed stock of
  external providers and row versions. No hold leaves no reservation.
\<close>

theorem selected_hold_reserves_once:
  assumes "offers_ok (w_db w)" and "try_hold_selected E p v q key w = (Inr r, w')"
  shows "offers_ok (w_db w') \<and> (case r of
      None \<Rightarrow> stock_account (w_db w') = stock_account (w_db w)
    | Some h \<Rightarrow> eligible p v (w_db w) (ph_provider h) \<and>
        (if is_internal (w_db w) (ph_provider h) then
           (\<exists>x. find_offer p (ph_provider h) (stock_account (w_db w)) = Some x \<and> q \<le> o_on_hand x - o_reserved x) \<and>
           stock_account (w_db w') = map_offer p (ph_provider h) (reserve q) (stock_account (w_db w))
         else stock_account (w_db w') = stock_account (w_db w)))"
proof -
  have "stock_inv (is_internal (w_db w)) w \<and> w_db w = w_db w"
    using assms(1) by (simp add: stock_inv_def)
  from triple_Inr [OF try_hold_selected_takes this assms(2)] show ?thesis
    by (auto simp: stock_inv_def db_account_def takes_stock_def split: option.splits)
qed

theorem selected_hold_reserves_once_witness:
  "\<exists>w'. try_hold_selected (sample_environment Timed_Out) 1 10 3 ''k'' (world_of sample_database)
     = (Inr (Some \<lparr>ph_provider = 10, ph_reference = None\<rparr>), w') \<and>
     stock_account (w_db w') = map_offer 1 10 (reserve 3) (stock_account sample_database)"
proof -
  let ?w = "world_of sample_database"
  let ?w' = "?w\<lparr>w_db := map_offer 1 10 (hold_stock 3) sample_database\<rparr>"
  have run: "try_hold_selected (sample_environment Timed_Out) 1 10 3 ''k'' ?w
     = (Inr (Some \<lparr>ph_provider = 10, ph_reference = None\<rparr>), ?w')"
  proof -
    have cand: "routing_candidates 1 10 sample_database = [(sample_provider 10 Internal, None)]"
      by (simp add: routing_candidates_def Let_def find_offer_def find_provider_def find_credential_def
          in_selected_group_def sample_db_simps List.map_filter_simps)
    have "try_hold 1 10 3 ?w = (Inr (Some (snapshot_of (hold_stock 3 (sample_offer 1 10 5 2 None)))), ?w')"
      unfolding try_hold_def
      using update_offer_run [of 1 10 ?w "sample_offer 1 10 5 2 None" "\<lambda>r. 3 \<le> o_on_hand r - o_reserved r" "hold_stock 3"]
      by (simp add: world_of_def find_offer_def sample_db_simps hold_stock_def offer_ok_iff)
    then show ?thesis
      by (simp add: try_hold_selected_def prog_simps cand configure_def hold_provider_def
          world_of_def sample_provider_def List.map_filter_simps checks_availability_def
          internal_port_def check_candidate_def hold_held_def)
  qed
  have "is_internal sample_database 10"
    by (simp add: is_internal_def find_provider_def sample_db_simps)
  moreover have "w_db ?w = sample_database" by (simp add: world_of_def)
  ultimately show ?thesis
    using selected_hold_reserves_once [OF _ run] sample_offers_ok run by simp
qed

end
