(* ===== verification/Reservation_Repo.thy ===== *)
theory Reservation_Repo
  imports Inventory_Repo
begin

section \<open>The reservation repository\<close>

text \<open>
  \<open>repository/reservation.py\<close>: creation with holds and compensation, confirmation, release,
  the expiration and reconciliation batches, provider operations with their retry bookkeeping, and
  the mapping between rows and the aggregate. Loops run over the rows their query returned. A
  registry is always configured, as every entry point of the program does.
\<close>

subsection \<open>Context of a provider operation\<close>

record operation_context =
  cx_reservation :: uuid
  cx_retry_unknown :: bool
  cx_max_attempts :: int
  cx_started :: "instant option"
  cx_delay :: "duration option"

definition next_attempt_at :: "operation_context \<Rightarrow> int \<Rightarrow> instant option" where
  "next_attempt_at ctx attempts = (case (cx_started ctx, cx_delay ctx) of
     (Some started, Some delay) \<Rightarrow> Some (started + delay * 2 ^ nat (max 0 (attempts - 2)))
   | _ \<Rightarrow> None)"

definition first_attempt :: "uuid \<Rightarrow> operation_context" where
  "first_attempt rid = \<lparr>cx_reservation = rid, cx_retry_unknown = False, cx_max_attempts = 1,
     cx_started = None, cx_delay = None\<rparr>"

definition retry_attempt :: "uuid \<Rightarrow> int \<Rightarrow> instant \<Rightarrow> duration \<Rightarrow> operation_context" where
  "retry_attempt rid max_attempts now delay = \<lparr>cx_reservation = rid, cx_retry_unknown = True,
     cx_max_attempts = max_attempts, cx_started = Some now, cx_delay = Some delay\<rparr>"

definition operation_key :: "uuid \<Rightarrow> uuid \<Rightarrow> string \<Rightarrow> string" where
  "operation_key rid aid suffix =
     ''reservation:'' @ uuid_str rid @ '':allocation:'' @ uuid_str aid @ '':'' @ suffix"

definition hold_idempotency_key :: "uuid \<Rightarrow> uuid \<Rightarrow> uuid \<Rightarrow> string" where
  "hold_idempotency_key rid product provider =
     ''reservation:'' @ uuid_str rid @ '':product:'' @ uuid_str product @ '':provider:'' @
     uuid_str provider @ '':hold''"

subsection \<open>Row updates\<close>

text \<open>\<open>updated_at\<close> is stamped with the transaction's time when the row changes.\<close>

definition touch :: "instant \<Rightarrow> reservation_row \<Rightarrow> reservation_row \<Rightarrow> reservation_row" where
  "touch now old new = (if new = old then old else new\<lparr>r_updated := now\<rparr>)"

definition map_reservation ::
  "uuid \<Rightarrow> (reservation_row \<Rightarrow> reservation_row) \<Rightarrow> database \<Rightarrow> database" where
  "map_reservation rid f d = d\<lparr>reservations := update_where (\<lambda>r. r_id r = rid) f (reservations d)\<rparr>"

definition update_reservation :: "uuid \<Rightarrow> (reservation_row \<Rightarrow> reservation_row) \<Rightarrow> unit io" where
  "update_reservation rid f =
     andThen (gets w_now) (\<lambda>now. db_write (map_reservation rid (\<lambda>r. touch now r (f r))))"

definition map_allocation ::
  "uuid \<Rightarrow> (allocation_row \<Rightarrow> allocation_row) \<Rightarrow> database \<Rightarrow> database" where
  "map_allocation aid f d = d\<lparr>allocations := update_where (\<lambda>a. al_id a = aid) f (allocations d)\<rparr>"

definition set_allocation_status :: "uuid \<Rightarrow> allocation_status \<Rightarrow> unit io" where
  "set_allocation_status aid st = db_write (map_allocation aid (\<lambda>a. a\<lparr>al_status := st\<rparr>))"

definition map_operation :: "string \<Rightarrow> (operation_row \<Rightarrow> operation_row) \<Rightarrow> database \<Rightarrow> database" where
  "map_operation key f d = d\<lparr>operations := update_where (\<lambda>x. op_key x = key) f (operations d)\<rparr>"

subsection \<open>Provider operations\<close>

text \<open>
  The bookkeeping before the call, the same in \<open>_confirm_external_hold\<close> and
  \<open>_release_external_hold\<close>: \<open>Inl\<close> is an early return (the stored status), \<open>Inr n\<close>
  the number of the attempt about to be made.
\<close>

definition retried_operation :: "operation_row \<Rightarrow> operation_row" where
  "retried_operation x = x\<lparr>op_status := Op_In_Progress, op_attempts := op_attempts x + 1,
     op_next_attempt := None, op_error_code := None, op_error_message := None\<rparr>"

definition new_operation :: "uuid \<Rightarrow> allocation_row \<Rightarrow> operation_type \<Rightarrow> string \<Rightarrow> operation_row" where
  "new_operation oid a ty key = \<lparr>op_id = oid, op_allocation = al_id a, op_type = ty,
     op_status = Op_In_Progress, op_key = key, op_attempts = 1, op_next_attempt = None,
     op_reference = al_reference a, op_error_code = None, op_error_message = None\<rparr>"

definition open_operation ::
  "environment \<Rightarrow> operation_context \<Rightarrow> allocation_row \<Rightarrow> operation_type \<Rightarrow> string \<Rightarrow>
   (operation_status + int) io" where
  "open_operation E ctx a ty key =
     andThen (db_query (find_operation key)) (\<lambda>found. case found of
       Some x \<Rightarrow>
         if op_status x = Op_Succeeded then ret (Inl Op_Succeeded)
         else if op_status x = Op_Unknown \<and>
             (\<not> cx_retry_unknown ctx \<or> cx_max_attempts ctx \<le> op_attempts x)
         then ret (Inl Op_Unknown)
         else andThen (db_write (map_operation key retried_operation)) (\<lambda>_. ret (Inr (op_attempts x + 1)))
     | None \<Rightarrow>
         andThen (fresh_uuid E) (\<lambda>oid.
         andThen (try_write (insert_operation (new_operation oid a ty key))) (\<lambda>_. ret (Inr 1))))"

definition succeed_operation :: "operation_row \<Rightarrow> operation_row" where
  "succeed_operation x = x\<lparr>op_status := Op_Succeeded, op_next_attempt := None\<rparr>"

definition suspend_operation :: "instant option \<Rightarrow> string \<Rightarrow> operation_row \<Rightarrow> operation_row" where
  "suspend_operation at message x = x\<lparr>op_status := Op_Unknown, op_next_attempt := at,
     op_error_code := Some ''unknown_outcome'', op_error_message := Some message\<rparr>"

definition fail_operation :: "string \<Rightarrow> string \<Rightarrow> operation_row \<Rightarrow> operation_row" where
  "fail_operation error message x = x\<lparr>op_status := Op_Failed, op_next_attempt := None,
     op_error_code := Some error, op_error_message := Some message\<rparr>"

definition close_confirm :: "operation_context \<Rightarrow> int \<Rightarrow> confirm_outcome \<Rightarrow> operation_row \<Rightarrow> operation_row" where
  "close_confirm ctx attempts outcome =
     (if outcome = C_Confirmed then succeed_operation
      else if outcome = C_Unknown then suspend_operation (next_attempt_at ctx attempts)
        ''Provider confirmation outcome is unknown.''
      else fail_operation (confirm_outcome_value outcome) ''Provider did not confirm the hold.'')"

definition close_release :: "operation_context \<Rightarrow> int \<Rightarrow> release_outcome \<Rightarrow> operation_row \<Rightarrow> operation_row" where
  "close_release ctx attempts outcome =
     (if outcome = R_Released then succeed_operation
      else if outcome = R_Unknown then suspend_operation (next_attempt_at ctx attempts)
        ''Provider release outcome is unknown.''
      else fail_operation (release_outcome_value outcome) ''Provider did not release the hold.'')"

definition confirm_external_hold ::
  "environment \<Rightarrow> operation_context \<Rightarrow> allocation_row \<Rightarrow> provider_row \<Rightarrow> credential_row option \<Rightarrow>
   confirm_outcome io" where
  "confirm_external_hold E ctx a pr credential =
     (case (v_base_url pr, al_reference a) of
        (Some base_url, Some reference) \<Rightarrow>
          if \<not> v_confirm pr \<or> v_driver pr \<noteq> ''http'' then raise InventoryConfirmationError
          else
            (let key = operation_key (cx_reservation ctx) (al_id a) ''confirm'';
                 st = settings_of pr base_url credential in
             andThen (open_operation E ctx a Op_Confirm key) (\<lambda>opened. case opened of
               Inl stored \<Rightarrow> ret (if stored = Op_Succeeded then C_Confirmed else C_Unknown)
             | Inr attempts \<Rightarrow>
                 andThen (get_external (v_id pr) st) (\<lambda>_.
                 andThen (breaker_confirm E (v_id pr) st \<lparr>cc_reference = reference, cc_key = key\<rparr>) (\<lambda>attempt.
                 andThen (db_write (map_operation key (close_confirm ctx attempts (ca_outcome attempt)))) (\<lambda>_.
                 ret (ca_outcome attempt))))))
      | _ \<Rightarrow> raise InventoryConfirmationError)"

definition release_external_hold ::
  "environment \<Rightarrow> operation_context \<Rightarrow> allocation_row \<Rightarrow> provider_row \<Rightarrow> credential_row option \<Rightarrow>
   release_outcome io" where
  "release_external_hold E ctx a pr credential =
     (case (v_base_url pr, al_reference a) of
        (Some base_url, Some reference) \<Rightarrow>
          if \<not> v_release pr \<or> v_driver pr \<noteq> ''http'' then raise InventoryReleaseError
          else
            (let key = operation_key (cx_reservation ctx) (al_id a) ''release'';
                 st = settings_of pr base_url credential in
             andThen (open_operation E ctx a Op_Release key) (\<lambda>opened. case opened of
               Inl stored \<Rightarrow> ret (if stored = Op_Succeeded then R_Released else R_Unknown)
             | Inr attempts \<Rightarrow>
                 andThen (get_external (v_id pr) st) (\<lambda>_.
                 andThen (breaker_release E (v_id pr) st \<lparr>rc_reference = reference, rc_key = key\<rparr>) (\<lambda>attempt.
                 andThen (db_write (map_operation key (close_release ctx attempts (ra_outcome attempt)))) (\<lambda>_.
                 ret (ra_outcome attempt))))))
      | _ \<Rightarrow> raise InventoryReleaseError)"

subsection \<open>Allocations\<close>

text \<open>The joined row the confirmation and release queries return.\<close>

record allocation_join =
  aj_allocation :: allocation_row
  aj_product :: uuid
  aj_provider :: provider_row
  aj_credential :: "credential_row option"

definition join_allocation :: "uuid \<Rightarrow> database \<Rightarrow> allocation_row \<Rightarrow> allocation_join option" where
  "join_allocation rid d a = (case (find_item (al_item a) d, find_provider (al_provider a) d) of
     (Some i, Some pr) \<Rightarrow>
       if ri_reservation i = rid
       then Some \<lparr>aj_allocation = a, aj_product = ri_product i, aj_provider = pr,
         aj_credential = find_credential (v_id pr) d\<rparr>
       else None
   | _ \<Rightarrow> None)"

definition allocations_of :: "uuid \<Rightarrow> database \<Rightarrow> allocation_join list" where
  "allocations_of rid d = List.map_filter (join_allocation rid d) (allocations d)"

definition confirm_allocation ::
  "environment \<Rightarrow> operation_context \<Rightarrow> allocation_join \<Rightarrow> confirm_outcome io" where
  "confirm_allocation E ctx j =
     (let a = aj_allocation j; pr = aj_provider j in
      if al_status a = A_Confirmed then ret C_Confirmed
      else if v_kind pr = External then confirm_external_hold E ctx a pr (aj_credential j)
      else andThen (confirm_hold (aj_product j) (al_provider a) (al_quantity a)) (\<lambda>confirmed. case confirmed of
         None \<Rightarrow> raise InventoryConfirmationError | Some _ \<Rightarrow> ret C_Confirmed))"

definition release_allocation ::
  "environment \<Rightarrow> operation_context \<Rightarrow> allocation_join \<Rightarrow> release_outcome io" where
  "release_allocation E ctx j =
     (let a = aj_allocation j; pr = aj_provider j in
      if al_status a = A_Released then ret R_Released
      else if v_kind pr = External then release_external_hold E ctx a pr (aj_credential j)
      else andThen (release_hold (aj_product j) (al_provider a) (al_quantity a)) (\<lambda>released. case released of
         None \<Rightarrow> raise InventoryReleaseError | Some _ \<Rightarrow> ret R_Released))"

fun confirmed_status :: "confirm_outcome \<Rightarrow> allocation_status" where
  "confirmed_status C_Confirmed = A_Confirmed"
| "confirmed_status C_Rejected = A_Failed"
| "confirmed_status C_Unknown = A_Unknown"
| "confirmed_status C_Temporarily_Unavailable = A_Held"

fun released_status :: "release_outcome \<Rightarrow> allocation_status" where
  "released_status R_Released = A_Released"
| "released_status R_Unknown = A_Unknown"
| "released_status R_Temporarily_Unavailable = A_Held"

definition confirm_step :: "environment \<Rightarrow> operation_context \<Rightarrow> allocation_join \<Rightarrow> confirm_outcome io" where
  "confirm_step E ctx j =
     andThen (confirm_allocation E ctx j) (\<lambda>outcome.
     andThen (set_allocation_status (al_id (aj_allocation j)) (confirmed_status outcome)) (\<lambda>_. ret outcome))"

definition release_step :: "environment \<Rightarrow> operation_context \<Rightarrow> allocation_join \<Rightarrow> release_outcome io" where
  "release_step E ctx j =
     andThen (release_allocation E ctx j) (\<lambda>outcome.
     andThen (set_allocation_status (al_id (aj_allocation j)) (released_status outcome)) (\<lambda>_. ret outcome))"

subsection \<open>Rows and aggregates\<close>

text \<open>A pure computation over the items of a list, stopping at the first exception.\<close>

fun sum_map :: "('a \<Rightarrow> 'e + 'b) \<Rightarrow> 'a list \<Rightarrow> 'e + 'b list" where
  "sum_map f [] = Inr []"
| "sum_map f (x # xs) = (case f x of Inl e \<Rightarrow> Inl e | Inr y \<Rightarrow>
     (case sum_map f xs of Inl e \<Rightarrow> Inl e | Inr ys \<Rightarrow> Inr (y # ys)))"

definition optional_status :: "('a \<Rightarrow> exn + 'b) \<Rightarrow> 'a option \<Rightarrow> exn + 'b option" where
  "optional_status f x = (case x of None \<Rightarrow> Inr None | Some y \<Rightarrow>
     (case f y of Inl e \<Rightarrow> Inl e | Inr z \<Rightarrow> Inr (Some z)))"

text \<open>\<open>_to_model\<close>; \<open>updated_at\<close> is the server's default, the transaction's time.\<close>

definition to_model :: "instant \<Rightarrow> reservation \<Rightarrow> exn + reservation_row" where
  "to_model now r = (case status_to_model (res_status r) of
     Inl e \<Rightarrow> Inl e
   | Inr st \<Rightarrow> (case optional_status status_to_model (res_target r) of
       Inl e \<Rightarrow> Inl e
     | Inr target \<Rightarrow> Inr \<lparr>r_id = res_id r, r_user = res_user r, r_key = res_key r,
         r_fingerprint = res_fingerprint r, r_status = st, r_expires = res_expires r,
         r_created = res_created r, r_updated = now, r_target = target, r_failure_code = None,
         r_failure_reason = None\<rparr>))"

definition new_item :: "uuid \<Rightarrow> uuid \<Rightarrow> item \<Rightarrow> item_row" where
  "new_item iid rid i = \<lparr>ri_id = iid, ri_reservation = rid, ri_product = it_product i,
     ri_provider = it_provider i, ri_quantity = it_quantity i\<rparr>"

definition items_of :: "uuid \<Rightarrow> database \<Rightarrow> item_row list" where
  "items_of rid d = filter (\<lambda>i. ri_reservation i = rid) (items d)"

definition item_of_row :: "item_row \<Rightarrow> exn + item" where
  "item_of_row i = mk_item (ri_product i) (ri_provider i) (ri_quantity i)"

text \<open>\<open>_to_domain\<close>\<close>

definition to_domain :: "reservation_row \<Rightarrow> database \<Rightarrow> exn + reservation" where
  "to_domain r d = (case sum_map item_of_row (sort_key ri_product (items_of (r_id r) d)) of
     Inl e \<Rightarrow> Inl e
   | Inr its \<Rightarrow> (case status_of_model (r_status r) of
       Inl e \<Rightarrow> Inl e
     | Inr st \<Rightarrow> (case optional_status status_of_model (r_target r) of
         Inl e \<Rightarrow> Inl e
       | Inr target \<Rightarrow> mk_reservation \<lparr>res_id = r_id r, res_user = r_user r, res_items = its,
           res_key = r_key r, res_fingerprint = r_fingerprint r, res_created = r_created r,
           res_expires = r_expires r, res_status = st, res_target = target\<rparr>)))"

definition row_to_domain :: "reservation_row option \<Rightarrow> reservation option io" where
  "row_to_domain row = (case row of
     None \<Rightarrow> ret None
   | Some r \<Rightarrow> andThen (db_query (to_domain r)) (\<lambda>x. andThen (lift_sum x) (\<lambda>y. ret (Some y))))"

definition reload_domain :: "uuid \<Rightarrow> reservation option io" where
  "reload_domain rid = andThen (db_query (find_reservation rid)) row_to_domain"

subsection \<open>Releasing and confirming a reservation\<close>

definition set_target :: "status_model \<Rightarrow> reservation_row \<Rightarrow> reservation_row" where
  "set_target terminal r = r\<lparr>r_target := Some terminal\<rparr>"

definition finish_release :: "bool \<Rightarrow> status_model \<Rightarrow> reservation_row \<Rightarrow> reservation_row" where
  "finish_release pending terminal r =
     (if pending then r\<lparr>r_status := M_Releasing\<rparr> else r\<lparr>r_status := terminal, r_target := None\<rparr>)"

definition release_reservation ::
  "environment \<Rightarrow> uuid \<Rightarrow> status_model \<Rightarrow> operation_context option \<Rightarrow> unit io" where
  "release_reservation E rid terminal ctx =
     andThen (db_query (allocations_of rid)) (\<lambda>joins.
     andThen (update_reservation rid (set_target terminal)) (\<lambda>_.
     andThen (for_each (release_step E (case ctx of None \<Rightarrow> first_attempt rid | Some c \<Rightarrow> c)) joins) (\<lambda>outcomes.
       update_reservation rid
         (finish_release (list_ex (\<lambda>outcome. outcome \<noteq> R_Released) outcomes) terminal))))"

text \<open>\<open>_ensure_order\<close>\<close>

definition insert_line :: "environment \<Rightarrow> uuid \<Rightarrow> item_row \<Rightarrow> unit io" where
  "insert_line E oid i = andThen (fresh_uuid E) (\<lambda>line_id.
     try_write (insert_order_item \<lparr>oi_id = line_id, oi_order = oid,
       oi_product = ri_product i, oi_quantity = ri_quantity i\<rparr>))"

definition ensure_order :: "environment \<Rightarrow> reservation_row \<Rightarrow> unit io" where
  "ensure_order E r =
     andThen (db_query (find_order (r_id r))) (\<lambda>existing. case existing of
       Some _ \<Rightarrow> ret ()
     | None \<Rightarrow>
         andThen (fresh_uuid E) (\<lambda>order_id.
         andThen (try_write (insert_order \<lparr>od_id = order_id, od_reservation = r_id r, od_user = r_user r\<rparr>)) (\<lambda>_.
         andThen (db_query (items_of (r_id r))) (\<lambda>its.
         andThen (for_each (insert_line E order_id) its) (\<lambda>_. ret ())))))"

definition set_status :: "status_model \<Rightarrow> reservation_row \<Rightarrow> reservation_row" where
  "set_status st r = r\<lparr>r_status := st\<rparr>"

definition confirm_result :: "confirm_outcome list \<Rightarrow> status_model" where
  "confirm_result outcomes =
     (if list_ex (\<lambda>outcome. outcome = C_Rejected) outcomes then M_Failed
      else if list_ex (\<lambda>outcome. outcome = C_Unknown \<or> outcome = C_Temporarily_Unavailable) outcomes
      then M_Confirming
      else M_Confirmed)"

definition confirm_reservation ::
  "environment \<Rightarrow> reservation_row \<Rightarrow> operation_context \<Rightarrow> reservation option io" where
  "confirm_reservation E r ctx =
     andThen (db_query (allocations_of (r_id r))) (\<lambda>joins.
     andThen (for_each (confirm_step E ctx) joins) (\<lambda>outcomes.
     andThen (update_reservation (r_id r) (set_status (confirm_result outcomes))) (\<lambda>_.
     andThen (if confirm_result outcomes = M_Confirmed then ensure_order E r else ret ()) (\<lambda>_.
       reload_domain (r_id r)))))"

subsection \<open>The repository's operations\<close>

definition insert_items :: "environment \<Rightarrow> uuid \<Rightarrow> item list \<Rightarrow> item_row list io" where
  "insert_items E rid its = for_each (\<lambda>i.
     andThen (fresh_uuid E) (\<lambda>iid.
     andThen (try_write (insert_item (new_item iid rid i))) (\<lambda>_. ret (new_item iid rid i)))) its"

definition set_failure :: "reservation_row \<Rightarrow> reservation_row" where
  "set_failure r = r\<lparr>r_failure_code := Some ''insufficient_inventory'',
     r_failure_reason := Some ''A later reservation item could not be allocated.''\<rparr>"

definition new_allocation :: "uuid \<Rightarrow> item_row \<Rightarrow> provider_hold \<Rightarrow> string \<Rightarrow> allocation_row" where
  "new_allocation aid i hold key = \<lparr>al_id = aid, al_item = ri_id i, al_provider = ph_provider hold,
     al_quantity = ri_quantity i, al_status = A_Held, al_hold_key = key, al_reference = ph_reference hold\<rparr>"

text \<open>The loop of \<open>add_with_hold\<close>, and its compensation when an item cannot be held.\<close>

primrec hold_items :: "environment \<Rightarrow> uuid \<Rightarrow> item_row list \<Rightarrow> bool io" where
  "hold_items E rid [] = ret True"
| "hold_items E rid (i # rest) =
     (let key = hold_idempotency_key rid (ri_product i) (ri_provider i) in
      andThen (try_hold_selected E (ri_product i) (ri_provider i) (ri_quantity i) key) (\<lambda>hold. case hold of
        None \<Rightarrow>
          andThen (update_reservation rid set_failure) (\<lambda>_.
          andThen (release_reservation E rid M_Failed None) (\<lambda>_. ret False))
      | Some h \<Rightarrow>
          andThen (fresh_uuid E) (\<lambda>aid.
          andThen (try_write (insert_allocation (new_allocation aid i h key))) (\<lambda>_.
            hold_items E rid rest))))"

definition add_with_hold :: "environment \<Rightarrow> reservation \<Rightarrow> bool io" where
  "add_with_hold E r =
     andThen (gets w_now) (\<lambda>now.
     andThen (lift_sum (to_model now r)) (\<lambda>row.
     andThen (try_write (insert_reservation row)) (\<lambda>_.
     andThen (insert_items E (res_id r) (res_items r)) (\<lambda>rows.
       hold_items E (res_id r) rows))))"

definition owned_reservation :: "uuid \<Rightarrow> uuid \<Rightarrow> database \<Rightarrow> reservation_row option" where
  "owned_reservation rid user d = find (\<lambda>r. r_id r = rid \<and> r_user r = user) (reservations d)"

definition repo_confirm :: "environment \<Rightarrow> uuid \<Rightarrow> uuid \<Rightarrow> reservation option io" where
  "repo_confirm E rid user =
     andThen (db_query (owned_reservation rid user)) (\<lambda>row. case row of
       None \<Rightarrow> ret None
     | Some r \<Rightarrow>
         if r_status r = M_Confirmed then
           andThen (ensure_order E r) (\<lambda>_. reload_domain (r_id r))
         else if r_status r = M_Cancelled then raise (ReservationNotConfirmableError rid)
         else confirm_reservation E r (first_attempt (r_id r)))"

definition repo_cancel :: "environment \<Rightarrow> uuid \<Rightarrow> uuid \<Rightarrow> reservation option io" where
  "repo_cancel E rid user =
     andThen (db_query (owned_reservation rid user)) (\<lambda>row. case row of
       None \<Rightarrow> ret None
     | Some r \<Rightarrow>
         if r_status r = M_Cancelled then reload_domain (r_id r)
         else if r_status r = M_Confirmed then raise (ReservationNotCancellableError rid)
         else if r_status r = M_Confirming then raise (ReservationReconciliationRequiredError rid)
         else andThen (release_reservation E (r_id r) M_Cancelled None) (\<lambda>_. reload_domain (r_id r)))"

definition overdue :: "instant \<Rightarrow> reservation_row \<Rightarrow> bool" where
  "overdue now r \<longleftrightarrow> r_status r = M_Pending \<and> r_expires r \<le> now"

definition expired_batch :: "instant \<Rightarrow> int \<Rightarrow> database \<Rightarrow> reservation_row list" where
  "expired_batch now lim d = take (nat lim)
     (sort_key (\<lambda>r. (r_expires r, r_id r)) (filter (overdue now) (reservations d)))"

definition reload_all :: "reservation_row list \<Rightarrow> reservation list io" where
  "reload_all rows = andThen (for_each (\<lambda>r. reload_domain (r_id r)) rows) (\<lambda>xs. ret (List.map_filter id xs))"

definition expire_batch :: "environment \<Rightarrow> instant \<Rightarrow> int \<Rightarrow> reservation list io" where
  "expire_batch E now lim =
     andThen (db_query (expired_batch now lim)) (\<lambda>rows.
     andThen (for_each (\<lambda>r. release_reservation E (r_id r) M_Expired None) rows) (\<lambda>_.
       reload_all rows))"

text \<open>\<open>has_reconcilable_operation\<close>\<close>

definition reconcilable_operation :: "instant \<Rightarrow> int \<Rightarrow> database \<Rightarrow> reservation_row \<Rightarrow> operation_row \<Rightarrow> bool" where
  "reconcilable_operation now max_attempts d r x \<longleftrightarrow>
     list_ex (\<lambda>a. al_id a = op_allocation x \<and>
        (case find_item (al_item a) d of None \<Rightarrow> False | Some i \<Rightarrow> ri_reservation i = r_id r)) (allocations d) \<and>
     op_status x = Op_Unknown \<and> op_attempts x < max_attempts \<and>
     (case op_next_attempt x of None \<Rightarrow> True | Some t \<Rightarrow> t \<le> now) \<and>
     ((r_status r = M_Releasing \<and> op_type x = Op_Release) \<or>
      (r_status r = M_Confirming \<and> op_type x = Op_Confirm))"

definition reconcilable :: "instant \<Rightarrow> int \<Rightarrow> database \<Rightarrow> reservation_row \<Rightarrow> bool" where
  "reconcilable now max_attempts d r \<longleftrightarrow>
     ((r_status r = M_Releasing \<and> (r_target r = Some M_Cancelled \<or> r_target r = Some M_Expired \<or>
          r_target r = Some M_Failed)) \<or> r_status r = M_Confirming) \<and>
     list_ex (reconcilable_operation now max_attempts d r) (operations d)"

definition reconcile_rows :: "instant \<Rightarrow> int \<Rightarrow> int \<Rightarrow> database \<Rightarrow> reservation_row list" where
  "reconcile_rows now lim max_attempts d = take (nat lim)
     (sort_key (\<lambda>r. (r_updated r, r_id r)) (filter (reconcilable now max_attempts d) (reservations d)))"

definition reconcile_one ::
  "environment \<Rightarrow> instant \<Rightarrow> int \<Rightarrow> duration \<Rightarrow> reservation_row \<Rightarrow> unit io" where
  "reconcile_one E now max_attempts delay r =
     (let ctx = retry_attempt (r_id r) max_attempts now delay in
      if r_status r = M_Releasing then
        (case r_target r of
           None \<Rightarrow> ret ()
         | Some terminal \<Rightarrow> release_reservation E (r_id r) terminal (Some ctx))
      else if r_status r = M_Confirming then andThen (confirm_reservation E r ctx) (\<lambda>_. ret ())
      else ret ())"

definition reconcile_batch ::
  "environment \<Rightarrow> instant \<Rightarrow> int \<Rightarrow> int \<Rightarrow> duration \<Rightarrow> reservation list io" where
  "reconcile_batch E now lim max_attempts delay =
     andThen (db_query (reconcile_rows now lim max_attempts)) (\<lambda>rows.
     andThen (for_each (reconcile_one E now max_attempts delay) rows) (\<lambda>_.
       reload_all rows))"

definition repo_get :: "uuid \<Rightarrow> reservation option io" where
  "repo_get rid = reload_domain rid"

definition get_by_idempotency_key :: "uuid \<Rightarrow> string \<Rightarrow> reservation option io" where
  "get_by_idempotency_key user key =
     andThen (db_query (\<lambda>d. find (\<lambda>r. r_user r = user \<and> r_key r = key) (reservations d))) row_to_domain"

end
