(* ===== verification/Stock_Ledger.thy ===== *)
theory Stock_Ledger
  imports Reservation_Repo
begin

section \<open>The stock ledger\<close>

text \<open>
  What ties the offers to the allocations: at an internal provider the reserved quantity of an
  offer is the sum of the quantities of the held allocations of that product there. Every step of
  the confirmation and release loops keeps this balance, and at an internal provider it makes the
  step succeed: what an allocation holds is really there.
\<close>

subsection \<open>The balance\<close>

definition item_product :: "item_row list \<Rightarrow> uuid \<Rightarrow> uuid option" where
  "item_product its i = map_option ri_product (find (\<lambda>x. ri_id x = i) its)"

definition holds_at :: "item_row list \<Rightarrow> uuid \<Rightarrow> uuid \<Rightarrow> allocation_row \<Rightarrow> bool" where
  "holds_at its p v a \<longleftrightarrow> al_status a = A_Held \<and> al_provider a = v \<and> item_product its (al_item a) = Some p"

definition held_quantity :: "item_row list \<Rightarrow> uuid \<Rightarrow> uuid \<Rightarrow> allocation_row \<Rightarrow> int" where
  "held_quantity its p v a = (if holds_at its p v a then al_quantity a else 0)"

definition held_at :: "database \<Rightarrow> uuid \<Rightarrow> uuid \<Rightarrow> int" where
  "held_at d p v = (\<Sum>a\<leftarrow>allocations d. held_quantity (items d) p v a)"

definition reserved_at :: "database \<Rightarrow> uuid \<Rightarrow> uuid \<Rightarrow> int" where
  "reserved_at d p v = (case find_offer p v d of None \<Rightarrow> 0 | Some r \<Rightarrow> o_reserved r)"

definition ledger :: "database \<Rightarrow> bool" where
  "ledger d \<longleftrightarrow> (\<forall>p v. is_internal d v \<longrightarrow> reserved_at d p v = held_at d p v)"

definition keys_ok :: "database \<Rightarrow> bool" where
  "keys_ok d \<longleftrightarrow> distinct (map r_id (reservations d)) \<and> distinct (map ri_id (items d)) \<and>
     distinct (map al_id (allocations d))"

definition rows_ok :: "database \<Rightarrow> bool" where
  "rows_ok d \<longleftrightarrow>
     list_all (\<lambda>i. 0 < ri_quantity i \<and> find_reservation (ri_reservation i) d \<noteq> None) (items d) \<and>
     list_all (\<lambda>a. 0 < al_quantity a \<and> find_item (al_item a) d \<noteq> None \<and>
       find_provider (al_provider a) d \<noteq> None) (allocations d)"

definition balanced :: "database \<Rightarrow> bool" where
  "balanced d \<longleftrightarrow> offers_ok d \<and> keys_ok d \<and> rows_ok d \<and> ledger d"

subsection \<open>What the balance depends on\<close>

lemma table_simps [simp]:
  "find_provider v (d\<lparr>offers := os\<rparr>) = find_provider v d"
  "find_provider v (d\<lparr>operations := xs\<rparr>) = find_provider v d"
  "find_provider v (d\<lparr>allocations := as\<rparr>) = find_provider v d"
  "find_provider v (d\<lparr>reservations := rs\<rparr>) = find_provider v d"
  "find_provider v (d\<lparr>items := is\<rparr>) = find_provider v d"
  "find_provider v (d\<lparr>orders := ods\<rparr>) = find_provider v d"
  "find_provider v (d\<lparr>order_items := ois\<rparr>) = find_provider v d"
  "find_item i (d\<lparr>offers := os\<rparr>) = find_item i d"
  "find_item i (d\<lparr>operations := xs\<rparr>) = find_item i d"
  "find_item i (d\<lparr>allocations := as\<rparr>) = find_item i d"
  "find_item i (d\<lparr>reservations := rs\<rparr>) = find_item i d"
  "find_item i (d\<lparr>orders := ods\<rparr>) = find_item i d"
  "find_item i (d\<lparr>order_items := ois\<rparr>) = find_item i d"
  "find_reservation r (d\<lparr>offers := os\<rparr>) = find_reservation r d"
  "find_reservation r (d\<lparr>operations := xs\<rparr>) = find_reservation r d"
  "find_reservation r (d\<lparr>allocations := as\<rparr>) = find_reservation r d"
  "find_reservation r (d\<lparr>items := is\<rparr>) = find_reservation r d"
  "find_reservation r (d\<lparr>orders := ods\<rparr>) = find_reservation r d"
  "find_reservation r (d\<lparr>order_items := ois\<rparr>) = find_reservation r d"
  "find_offer p v (d\<lparr>operations := xs\<rparr>) = find_offer p v d"
  "find_offer p v (d\<lparr>allocations := as\<rparr>) = find_offer p v d"
  "find_offer p v (d\<lparr>reservations := rs\<rparr>) = find_offer p v d"
  "find_offer p v (d\<lparr>items := is\<rparr>) = find_offer p v d"
  "find_offer p v (d\<lparr>orders := ods\<rparr>) = find_offer p v d"
  "find_offer p v (d\<lparr>order_items := ois\<rparr>) = find_offer p v d"
  by (simp_all add: find_provider_def find_item_def find_reservation_def find_offer_def)

lemma is_internal_simps [simp]:
  "is_internal (d\<lparr>offers := os\<rparr>) v = is_internal d v"
  "is_internal (d\<lparr>operations := xs\<rparr>) v = is_internal d v"
  "is_internal (d\<lparr>allocations := as\<rparr>) v = is_internal d v"
  "is_internal (d\<lparr>reservations := rs\<rparr>) v = is_internal d v"
  "is_internal (d\<lparr>items := is\<rparr>) v = is_internal d v"
  "is_internal (d\<lparr>orders := ods\<rparr>) v = is_internal d v"
  "is_internal (d\<lparr>order_items := ois\<rparr>) v = is_internal d v"
  by (simp_all add: is_internal_def)

lemma item_product_find: "item_product (items d) i = map_option ri_product (find_item i d)"
  by (simp add: item_product_def find_item_def)

lemma balanced_operations [simp]: "balanced (d\<lparr>operations := xs\<rparr>) = balanced d"
  by (simp add: balanced_def offers_ok_def keys_ok_def rows_ok_def ledger_def held_at_def reserved_at_def)

lemma balanced_orders [simp]: "balanced (d\<lparr>orders := ods\<rparr>) = balanced d"
    "balanced (d\<lparr>order_items := ois\<rparr>) = balanced d"
  by (simp_all add: balanced_def offers_ok_def keys_ok_def rows_ok_def ledger_def held_at_def reserved_at_def)

lemma find_reservation_map:
  "(\<And>r. r_id (f r) = r_id r) \<Longrightarrow>
   find_reservation r (map_reservation rid f d) =
     map_option (\<lambda>x. if r = rid then f x else x) (find_reservation r d)"
proof -
  assume f: "\<And>r. r_id (f r) = r_id r"
  have "find_reservation r (map_reservation rid f d) =
      map_option (\<lambda>x. if r_id x = rid then f x else x) (find_reservation r d)"
    unfolding find_reservation_def map_reservation_def by (simp add: find_update_where_same f)
  then show ?thesis
    by (cases "find_reservation r d") (auto simp: find_reservation_def dest: find_SomeD)
qed

lemma balanced_map_reservation:
  "(\<And>r. r_id (f r) = r_id r) \<Longrightarrow> balanced (map_reservation rid f d) = balanced d"
proof -
  assume f: "\<And>r. r_id (f r) = r_id r"
  have "map r_id (reservations (map_reservation rid f d)) = map r_id (reservations d)"
    unfolding map_reservation_def by (simp add: map_update_where f)
  moreover have "(find_reservation r (map_reservation rid f d) = None) = (find_reservation r d = None)" for r
    using f by (simp add: find_reservation_map)
  ultimately show ?thesis
    unfolding balanced_def keys_ok_def rows_ok_def ledger_def held_at_def reserved_at_def offers_ok_def
    by (simp add: map_reservation_def)
qed

subsection \<open>Allocations and their joins\<close>

lemma join_allocation_Some:
  "join_allocation rid d a = Some j \<longleftrightarrow>
     (\<exists>i pr. find_item (al_item a) d = Some i \<and> ri_reservation i = rid \<and>
        find_provider (al_provider a) d = Some pr \<and>
        j = \<lparr>aj_allocation = a, aj_product = ri_product i, aj_provider = pr,
             aj_credential = find_credential (v_id pr) d\<rparr>)"
  by (auto simp: join_allocation_def split: option.splits)

lemma allocations_of_mem:
  "j \<in> set (allocations_of rid d) \<longleftrightarrow> (\<exists>a\<in>set (allocations d). join_allocation rid d a = Some j)"
  by (auto simp: allocations_of_def set_map_filter)

lemma allocations_of_distinct:
  "keys_ok d \<Longrightarrow> distinct (map (\<lambda>j. al_id (aj_allocation j)) (allocations_of rid d))"
proof -
  have "distinct (map al_id as) \<Longrightarrow>
      distinct (map (\<lambda>j. al_id (aj_allocation j)) (List.map_filter (join_allocation rid d) as))" for as
  proof (induction as)
    case (Cons a as)
    then show ?case
      by (auto simp: List.map_filter_simps set_map_filter join_allocation_Some split: option.splits)
  qed (simp add: List.map_filter_simps)
  then show "keys_ok d \<Longrightarrow> ?thesis" by (simp add: keys_ok_def allocations_of_def)
qed

lemma held_quantity_le:
  assumes "rows_ok d" and "a \<in> set (allocations d)" and "holds_at (items d) p v a"
  shows "al_quantity a \<le> held_at d p v"
proof -
  have "held_quantity (items d) p v a \<le> held_at d p v"
    unfolding held_at_def
    by (rule sum_list_member_le)
      (use assms in \<open>auto simp: held_quantity_def rows_ok_def list_all_iff less_imp_le\<close>)
  with assms(3) show ?thesis by (simp add: held_quantity_def)
qed

text \<open>Changing the status of one allocation changes the held quantity by what it held.\<close>

lemma held_at_map_allocation:
  assumes "keys_ok d" and "a \<in> set (allocations d)"
  shows "held_at (map_allocation (al_id a) (\<lambda>x. x\<lparr>al_status := st\<rparr>) d) p v =
    held_at d p v - held_quantity (items d) p v a + held_quantity (items d) p v (a\<lparr>al_status := st\<rparr>)"
  unfolding held_at_def map_allocation_def
  using assms sum_list_update_where [of al_id "allocations d" a "held_quantity (items d) p v"]
  by (simp add: keys_ok_def)

lemma map_allocation_simps [simp]:
  "offers (map_allocation aid f d) = offers d" "items (map_allocation aid f d) = items d"
  "reservations (map_allocation aid f d) = reservations d" "orders (map_allocation aid f d) = orders d"
  "order_items (map_allocation aid f d) = order_items d" "providers (map_allocation aid f d) = providers d"
  "products (map_allocation aid f d) = products d" "credentials (map_allocation aid f d) = credentials d"
  "find_item i (map_allocation aid f d) = find_item i d"
  "find_provider v (map_allocation aid f d) = find_provider v d"
  "find_reservation r (map_allocation aid f d) = find_reservation r d"
  "find_offer p v (map_allocation aid f d) = find_offer p v d"
  "is_internal (map_allocation aid f d) v = is_internal d v"
  by (simp_all add: map_allocation_def)

lemma keys_rows_map_allocation:
  assumes "keys_ok d" "rows_ok d"
  shows "keys_ok (map_allocation aid (\<lambda>x. x\<lparr>al_status := st\<rparr>) d)"
    and "rows_ok (map_allocation aid (\<lambda>x. x\<lparr>al_status := st\<rparr>) d)"
proof -
  have "map al_id (update_where (\<lambda>a. al_id a = aid) (\<lambda>x. x\<lparr>al_status := st\<rparr>) (allocations d)) =
      map al_id (allocations d)" by (rule map_update_where) simp
  with assms(1) show "keys_ok (map_allocation aid (\<lambda>x. x\<lparr>al_status := st\<rparr>) d)"
    by (simp add: keys_ok_def) (simp add: map_allocation_def)
  have "allocations (map_allocation aid (\<lambda>x. x\<lparr>al_status := st\<rparr>) d) =
      update_where (\<lambda>a. al_id a = aid) (\<lambda>x. x\<lparr>al_status := st\<rparr>) (allocations d)"
    by (simp add: map_allocation_def)
  with assms(2) show "rows_ok (map_allocation aid (\<lambda>x. x\<lparr>al_status := st\<rparr>) d)"
    by (auto simp: rows_ok_def list_all_iff set_update_where)
qed

lemma map_offer_simps [simp]:
  "allocations (map_offer p v f d) = allocations d" "items (map_offer p v f d) = items d"
  "reservations (map_offer p v f d) = reservations d"
  "find_item i (map_offer p v f d) = find_item i d"
  "find_provider u (map_offer p v f d) = find_provider u d"
  "find_reservation r (map_offer p v f d) = find_reservation r d"
  by (simp_all add: map_offer_def)

lemma keys_rows_map_offer [simp]:
  "keys_ok (map_offer p v f d) = keys_ok d" "rows_ok (map_offer p v f d) = rows_ok d"
  by (simp_all add: keys_ok_def rows_ok_def)

subsection \<open>One allocation at a time\<close>

text \<open>\<open>set_allocation_status\<close> on the database.\<close>

definition with_status :: "uuid \<Rightarrow> allocation_status \<Rightarrow> database \<Rightarrow> database" where
  "with_status aid st = map_allocation aid (\<lambda>x. x\<lparr>al_status := st\<rparr>)"

lemma reserved_at_map_offer:
  assumes "keeps_key f" and "find_offer p v d = Some r"
  shows "reserved_at (map_offer p v f d) p' v' =
    (if p' = p \<and> v' = v then o_reserved (f r) else reserved_at d p' v')"
  using assms by (auto simp: reserved_at_def find_offer_map_offer split: option.split)

lemma held_at_map_offer [simp]: "held_at (map_offer p v f d) p' v' = held_at d p' v'"
  by (simp add: held_at_def)

lemma held_offer:
  assumes "balanced d" and "a \<in> set (allocations d)" and "is_internal d (al_provider a)"
    and "holds_at (items d) p (al_provider a) a"
  obtains r where "find_offer p (al_provider a) d = Some r" "offer_ok r" "0 < al_quantity a"
    "al_quantity a \<le> o_reserved r" "al_quantity a \<le> o_on_hand r"
proof -
  have rows: "rows_ok d" using assms(1) by (simp add: balanced_def)
  have pos: "0 < al_quantity a" using rows assms(2) by (simp add: rows_ok_def list_all_iff)
  have "reserved_at d p (al_provider a) = held_at d p (al_provider a)"
    using assms(1,3) by (simp add: balanced_def ledger_def)
  moreover have "al_quantity a \<le> held_at d p (al_provider a)"
    by (rule held_quantity_le [OF rows assms(2,4)])
  ultimately have le: "al_quantity a \<le> reserved_at d p (al_provider a)" by simp
  then obtain r where r: "find_offer p (al_provider a) d = Some r" "al_quantity a \<le> o_reserved r"
    using pos by (auto simp: reserved_at_def split: option.splits)
  then have "offer_ok r"
    using assms(1) find_offer_Some [OF r(1)] by (auto simp: balanced_def offers_ok_def list_all_iff)
  with r pos that show ?thesis by (auto simp: offer_ok_iff)
qed

lemma balanced_consume:
  assumes bal: "balanced d" and a: "a \<in> set (allocations d)" and int: "is_internal d (al_provider a)"
    and holds: "holds_at (items d) p (al_provider a) a" and "st \<noteq> A_Held"
    and r: "find_offer p (al_provider a) d = Some r" and ok: "offer_ok (f r)" and key: "keeps_key f"
    and res: "o_reserved (f r) = o_reserved r - al_quantity a"
  shows "balanced (with_status (al_id a) st (map_offer p (al_provider a) f d))"
proof -
  let ?d = "map_offer p (al_provider a) f d"
  have parts: "offers_ok d" "keys_ok d" "rows_ok d" "ledger d" using bal by (simp_all add: balanced_def)
  have "offers_ok ?d" by (rule offers_ok_map_offer) (use parts key r ok in simp_all)
  moreover have "keys_ok (with_status (al_id a) st ?d)" "rows_ok (with_status (al_id a) st ?d)"
    unfolding with_status_def using parts by (simp_all add: keys_rows_map_allocation)
  moreover have "ledger (with_status (al_id a) st ?d)"
    unfolding ledger_def
  proof (intro allI impI)
    fix p' v'
    assume "is_internal (with_status (al_id a) st ?d) v'"
    then have old: "reserved_at d p' v' = held_at d p' v'"
      using parts(4) by (simp add: ledger_def with_status_def)
    have "held_at (with_status (al_id a) st ?d) p' v' =
        held_at d p' v' - held_quantity (items d) p' v' a + held_quantity (items d) p' v' (a\<lparr>al_status := st\<rparr>)"
      unfolding with_status_def using held_at_map_allocation [of ?d a st p' v'] parts(2) a by simp
    moreover have "held_quantity (items d) p' v' (a\<lparr>al_status := st\<rparr>) = 0"
      using \<open>st \<noteq> A_Held\<close> by (simp add: held_quantity_def holds_at_def)
    moreover have "held_quantity (items d) p' v' a = (if p' = p \<and> v' = al_provider a then al_quantity a else 0)"
      using holds by (auto simp: held_quantity_def holds_at_def)
    moreover have "reserved_at (with_status (al_id a) st ?d) p' v' = reserved_at ?d p' v'"
      by (simp add: reserved_at_def with_status_def)
    moreover have "reserved_at d p (al_provider a) = o_reserved r" using r by (simp add: reserved_at_def)
    ultimately show "reserved_at (with_status (al_id a) st ?d) p' v' = held_at (with_status (al_id a) st ?d) p' v'"
      using old res by (auto simp: reserved_at_map_offer [OF key r])
  qed
  ultimately show ?thesis by (simp add: balanced_def offers_ok_def with_status_def)
qed

lemma held_quantity_other:
  "\<not> holds_at its p v a \<Longrightarrow> \<not> holds_at its p v (a\<lparr>al_status := st\<rparr>) \<Longrightarrow>
   held_quantity its p v a = held_quantity its p v (a\<lparr>al_status := st\<rparr>)"
  by (simp add: held_quantity_def)

text \<open>A status change that holds nothing at an internal provider before or after keeps the balance.\<close>

lemma balanced_with_status:
  assumes bal: "balanced d" and a: "a \<in> set (allocations d)"
    and "\<not> is_internal d (al_provider a) \<or> (al_status a \<noteq> A_Held \<and> st \<noteq> A_Held)"
  shows "balanced (with_status (al_id a) st d)"
proof -
  have parts: "offers_ok d" "keys_ok d" "rows_ok d" "ledger d" using bal by (simp_all add: balanced_def)
  have "held_at (with_status (al_id a) st d) p v = held_at d p v" if "is_internal d v" for p v
    unfolding with_status_def held_at_map_allocation [OF parts(2) a]
    using that assms(3) by (auto simp: held_quantity_def holds_at_def)
  with parts show ?thesis
    by (auto simp: balanced_def ledger_def with_status_def keys_rows_map_allocation offers_ok_def reserved_at_def)
qed

subsection \<open>Confirming and releasing one allocation\<close>

text \<open>
  What one iteration does to the database: the allocation gets the status of the outcome, and only
  offers and operations change besides.
\<close>

definition stepped :: "uuid \<Rightarrow> allocation_status \<Rightarrow> database \<Rightarrow> database \<Rightarrow> bool" where
  "stepped aid st d d' \<longleftrightarrow>
     (\<exists>ofs ops. d' = (with_status aid st d)\<lparr>offers := ofs, operations := ops\<rparr>)"

definition joined :: "uuid \<Rightarrow> database \<Rightarrow> allocation_row \<Rightarrow> allocation_join \<Rightarrow> bool" where
  "joined rid d a j \<longleftrightarrow> a \<in> set (allocations d) \<and> join_allocation rid d a = Some j"

lemma joinedD:
  assumes "joined rid d a j"
  shows "aj_allocation j = a" "a \<in> set (allocations d)"
    "item_product (items d) (al_item a) = Some (aj_product j)"
    "find_provider (al_provider a) d = Some (aj_provider j)"
    "v_kind (aj_provider j) = Internal \<longleftrightarrow> is_internal d (al_provider a)"
  using assms by (auto simp: joined_def join_allocation_Some item_product_find is_internal_def)

lemma with_status_offers_operations:
  "with_status aid st (d\<lparr>offers := ofs, operations := ops\<rparr>) = (with_status aid st d)\<lparr>offers := ofs, operations := ops\<rparr>"
  "with_status aid st (map_offer p v f d) = (with_status aid st d)\<lparr>offers := offers (map_offer p v f d), operations := operations d\<rparr>"
  "with_status aid st d = (with_status aid st d)\<lparr>offers := offers d, operations := operations d\<rparr>"
  by (simp_all add: with_status_def map_allocation_def map_offer_def)

lemma set_allocation_status_run:
  "set_allocation_status aid st w = (Inr (), w\<lparr>w_db := with_status aid st (w_db w)\<rparr>)"
  by (simp add: set_allocation_status_def db_write_def with_status_def)

lemma confirm_step_internal:
  assumes bal: "balanced (w_db w)" and j: "joined rid (w_db w) a j"
    and int: "v_kind (aj_provider j) = Internal" and st: "al_status a = A_Held \<or> al_status a = A_Confirmed"
  shows "\<exists>w'. confirm_step E ctx j w = (Inr C_Confirmed, w') \<and> balanced (w_db w') \<and>
    stepped (al_id a) A_Confirmed (w_db w) (w_db w')"
proof (cases "al_status a = A_Confirmed")
  case True
  then have "confirm_step E ctx j w = (Inr C_Confirmed, w\<lparr>w_db := with_status (al_id a) A_Confirmed (w_db w)\<rparr>)"
    using joinedD [OF j] by (simp add: confirm_step_def confirm_allocation_def Let_def prog_simps set_allocation_status_run)
  moreover have "balanced (with_status (al_id a) A_Confirmed (w_db w))"
    by (rule balanced_with_status) (use bal joinedD [OF j] True in simp_all)
  moreover have "stepped (al_id a) A_Confirmed (w_db w) (with_status (al_id a) A_Confirmed (w_db w))"
    unfolding stepped_def using with_status_offers_operations(3) by blast
  ultimately show ?thesis by auto
next
  case False
  let ?d = "w_db w" and ?q = "al_quantity a" and ?p = "aj_product j"
  have "holds_at (items ?d) ?p (al_provider a) a" and internal: "is_internal ?d (al_provider a)"
    using joinedD [OF j] st False int by (simp_all add: holds_at_def)
  from held_offer [OF bal joinedD(2) [OF j] internal this(1)] obtain r where
    r: "find_offer ?p (al_provider a) ?d = Some r" "offer_ok r" "0 < ?q" "?q \<le> o_reserved r" "?q \<le> o_on_hand r" .
  have ok: "offer_ok (confirm_stock ?q r)" using r by (simp add: offer_ok_iff confirm_stock_def)
  let ?d' = "map_offer ?p (al_provider a) (confirm_stock ?q) ?d"
  have "confirm_step E ctx j w = (Inr C_Confirmed, w\<lparr>w_db := with_status (al_id a) A_Confirmed ?d'\<rparr>)"
    using joinedD(1) [OF j] False int r ok
    by (simp add: confirm_step_def confirm_allocation_def Let_def confirm_hold_def andThen_def ret_def
        update_offer_run set_allocation_status_run)
  moreover have "balanced (with_status (al_id a) A_Confirmed ?d')"
    using balanced_consume [where f = "confirm_stock ?q" and st = A_Confirmed, OF bal joinedD(2) [OF j] internal _ _ r(1) ok]
      \<open>holds_at (items ?d) ?p (al_provider a) a\<close> by (simp add: confirm_stock_def)
  moreover have "stepped (al_id a) A_Confirmed ?d (with_status (al_id a) A_Confirmed ?d')"
    unfolding stepped_def using with_status_offers_operations(2) by blast
  ultimately show ?thesis by auto
qed

lemma release_step_internal:
  assumes bal: "balanced (w_db w)" and j: "joined rid (w_db w) a j"
    and int: "v_kind (aj_provider j) = Internal" and st: "al_status a = A_Held \<or> al_status a = A_Released"
  shows "\<exists>w'. release_step E ctx j w = (Inr R_Released, w') \<and> balanced (w_db w') \<and>
    stepped (al_id a) A_Released (w_db w) (w_db w')"
proof (cases "al_status a = A_Released")
  case True
  then have "release_step E ctx j w = (Inr R_Released, w\<lparr>w_db := with_status (al_id a) A_Released (w_db w)\<rparr>)"
    using joinedD [OF j] by (simp add: release_step_def release_allocation_def Let_def prog_simps set_allocation_status_run)
  moreover have "balanced (with_status (al_id a) A_Released (w_db w))"
    by (rule balanced_with_status) (use bal joinedD [OF j] True in simp_all)
  moreover have "stepped (al_id a) A_Released (w_db w) (with_status (al_id a) A_Released (w_db w))"
    unfolding stepped_def using with_status_offers_operations(3) by blast
  ultimately show ?thesis by auto
next
  case False
  let ?d = "w_db w" and ?q = "al_quantity a" and ?p = "aj_product j"
  have "holds_at (items ?d) ?p (al_provider a) a" and internal: "is_internal ?d (al_provider a)"
    using joinedD [OF j] st False int by (simp_all add: holds_at_def)
  from held_offer [OF bal joinedD(2) [OF j] internal this(1)] obtain r where
    r: "find_offer ?p (al_provider a) ?d = Some r" "offer_ok r" "0 < ?q" "?q \<le> o_reserved r" "?q \<le> o_on_hand r" .
  have ok: "offer_ok (release_stock ?q r)" using r by (simp add: offer_ok_iff release_stock_def)
  let ?d' = "map_offer ?p (al_provider a) (release_stock ?q) ?d"
  have "release_step E ctx j w = (Inr R_Released, w\<lparr>w_db := with_status (al_id a) A_Released ?d'\<rparr>)"
    using joinedD(1) [OF j] False int r ok
    by (simp add: release_step_def release_allocation_def Let_def release_hold_def andThen_def ret_def
        update_offer_run set_allocation_status_run)
  moreover have "balanced (with_status (al_id a) A_Released ?d')"
    using balanced_consume [where f = "release_stock ?q" and st = A_Released, OF bal joinedD(2) [OF j] internal _ _ r(1) ok]
      \<open>holds_at (items ?d) ?p (al_provider a) a\<close> by (simp add: release_stock_def)
  moreover have "stepped (al_id a) A_Released ?d (with_status (al_id a) A_Released ?d')"
    unfolding stepped_def using with_status_offers_operations(2) by blast
  ultimately show ?thesis by auto
qed

text \<open>External holds change operations only, never a table the balance reads.\<close>

definition no_operations :: "world \<Rightarrow> database" where
  "no_operations w = (w_db w)\<lparr>operations := []\<rparr>"

lemma keeps_no_operations: "keeps w_db m \<Longrightarrow> keeps no_operations m"
  unfolding no_operations_def by (rule keeps_comp)

lemma keeps_map_operation [keeps_intros]: "keeps no_operations (db_write (map_operation k f))"
  by (rule keepsI) (auto simp: no_operations_def map_operation_def prog_simps)

lemma keeps_insert_operation [keeps_intros]: "keeps no_operations (try_write (insert_operation r))"
  by (rule keepsI) (auto simp: no_operations_def prog_simps split: sum.splits dest: insert_operation_Inr)

lemma keeps_open_operation [keeps_intros]: "keeps no_operations (open_operation E ctx a ty key)"
  unfolding open_operation_def by (intro keeps_intros keeps_no_operations)

lemma keeps_external_holds [keeps_intros]:
  "keeps no_operations (confirm_external_hold E ctx a pr c)"
  "keeps no_operations (release_external_hold E ctx a pr c)"
  unfolding confirm_external_hold_def release_external_hold_def Let_def
  by (intro keeps_intros keeps_no_operations)+

lemma no_operations_eq: "no_operations w' = no_operations w \<Longrightarrow> \<exists>ops. w_db w' = (w_db w)\<lparr>operations := ops\<rparr>"
proof -
  assume eq: "no_operations w' = no_operations w"
  have "w_db w' = (no_operations w')\<lparr>operations := operations (w_db w')\<rparr>"
    by (simp add: no_operations_def)
  also have "\<dots> = (w_db w)\<lparr>operations := operations (w_db w')\<rparr>"
    unfolding eq by (simp add: no_operations_def)
  finally show ?thesis ..
qed

lemma stepped_after_operations:
  assumes "w_db w' = (w_db w)\<lparr>operations := ops\<rparr>" and bal: "balanced (w_db w)" and j: "joined rid (w_db w) a j"
    and ext: "v_kind (aj_provider j) \<noteq> Internal"
  shows "balanced (with_status (al_id a) st (w_db w')) \<and> stepped (al_id a) st (w_db w) (with_status (al_id a) st (w_db w'))"
proof
  show "balanced (with_status (al_id a) st (w_db w'))"
    by (rule balanced_with_status) (use assms(1) bal joinedD [OF j] ext in simp_all)
  have "w_db w' = (w_db w)\<lparr>offers := offers (w_db w), operations := ops\<rparr>" by (simp add: assms(1))
  then show "stepped (al_id a) st (w_db w) (with_status (al_id a) st (w_db w'))"
    unfolding stepped_def using with_status_offers_operations(1) by metis
qed

lemma confirm_step_external:
  assumes "balanced (w_db w)" and "joined rid (w_db w) a j" and ext: "v_kind (aj_provider j) \<noteq> Internal"
    and run: "confirm_step E ctx j w = (Inr outcome, w')"
  shows "balanced (w_db w') \<and> stepped (al_id a) (confirmed_status outcome) (w_db w) (w_db w')"
proof -
  from run joinedD(1) [OF assms(2)] obtain w1 where call: "confirm_allocation E ctx j w = (Inr outcome, w1)"
    and w': "w_db w' = with_status (al_id a) (confirmed_status outcome) (w_db w1)"
    by (auto simp: confirm_step_def andThen_def ret_def set_allocation_status_run split: prod.splits sum.splits)
  have "keeps no_operations (confirm_allocation E ctx j)"
    using ext unfolding confirm_allocation_def Let_def by (intro keeps_intros) (cases "v_kind (aj_provider j)"; simp)
  with call obtain ops where "w_db w1 = (w_db w)\<lparr>operations := ops\<rparr>" by (blast dest: keepsD no_operations_eq)
  from stepped_after_operations [OF this assms(1,2) ext] show ?thesis unfolding w' .
qed

lemma release_step_external:
  assumes "balanced (w_db w)" and "joined rid (w_db w) a j" and ext: "v_kind (aj_provider j) \<noteq> Internal"
    and run: "release_step E ctx j w = (Inr outcome, w')"
  shows "balanced (w_db w') \<and> stepped (al_id a) (released_status outcome) (w_db w) (w_db w')"
proof -
  from run joinedD(1) [OF assms(2)] obtain w1 where call: "release_allocation E ctx j w = (Inr outcome, w1)"
    and w': "w_db w' = with_status (al_id a) (released_status outcome) (w_db w1)"
    by (auto simp: release_step_def andThen_def ret_def set_allocation_status_run split: prod.splits sum.splits)
  have "keeps no_operations (release_allocation E ctx j)"
    using ext unfolding release_allocation_def Let_def by (intro keeps_intros) (cases "v_kind (aj_provider j)"; simp)
  with call obtain ops where "w_db w1 = (w_db w)\<lparr>operations := ops\<rparr>" by (blast dest: keepsD no_operations_eq)
  from stepped_after_operations [OF this assms(1,2) ext] show ?thesis unfolding w' .
qed

subsection \<open>The loops over a reservation's allocations\<close>

definition restatus :: "(uuid \<Rightarrow> allocation_status option) \<Rightarrow> allocation_row list \<Rightarrow> allocation_row list" where
  "restatus m = map (\<lambda>a. a\<lparr>al_status := (case m (al_id a) of None \<Rightarrow> al_status a | Some st \<Rightarrow> st)\<rparr>)"

definition aj_id :: "allocation_join \<Rightarrow> uuid" where
  "aj_id j = al_id (aj_allocation j)"

lemma restatus_step:
  "m aid = None \<Longrightarrow> restatus m (update_where (\<lambda>a. al_id a = aid) (\<lambda>a. a\<lparr>al_status := st\<rparr>) as) =
     restatus (m(aid \<mapsto> st)) as"
  by (induction as) (auto simp: restatus_def)

lemma joined_stepped:
  "joined rid d a j \<Longrightarrow> stepped aid st d d' \<Longrightarrow> aid \<noteq> al_id a \<Longrightarrow> joined rid d' a j"
  by (auto simp: joined_def stepped_def with_status_def map_allocation_def set_update_where
      join_allocation_def find_credential_def split: option.splits)

text \<open>
  The contract confirmation and release share: an iteration keeps the balance, sets the status of
  its own allocation only, and at an internal provider always returns the one good outcome.
\<close>

locale allocation_loop =
  fixes iteration :: "allocation_join \<Rightarrow> 'o io"
    and status_of :: "'o \<Rightarrow> allocation_status"
    and fit :: "allocation_status \<Rightarrow> bool"
    and good :: 'o
    and rid :: uuid
  assumes iteration_balanced: "balanced (w_db w) \<Longrightarrow> joined rid (w_db w) a j \<Longrightarrow>
      (v_kind (aj_provider j) = Internal \<Longrightarrow> fit (al_status a)) \<Longrightarrow> iteration j w = (Inr outcome, w') \<Longrightarrow>
      balanced (w_db w') \<and> stepped (al_id a) (status_of outcome) (w_db w) (w_db w') \<and>
      (v_kind (aj_provider j) = Internal \<longrightarrow> outcome = good)"
    and iteration_total: "balanced (w_db w) \<Longrightarrow> joined rid (w_db w) a j \<Longrightarrow>
      v_kind (aj_provider j) = Internal \<Longrightarrow> fit (al_status a) \<Longrightarrow> \<exists>w'. iteration j w = (Inr good, w')"
begin

definition ready :: "allocation_join list \<Rightarrow> database \<Rightarrow> bool" where
  "ready js d \<longleftrightarrow> balanced d \<and> distinct (map aj_id js) \<and> (\<forall>j\<in>set js. joined rid d (aj_allocation j) j \<and>
     (v_kind (aj_provider j) = Internal \<longrightarrow> fit (al_status (aj_allocation j))))"

lemma ready_step:
  assumes "ready (j # js) (w_db w)" and "iteration j w = (Inr outcome, w')"
  shows "ready js (w_db w') \<and> stepped (aj_id j) (status_of outcome) (w_db w) (w_db w') \<and>
    (v_kind (aj_provider j) = Internal \<longrightarrow> outcome = good)"
proof -
  have step: "balanced (w_db w') \<and> stepped (aj_id j) (status_of outcome) (w_db w) (w_db w') \<and>
    (v_kind (aj_provider j) = Internal \<longrightarrow> outcome = good)"
    using iteration_balanced [of w "aj_allocation j" j outcome w'] assms by (simp add: ready_def aj_id_def)
  have "joined rid (w_db w') (aj_allocation k) k" if "k \<in> set js" for k
  proof (rule joined_stepped)
    show "joined rid (w_db w) (aj_allocation k) k" using assms(1) that by (simp add: ready_def)
    show "stepped (aj_id j) (status_of outcome) (w_db w) (w_db w')" using step by simp
    show "aj_id j \<noteq> al_id (aj_allocation k)" using assms(1) that by (auto simp: ready_def aj_id_def)
  qed
  with step assms(1) show ?thesis by (simp add: ready_def)
qed

lemma loop:
  "ready js (w_db w) \<Longrightarrow> for_each iteration js w = (Inr os, w') \<Longrightarrow>
   balanced (w_db w') \<and> list_all2 (\<lambda>j oc. v_kind (aj_provider j) = Internal \<longrightarrow> oc = good) js os \<and>
   (\<exists>ofs ops. w_db w' = (w_db w)\<lparr>allocations :=
      restatus (map_of (zip (map aj_id js) (map status_of os))) (allocations (w_db w)),
      offers := ofs, operations := ops\<rparr>)"
proof (induction js arbitrary: w os)
  case Nil
  then have "os = []" "w' = w" by (simp_all add: ret_def)
  moreover have "\<exists>ofs ops. w_db w = (w_db w)\<lparr>allocations := restatus Map.empty (allocations (w_db w)),
      offers := ofs, operations := ops\<rparr>"
    by (rule exI [of _ "offers (w_db w)"], rule exI [of _ "operations (w_db w)"]) (simp add: restatus_def)
  ultimately show ?case using Nil.prems by (simp add: ready_def)
next
  case (Cons j js)
  from Cons.prems(2) obtain x w1 ys where it: "iteration j w = (Inr x, w1)"
    and rest: "for_each iteration js w1 = (Inr ys, w')" and os: "os = x # ys"
    by (auto simp: prog_simps split: prod.splits sum.splits)
  note step = ready_step [OF Cons.prems(1) it]
  from Cons.IH [OF _ rest] step obtain ofs ops where
    rec: "balanced (w_db w')" "list_all2 (\<lambda>j oc. v_kind (aj_provider j) = Internal \<longrightarrow> oc = good) js ys"
      "w_db w' = (w_db w1)\<lparr>allocations :=
         restatus (map_of (zip (map aj_id js) (map status_of ys))) (allocations (w_db w1)),
         offers := ofs, operations := ops\<rparr>" by blast
  from step obtain ofs1 ops1 where
    w1: "w_db w1 = (with_status (aj_id j) (status_of x) (w_db w))\<lparr>offers := ofs1, operations := ops1\<rparr>"
    by (auto simp: stepped_def)
  have "aj_id j \<notin> set (map aj_id js)" using Cons.prems(1) by (simp add: ready_def)
  then have "map_of (zip (map aj_id js) (map status_of ys)) (aj_id j) = None"
    by (auto simp: map_of_eq_None_iff dest: set_zip_leftD)
  then have "restatus (map_of (zip (map aj_id js) (map status_of ys))) (allocations (w_db w1)) =
      restatus (map_of (zip (map aj_id (j # js)) (map status_of os))) (allocations (w_db w))"
    by (simp add: w1 with_status_def map_allocation_def restatus_step os)
  then have "w_db w' = (w_db w)\<lparr>allocations :=
      restatus (map_of (zip (map aj_id (j # js)) (map status_of os))) (allocations (w_db w)),
      offers := ofs, operations := ops\<rparr>"
    by (simp add: rec(3) w1 with_status_def map_allocation_def)
  moreover have "list_all2 (\<lambda>j oc. v_kind (aj_provider j) = Internal \<longrightarrow> oc = good) (j # js) os"
    using rec(2) step by (simp add: os)
  ultimately show ?case using rec(1) by blast
qed

text \<open>
  A loop none of whose iterations can fail: each is able to go through when its turn comes, does not
  take that from the others, and keeps what \<open>f\<close> reads.
\<close>

lemma loop_able:
  assumes able: "\<And>j w. able j w \<Longrightarrow> balanced (w_db w) \<Longrightarrow> joined rid (w_db w) (aj_allocation j) j \<Longrightarrow>
      (v_kind (aj_provider j) = Internal \<Longrightarrow> fit (al_status (aj_allocation j))) \<Longrightarrow>
      \<exists>w'. iteration j w = (Inr good, w') \<and> f w' = f w \<and> (\<forall>k. aj_id k \<noteq> aj_id j \<longrightarrow> able k w \<longrightarrow> able k w')"
  shows "ready js (w_db w) \<Longrightarrow> \<forall>j\<in>set js. able j w \<Longrightarrow>
    \<exists>w'. for_each iteration js w = (Inr (map (\<lambda>_. good) js), w') \<and> f w' = f w"
proof (induction js arbitrary: w)
  case Nil
  show ?case by (simp add: ret_def)
next
  case (Cons j js)
  then obtain w1 where it: "iteration j w = (Inr good, w1)" and f: "f w1 = f w"
    and others: "\<forall>k. aj_id k \<noteq> aj_id j \<longrightarrow> able k w \<longrightarrow> able k w1"
    using able [of j w] by (auto simp: ready_def)
  have "aj_id j \<notin> aj_id ` set js" using Cons.prems(1) by (simp add: ready_def)
  then have "\<forall>k\<in>set js. able k w1" using others Cons.prems(2) by (metis imageI list.set_intros(2))
  with ready_step [OF Cons.prems(1) it] Cons.IH [of w1] f
  obtain w' where "for_each iteration js w1 = (Inr (map (\<lambda>_. good) js), w')" "f w' = f w" by auto
  with it show ?case by (simp add: prog_simps)
qed

lemma loop_total:
  "ready js (w_db w) \<Longrightarrow> \<forall>j\<in>set js. v_kind (aj_provider j) = Internal \<Longrightarrow>
   \<exists>w'. for_each iteration js w = (Inr (map (\<lambda>_. good) js), w')"
  using loop_able [where able = "\<lambda>j w. v_kind (aj_provider j) = Internal" and f = "\<lambda>_. ()"] iteration_total by simp

end

definition confirmable :: "allocation_status \<Rightarrow> bool" where
  "confirmable st \<longleftrightarrow> st = A_Held \<or> st = A_Confirmed"

definition releasable :: "allocation_status \<Rightarrow> bool" where
  "releasable st \<longleftrightarrow> st = A_Held \<or> st = A_Released"

interpretation confirm_loop: allocation_loop "confirm_step E ctx" confirmed_status confirmable C_Confirmed rid
  for E ctx rid
proof unfold_locales
  fix w w' :: world and a j outcome
  assume bal: "balanced (w_db w)" and j: "joined rid (w_db w) a j"
    and fit: "v_kind (aj_provider j) = Internal \<Longrightarrow> confirmable (al_status a)"
    and run: "confirm_step E ctx j w = (Inr outcome, w')"
  show "balanced (w_db w') \<and> stepped (al_id a) (confirmed_status outcome) (w_db w) (w_db w') \<and>
      (v_kind (aj_provider j) = Internal \<longrightarrow> outcome = C_Confirmed)"
  proof (cases "v_kind (aj_provider j) = Internal")
    case True
    with confirm_step_internal [OF bal j True, of E ctx] fit run show ?thesis by (auto simp: confirmable_def)
  next
    case False
    with confirm_step_external [OF bal j False run] show ?thesis by simp
  qed
next
  fix w :: world and a j
  assume "balanced (w_db w)" "joined rid (w_db w) a j" "v_kind (aj_provider j) = Internal" "confirmable (al_status a)"
  then show "\<exists>w'. confirm_step E ctx j w = (Inr C_Confirmed, w')"
    unfolding confirmable_def using confirm_step_internal by blast
qed

interpretation release_loop: allocation_loop "release_step E ctx" released_status releasable R_Released rid
  for E ctx rid
proof unfold_locales
  fix w w' :: world and a j outcome
  assume bal: "balanced (w_db w)" and j: "joined rid (w_db w) a j"
    and fit: "v_kind (aj_provider j) = Internal \<Longrightarrow> releasable (al_status a)"
    and run: "release_step E ctx j w = (Inr outcome, w')"
  show "balanced (w_db w') \<and> stepped (al_id a) (released_status outcome) (w_db w) (w_db w') \<and>
      (v_kind (aj_provider j) = Internal \<longrightarrow> outcome = R_Released)"
  proof (cases "v_kind (aj_provider j) = Internal")
    case True
    with release_step_internal [OF bal j True, of E ctx] fit run show ?thesis by (auto simp: releasable_def)
  next
    case False
    with release_step_external [OF bal j False run] show ?thesis by simp
  qed
next
  fix w :: world and a j
  assume "balanced (w_db w)" "joined rid (w_db w) a j" "v_kind (aj_provider j) = Internal" "releasable (al_status a)"
  then show "\<exists>w'. release_step E ctx j w = (Inr R_Released, w')"
    unfolding releasable_def using release_step_internal by blast
qed

end
