(* ===== verification/Shop_Invariant.thy ===== *)
theory Shop_Invariant
  imports Stock_Ledger
begin

section \<open>The invariant of the database and the operations that keep it\<close>

text \<open>
  \<open>shop_inv\<close> joins the stock ledger with what relates a reservation's status to its
  allocations, rows and order. This theory shows that confirming, releasing and creating keep it,
  from the statuses the workflow provides for; the theory of the root states which statuses the
  code also lets through.
\<close>

subsection \<open>Statuses, rows and orders\<close>

text \<open>The status of an allocation at an internal provider, by the status of its reservation.\<close>

fun settled_in :: "status_model \<Rightarrow> allocation_status \<Rightarrow> bool" where
  "settled_in M_Pending st = (st = A_Held)"
| "settled_in M_Confirming st = (st = A_Confirmed)"
| "settled_in M_Confirmed st = (st = A_Confirmed)"
| "settled_in M_Releasing st = (st = A_Released)"
| "settled_in M_Cancelled st = (st = A_Released)"
| "settled_in M_Expired st = (st = A_Released)"
| "settled_in M_Failed st = (st = A_Confirmed \<or> st = A_Released)"
| "settled_in M_Reserving st = False"
| "settled_in M_Active st = False"

text \<open>At any provider, a confirmed or a given up reservation has no allocation left open.\<close>

fun closed_in :: "status_model \<Rightarrow> allocation_status \<Rightarrow> bool" where
  "closed_in M_Confirmed st = (st = A_Confirmed)"
| "closed_in M_Cancelled st = (st = A_Released)"
| "closed_in M_Expired st = (st = A_Released)"
| "closed_in _ st = True"

definition belongs :: "database \<Rightarrow> uuid \<Rightarrow> allocation_row \<Rightarrow> bool" where
  "belongs d rid a \<longleftrightarrow> (\<exists>i. find_item (al_item a) d = Some i \<and> ri_reservation i = rid)"

definition settled :: "database \<Rightarrow> uuid \<Rightarrow> status_model \<Rightarrow> bool" where
  "settled d rid st \<longleftrightarrow> (\<forall>a\<in>set (allocations d). belongs d rid a \<longrightarrow> closed_in st (al_status a) \<and>
     (is_internal d (al_provider a) \<longrightarrow> settled_in st (al_status a)))"

definition coherent :: "database \<Rightarrow> bool" where
  "coherent d \<longleftrightarrow> (\<forall>r\<in>set (reservations d). settled d (r_id r) (r_status r))"

text \<open>A reservation has a release target exactly while a release of it is under way.\<close>

definition status_ok :: "reservation_row \<Rightarrow> bool" where
  "status_ok r \<longleftrightarrow> r_status r \<noteq> M_Reserving \<and> r_status r \<noteq> M_Active \<and>
     r_target r \<in> (if r_status r = M_Releasing then {Some M_Cancelled, Some M_Expired, Some M_Failed} else {None})"

definition row_ok :: "database \<Rightarrow> reservation_row \<Rightarrow> bool" where
  "row_ok d r \<longleftrightarrow> status_ok r \<and> r_created r < r_expires r \<and> items_of (r_id r) d \<noteq> [] \<and>
     distinct (map ri_product (items_of (r_id r) d))"

definition item_lines :: "uuid \<Rightarrow> database \<Rightarrow> (uuid \<times> int) list" where
  "item_lines rid d = map (\<lambda>i. (ri_product i, ri_quantity i)) (items_of rid d)"

definition order_lines :: "uuid \<Rightarrow> database \<Rightarrow> (uuid \<times> int) list" where
  "order_lines oid d = map (\<lambda>l. (oi_product l, oi_quantity l)) (filter (\<lambda>l. oi_order l = oid) (order_items d))"

definition order_ok :: "database \<Rightarrow> order_row \<Rightarrow> bool" where
  "order_ok d od \<longleftrightarrow> (\<exists>r. find_reservation (od_reservation od) d = Some r \<and> r_status r = M_Confirmed \<and>
     od_user od = r_user r \<and> order_lines (od_id od) d = item_lines (r_id r) d)"

definition orders_sound :: "database \<Rightarrow> bool" where
  "orders_sound d \<longleftrightarrow> list_all (order_ok d) (orders d) \<and> distinct (map od_reservation (orders d)) \<and>
     list_all (\<lambda>l. oi_order l \<in> od_id ` set (orders d)) (order_items d)"

definition orders_complete :: "database \<Rightarrow> bool" where
  "orders_complete d \<longleftrightarrow>
     (\<forall>r\<in>set (reservations d). r_status r = M_Confirmed \<longrightarrow> find_order (r_id r) d \<noteq> None)"

definition shop_inv :: "database \<Rightarrow> bool" where
  "shop_inv d \<longleftrightarrow> balanced d \<and> coherent d \<and> list_all (row_ok d) (reservations d) \<and>
     orders_sound d \<and> orders_complete d"

lemma shop_invD:
  assumes "shop_inv d"
  shows "balanced d" "coherent d" "\<And>r. r \<in> set (reservations d) \<Longrightarrow> row_ok d r" "orders_sound d"
    "orders_complete d" "keys_ok d" "rows_ok d" "offers_ok d" "ledger d"
  using assms by (auto simp: shop_inv_def balanced_def list_all_iff)

lemma shop_inv_empty: "shop_inv empty_database"
  by (simp add: shop_inv_def balanced_def offers_ok_def keys_ok_def rows_ok_def ledger_def
      coherent_def orders_sound_def orders_complete_def empty_database_def reserved_at_def held_at_def
      find_offer_def)

lemma find_reservation_iff:
  "keys_ok d \<Longrightarrow> find_reservation rid d = Some r \<longleftrightarrow> r \<in> set (reservations d) \<and> r_id r = rid"
  unfolding find_reservation_def keys_ok_def by (rule find_Some_iff_mem) simp

lemma find_item_iff:
  "keys_ok d \<Longrightarrow> find_item i d = Some x \<longleftrightarrow> x \<in> set (items d) \<and> ri_id x = i"
  unfolding find_item_def keys_ok_def by (rule find_Some_iff_mem) simp

lemma touch_simps [simp]:
  "r_id (touch n a b) = r_id b" "r_user (touch n a b) = r_user b" "r_key (touch n a b) = r_key b"
  "r_status (touch n a b) = r_status b" "r_target (touch n a b) = r_target b"
  "r_created (touch n a b) = r_created b" "r_expires (touch n a b) = r_expires b"
  "r_fingerprint (touch n a b) = r_fingerprint b" "r_failure_code (touch n a b) = r_failure_code b"
  "r_failure_reason (touch n a b) = r_failure_reason b"
  by (simp_all add: touch_def)

subsection \<open>Changing the status of a reservation and its allocations\<close>

text \<open>What confirmation and release do to the tables, up to offers and operations.\<close>

definition moved :: "uuid \<Rightarrow> (reservation_row \<Rightarrow> reservation_row) \<Rightarrow> (uuid \<Rightarrow> allocation_status option) \<Rightarrow>
    database \<Rightarrow> database \<Rightarrow> bool" where
  "moved rid f m d d' \<longleftrightarrow> (\<exists>ofs ops. d' = (map_reservation rid f d)
     \<lparr>allocations := restatus m (allocations d), offers := ofs, operations := ops\<rparr>)"

definition keeps_identity :: "(reservation_row \<Rightarrow> reservation_row) \<Rightarrow> bool" where
  "keeps_identity f \<longleftrightarrow> (\<forall>r. r_id (f r) = r_id r \<and> r_user (f r) = r_user r \<and> r_key (f r) = r_key r \<and>
     r_created (f r) = r_created r \<and> r_expires (f r) = r_expires r \<and> r_fingerprint (f r) = r_fingerprint r)"

lemma moved_simps:
  assumes "moved rid f m d d'"
  shows "items d' = items d" "orders d' = orders d" "order_items d' = order_items d"
    "providers d' = providers d" "products d' = products d" "credentials d' = credentials d"
    "allocations d' = restatus m (allocations d)"
    "reservations d' = update_where (\<lambda>r. r_id r = rid) f (reservations d)"
    "find_item i d' = find_item i d" "is_internal d' v = is_internal d v" "belongs d' x a = belongs d x a"
    "items_of x d' = items_of x d" "item_lines x d' = item_lines x d" "order_lines x d' = order_lines x d"
    "find_order x d' = find_order x d" "find_provider v d' = find_provider v d"
  using assms by (auto simp: moved_def map_reservation_def find_item_def is_internal_def find_provider_def
      belongs_def items_of_def item_lines_def order_lines_def find_order_def)

lemma belongs_restatus: "belongs d x (a\<lparr>al_status := st\<rparr>) = belongs d x a"
  by (simp add: belongs_def)

lemma settled_moved:
  assumes mv: "moved rid f m d d'" and "settled d x st"
    and "\<And>a. a \<in> set (allocations d) \<Longrightarrow> belongs d x a \<Longrightarrow> m (al_id a) = None"
  shows "settled d' x st"
  using assms(2,3) unfolding settled_def
  by (auto simp: moved_simps [OF mv] restatus_def belongs_restatus)

lemma settled_moved_self:
  assumes mv: "moved rid f m d d'"
    and "\<And>a. a \<in> set (allocations d) \<Longrightarrow> belongs d rid a \<Longrightarrow>
      \<exists>st'. m (al_id a) = Some st' \<and> closed_in st st' \<and> (is_internal d (al_provider a) \<longrightarrow> settled_in st st')"
  shows "settled d' rid st"
  unfolding settled_def
proof (intro ballI impI)
  fix b
  assume b: "b \<in> set (allocations d')" "belongs d' rid b"
  then obtain a where a: "a \<in> set (allocations d)" and
    eq: "b = a\<lparr>al_status := (case m (al_id a) of None \<Rightarrow> al_status a | Some s \<Rightarrow> s)\<rparr>"
    by (auto simp: moved_simps [OF mv] restatus_def)
  from assms(2) [OF a] b
  show "closed_in st (al_status b) \<and> (is_internal d' (al_provider b) \<longrightarrow> settled_in st (al_status b))"
    by (auto simp: eq moved_simps [OF mv] belongs_restatus)
qed

lemma coherent_moved:
  assumes mv: "moved rid f m d d'" and coh: "coherent d" and id: "keeps_identity f" and keys: "keys_ok d"
    and dom: "\<And>a. a \<in> set (allocations d) \<Longrightarrow> \<not> belongs d rid a \<Longrightarrow> m (al_id a) = None"
    and self: "\<And>r. r \<in> set (reservations d) \<Longrightarrow> r_id r = rid \<Longrightarrow> settled d' rid (r_status (f r))"
  shows "coherent d'"
  unfolding coherent_def
proof
  fix r'
  assume "r' \<in> set (reservations d')"
  then obtain r where r: "r \<in> set (reservations d)" and r': "r' = (if r_id r = rid then f r else r)"
    by (auto simp: moved_simps [OF mv] set_update_where)
  have ids: "r_id (f x) = r_id x" for x using id by (simp add: keeps_identity_def)
  show "settled d' (r_id r') (r_status r')"
  proof (cases "r_id r = rid")
    case True
    then show ?thesis using self [OF r] by (simp add: r' ids)
  next
    case False
    have "settled d' (r_id r) (r_status r)"
    proof (rule settled_moved [OF mv])
      show "settled d (r_id r) (r_status r)" using coh r by (simp add: coherent_def)
      show "m (al_id a) = None" if "a \<in> set (allocations d)" "belongs d (r_id r) a" for a
        using that False by (intro dom) (auto simp: belongs_def)
    qed
    with False show ?thesis by (simp add: r')
  qed
qed

lemma rows_moved:
  assumes mv: "moved rid f m d d'" and id: "keeps_identity f"
    and rows: "\<And>r. r \<in> set (reservations d) \<Longrightarrow> row_ok d r"
    and self: "\<And>r. r \<in> set (reservations d) \<Longrightarrow> r_id r = rid \<Longrightarrow> status_ok (f r)"
  shows "list_all (row_ok d') (reservations d')"
proof -
  have "\<forall>r\<in>set (reservations d). row_ok d' (if r_id r = rid then f r else r)"
  proof
    fix r
    assume r: "r \<in> set (reservations d)"
    show "row_ok d' (if r_id r = rid then f r else r)"
      using rows [OF r] self [OF r] id by (auto simp: row_ok_def moved_simps [OF mv] keeps_identity_def)
  qed
  then show ?thesis
    unfolding list_all_iff moved_simps [OF mv] update_where_def set_map by blast
qed

lemma find_reservation_moved:
  assumes "moved rid f m d d'" and "keeps_identity f"
  shows "find_reservation x d' = map_option (\<lambda>r. if x = rid then f r else r) (find_reservation x d)"
proof -
  have "find_reservation x d' = find_reservation x (map_reservation rid f d)"
    using assms(1) by (auto simp: moved_def)
  then show ?thesis using assms(2) by (simp add: find_reservation_map keeps_identity_def)
qed

lemma orders_sound_moved:
  assumes mv: "moved rid f m d d'" and id: "keeps_identity f" and "orders_sound d"
    and none: "find_order rid d = None"
  shows "orders_sound d'"
proof -
  have "order_ok d' od" if od: "od \<in> set (orders d)" for od
  proof -
    have "od_reservation od \<noteq> rid"
      using none od by (auto simp: find_order_def find_None_iff_all)
    moreover have "order_ok d od" using assms(3) od by (simp add: orders_sound_def list_all_iff)
    ultimately show ?thesis
      by (auto simp: order_ok_def moved_simps [OF mv] find_reservation_moved [OF mv id])
  qed
  with assms(3) show ?thesis by (simp add: orders_sound_def list_all_iff moved_simps [OF mv])
qed

lemma no_order:
  assumes "orders_sound d" and "keys_ok d" and "r \<in> set (reservations d)" and "r_status r \<noteq> M_Confirmed"
  shows "find_order (r_id r) d = None"
proof (rule ccontr)
  assume "find_order (r_id r) d \<noteq> None"
  then obtain od where "od \<in> set (orders d)" "od_reservation od = r_id r"
    by (auto simp: find_order_def dest: find_SomeD)
  with assms show False
    by (auto simp: orders_sound_def list_all_iff order_ok_def find_reservation_iff [OF assms(2)])
      (metis assms(2) find_reservation_iff option.inject)
qed

subsection \<open>From the loops to the tables\<close>

lemma belongs_join:
  assumes "rows_ok d" and "a \<in> set (allocations d)" and "belongs d rid a"
  shows "\<exists>j\<in>set (allocations_of rid d). aj_allocation j = a \<and>
    (v_kind (aj_provider j) = Internal \<longleftrightarrow> is_internal d (al_provider a))"
proof -
  from assms obtain i pr where i: "find_item (al_item a) d = Some i" "ri_reservation i = rid"
      "find_provider (al_provider a) d = Some pr"
    by (auto simp: rows_ok_def list_all_iff belongs_def)
  let ?j = "\<lparr>aj_allocation = a, aj_product = ri_product i, aj_provider = pr,
    aj_credential = find_credential (v_id pr) d\<rparr>"
  have "joined rid d a ?j" using i assms(2) by (simp add: joined_def join_allocation_Some)
  then have "?j \<in> set (allocations_of rid d)" by (auto simp: allocations_of_mem joined_def)
  then show ?thesis
    by (rule rev_bexI) (use joinedD(5) [OF \<open>joined rid d a ?j\<close>] in simp)
qed

lemma join_belongs:
  "j \<in> set (allocations_of rid d) \<Longrightarrow> joined rid d (aj_allocation j) j \<and> belongs d rid (aj_allocation j)"
  by (auto simp: allocations_of_mem joined_def join_allocation_Some belongs_def)

definition loop_map :: "allocation_join list \<Rightarrow> ('o \<Rightarrow> allocation_status) \<Rightarrow> 'o list \<Rightarrow> uuid \<Rightarrow> allocation_status option" where
  "loop_map js st os = map_of (zip (map aj_id js) (map st os))"

lemma loop_map_other:
  assumes "keys_ok d" and "a \<in> set (allocations d)" and "\<not> belongs d rid a"
  shows "loop_map (allocations_of rid d) st os (al_id a) = None"
proof -
  have "al_id a \<noteq> aj_id j" if "j \<in> set (allocations_of rid d)" for j
  proof
    assume "al_id a = aj_id j"
    then have "al_id a = al_id (aj_allocation j)" by (simp add: aj_id_def)
    moreover have "aj_allocation j \<in> set (allocations d)" using join_belongs [OF that] by (simp add: joined_def)
    ultimately have "a = aj_allocation j"
      using assms(1,2) by (metis eq_key_imp_eq_value keys_ok_def distinct_map inj_onD)
    with join_belongs [OF that] assms(3) show False by simp
  qed
  then have "al_id a \<notin> set (map aj_id (allocations_of rid d))" by auto
  then show ?thesis unfolding loop_map_def by (auto simp: map_of_eq_None_iff dest: set_zip_leftD)
qed

lemma loop_map_own:
  assumes "keys_ok d" and "rows_ok d" and "a \<in> set (allocations d)" and "belongs d rid a"
    and all: "list_all2 (\<lambda>j oc. v_kind (aj_provider j) = Internal \<longrightarrow> oc = good) (allocations_of rid d) os"
  shows "\<exists>oc\<in>set os. loop_map (allocations_of rid d) st os (al_id a) = Some (st oc) \<and>
    (is_internal d (al_provider a) \<longrightarrow> oc = good)"
proof -
  let ?js = "allocations_of rid d"
  from belongs_join [OF assms(2-4)] obtain j where j: "j \<in> set ?js" "aj_allocation j = a"
    "v_kind (aj_provider j) = Internal \<longleftrightarrow> is_internal d (al_provider a)" by blast
  then obtain n where n: "n < length ?js" "?js ! n = j" by (auto simp: in_set_conv_nth)
  have len: "length os = length ?js" using all by (simp add: list_all2_lengthD)
  have dist: "distinct (map aj_id ?js)"
    using allocations_of_distinct [OF assms(1)] by (simp add: aj_id_def [abs_def])
  have "map_of (zip (map aj_id ?js) (map st os)) (map aj_id ?js ! n) = Some (map st os ! n)"
    by (rule map_of_zip_nth) (use n len dist in simp_all)
  then have "loop_map ?js st os (al_id a) = Some (st (os ! n))"
    using n len j by (simp add: loop_map_def aj_id_def)
  moreover have "v_kind (aj_provider j) = Internal \<longrightarrow> os ! n = good"
    using list_all2_nthD [OF all, of n] n len by simp
  ultimately show ?thesis using j(3) n len by (auto intro!: bexI [of _ "os ! n"])
qed

lemma ready_confirm:
  assumes "shop_inv d" and "r \<in> set (reservations d)"
    and "r_status r = M_Pending \<or> r_status r = M_Confirming"
  shows "confirm_loop.ready (r_id r) (allocations_of (r_id r) d) d"
proof -
  have "settled d (r_id r) (r_status r)" using shop_invD(2) [OF assms(1)] assms(2) by (simp add: coherent_def)
  then have fit: "confirmable (al_status a)" if "a \<in> set (allocations d)" "belongs d (r_id r) a"
      "is_internal d (al_provider a)" for a
    using that assms(3) by (auto simp: settled_def confirmable_def)
  have "joined (r_id r) d (aj_allocation j) j \<and> (v_kind (aj_provider j) = Internal \<longrightarrow>
      confirmable (al_status (aj_allocation j)))" if "j \<in> set (allocations_of (r_id r) d)" for j
    using join_belongs [OF that] fit joinedD(2,5) [of "r_id r" d "aj_allocation j" j] by blast
  with shop_invD(1,6) [OF assms(1)] allocations_of_distinct [OF shop_invD(6) [OF assms(1)]] show ?thesis
    by (simp add: confirm_loop.ready_def aj_id_def [abs_def])
qed

lemma ready_release:
  assumes "balanced d"
    and "\<forall>a\<in>set (allocations d). belongs d rid a \<longrightarrow> is_internal d (al_provider a) \<longrightarrow> releasable (al_status a)"
  shows "release_loop.ready rid (allocations_of rid d) d"
proof -
  have keys: "keys_ok d" using assms(1) by (simp add: balanced_def)
  have "joined rid d (aj_allocation j) j \<and> (v_kind (aj_provider j) = Internal \<longrightarrow>
      releasable (al_status (aj_allocation j)))" if "j \<in> set (allocations_of rid d)" for j
    using join_belongs [OF that] assms(2) joinedD(2,5) [of rid d "aj_allocation j" j] by blast
  with keys assms(1) allocations_of_distinct [OF keys] show ?thesis
    by (simp add: release_loop.ready_def aj_id_def [abs_def])
qed

subsection \<open>Release\<close>

lemma update_reservation_run:
  "update_reservation rid f w =
     (Inr (), w\<lparr>w_db := map_reservation rid (\<lambda>r. touch (w_now w) r (f r)) (w_db w)\<rparr>)"
  by (simp add: update_reservation_def prog_simps)

lemma map_reservation_simps [simp]:
  "allocations (map_reservation rid f d) = allocations d" "items (map_reservation rid f d) = items d"
  "offers (map_reservation rid f d) = offers d" "orders (map_reservation rid f d) = orders d"
  "order_items (map_reservation rid f d) = order_items d" "products (map_reservation rid f d) = products d"
  "find_item i (map_reservation rid f d) = find_item i d"
  "find_provider v (map_reservation rid f d) = find_provider v d"
  "find_offer p v (map_reservation rid f d) = find_offer p v d"
  "find_order x (map_reservation rid f d) = find_order x d"
  "is_internal (map_reservation rid f d) v = is_internal d v"
  "find_credential v (map_reservation rid f d) = find_credential v d"
  "items_of x (map_reservation rid f d) = items_of x d"
  "belongs (map_reservation rid f d) x a = belongs d x a"
  by (simp_all add: map_reservation_def find_credential_def find_order_def items_of_def belongs_def)

lemma join_map_reservation [simp]:
  "join_allocation x (map_reservation rid f d) = join_allocation x d"
  by (rule ext) (simp add: join_allocation_def split: option.split)

lemma joins_map_reservation [simp]:
  "allocations_of x (map_reservation rid f d) = allocations_of x d"
  "joined x (map_reservation rid f d) a j = joined x d a j"
  by (simp_all add: allocations_of_def joined_def)

lemma map_reservation_twice:
  "(\<And>r. r_id (f r) = r_id r) \<Longrightarrow>
   map_reservation rid g (map_reservation rid f d) = map_reservation rid (g \<circ> f) d"
  by (simp add: map_reservation_def update_where_def)

lemma released_all: "list_ex (\<lambda>outcome. outcome \<noteq> R_Released) os \<longleftrightarrow> \<not> list_all (\<lambda>x. x = R_Released) os"
  by (simp add: list_ex_iff list_all_iff)

text \<open>The status and target a finished release leaves.\<close>

definition after_release :: "release_outcome list \<Rightarrow> status_model \<Rightarrow> (reservation_row \<Rightarrow> reservation_row) \<Rightarrow> bool" where
  "after_release os terminal f \<longleftrightarrow> keeps_identity f \<and>
     (\<forall>r. if list_all (\<lambda>x. x = R_Released) os then r_status (f r) = terminal \<and> r_target (f r) = None
          else r_status (f r) = M_Releasing \<and> r_target (f r) = Some terminal)"

lemma release_reservation_effect:
  assumes bal: "balanced (w_db w)" and run: "release_reservation E rid terminal ctx w = (Inr u, w')"
    and fit: "\<forall>a\<in>set (allocations (w_db w)). belongs (w_db w) rid a \<longrightarrow>
      is_internal (w_db w) (al_provider a) \<longrightarrow> releasable (al_status a)"
  shows "\<exists>os f. list_all2 (\<lambda>j oc. v_kind (aj_provider j) = Internal \<longrightarrow> oc = R_Released)
      (allocations_of rid (w_db w)) os \<and> after_release os terminal f \<and> balanced (w_db w') \<and>
      moved rid f (loop_map (allocations_of rid (w_db w)) released_status os) (w_db w) (w_db w')"
proof -
  let ?d = "w_db w" and ?js = "allocations_of rid (w_db w)"
  let ?ctx = "case ctx of None \<Rightarrow> first_attempt rid | Some c \<Rightarrow> c"
  define f1 where "f1 r = touch (w_now w) r (set_target terminal r)" for r
  let ?w1 = "w\<lparr>w_db := map_reservation rid f1 ?d\<rparr>"
  have id1: "\<And>r. r_id (f1 r) = r_id r" by (simp add: f1_def set_target_def)
  from run obtain os w2 where loop: "for_each (release_step E ?ctx) ?js ?w1 = (Inr os, w2)"
    and fin: "update_reservation rid (finish_release (list_ex (\<lambda>x. x \<noteq> R_Released) os) terminal) w2 = (Inr u, w')"
    by (auto simp: release_reservation_def prog_simps update_reservation_run f1_def [abs_def]
        split: prod.splits sum.splits)
  define f2 where "f2 r = touch (w_now w2) r (finish_release (list_ex (\<lambda>x. x \<noteq> R_Released) os) terminal r)" for r
  have id2: "\<And>r. r_id (f2 r) = r_id r" by (simp add: f2_def finish_release_def)
  have w': "w_db w' = map_reservation rid f2 (w_db w2)"
    using fin by (auto simp: update_reservation_run f2_def [abs_def])
  have "release_loop.ready rid ?js (w_db ?w1)"
    using ready_release [of "w_db ?w1" rid] bal fit by (simp add: balanced_map_reservation id1)
  from release_loop.loop [OF this loop] obtain ofs ops where
    post: "balanced (w_db w2)" "list_all2 (\<lambda>j oc. v_kind (aj_provider j) = Internal \<longrightarrow> oc = R_Released) ?js os"
      "w_db w2 = (map_reservation rid f1 ?d)\<lparr>allocations := restatus (loop_map ?js released_status os) (allocations ?d),
         offers := ofs, operations := ops\<rparr>"
    by (auto simp: loop_map_def)
  have "w_db w' = (map_reservation rid (f2 \<circ> f1) ?d)\<lparr>allocations := restatus (loop_map ?js released_status os) (allocations ?d),
         offers := ofs, operations := ops\<rparr>"
    unfolding w' post(3) map_reservation_twice [OF id1, symmetric] by (simp add: map_reservation_def)
  then have "moved rid (f2 \<circ> f1) (loop_map ?js released_status os) ?d (w_db w')"
    unfolding moved_def by blast
  moreover have "balanced (w_db w')" using post(1) by (simp add: w' balanced_map_reservation id2)
  moreover have "after_release os terminal (f2 \<circ> f1)"
    by (auto simp: after_release_def keeps_identity_def f1_def f2_def set_target_def finish_release_def released_all)
  ultimately show ?thesis using post(2) by blast
qed

text \<open>
  Release keeps the invariant of a reservation that is not confirmed, as long as its internal
  allocations are held or released.
\<close>

lemma release_keeps_inv:
  assumes inv: "shop_inv (w_db w)" and run: "release_reservation E rid terminal ctx w = (Inr u, w')"
    and r: "r \<in> set (reservations (w_db w))" "r_id r = rid" "r_status r \<noteq> M_Confirmed"
    and terminal: "terminal \<in> {M_Cancelled, M_Expired, M_Failed}"
    and fit: "\<forall>a\<in>set (allocations (w_db w)). belongs (w_db w) rid a \<longrightarrow>
      is_internal (w_db w) (al_provider a) \<longrightarrow> releasable (al_status a)"
  shows "shop_inv (w_db w')"
proof -
  let ?d = "w_db w" and ?d' = "w_db w'" and ?js = "allocations_of rid (w_db w)"
  note base = shop_invD [OF inv]
  obtain os f where os: "list_all2 (\<lambda>j oc. v_kind (aj_provider j) = Internal \<longrightarrow> oc = R_Released) ?js os"
    and f: "after_release os terminal f" and bal: "balanced ?d'"
    and mv: "moved rid f (loop_map ?js released_status os) ?d ?d'"
    using release_reservation_effect [OF base(1) run fit] by blast
  have id: "keeps_identity f" using f by (simp add: after_release_def)
  have status: "r_status (f x) \<in> {M_Releasing, M_Cancelled, M_Expired, M_Failed}" for x
    using f terminal by (cases "list_all (\<lambda>x. x = R_Released) os") (auto simp: after_release_def)
  have "settled ?d' rid (r_status (f x))" for x
  proof (rule settled_moved_self [OF mv])
    fix a
    assume "a \<in> set (allocations ?d)" "belongs ?d rid a"
    from loop_map_own [OF base(6,7) this os, of released_status] obtain oc where
      oc: "oc \<in> set os" "loop_map ?js released_status os (al_id a) = Some (released_status oc)"
      "is_internal ?d (al_provider a) \<longrightarrow> oc = R_Released" by blast
    have "closed_in (r_status (f x)) (released_status oc)"
      using f terminal oc(1) by (cases "list_all (\<lambda>x. x = R_Released) os") (auto simp: after_release_def list_all_iff)
    then show "\<exists>st'. loop_map ?js released_status os (al_id a) = Some st' \<and> closed_in (r_status (f x)) st' \<and>
        (is_internal ?d (al_provider a) \<longrightarrow> settled_in (r_status (f x)) st')"
      using status [of x] oc by auto
  qed
  then have "coherent ?d'"
    using coherent_moved [OF mv base(2) id base(6)] loop_map_other [OF base(6)] by blast
  moreover have "list_all (row_ok ?d') (reservations ?d')"
  proof (rule rows_moved [OF mv id base(3)])
    fix x
    show "status_ok (f x)"
      using f terminal
      by (cases "list_all (\<lambda>x. x = R_Released) os") (auto simp: after_release_def status_ok_def)
  qed
  moreover have none: "find_order rid ?d = None" using no_order [OF base(4,6) r(1,3)] r(2) by simp
  then have "orders_sound ?d'" by (rule orders_sound_moved [OF mv id base(4)])
  moreover have "orders_complete ?d'"
  proof -
    have "r_status (f x) \<noteq> M_Confirmed" for x using status [of x] by auto
    then show ?thesis using base(5) by (auto simp: orders_complete_def moved_simps [OF mv] set_update_where)
  qed
  ultimately show ?thesis using bal by (simp add: shop_inv_def)
qed

subsection \<open>Orders\<close>

lemma insert_line_effect:
  "insert_line E oid i w = (Inr u, w') \<Longrightarrow>
     \<exists>l. w_db w' = (w_db w)\<lparr>order_items := order_items (w_db w) @ [l]\<rparr> \<and> oi_order l = oid \<and>
       (oi_product l, oi_quantity l) = (ri_product i, ri_quantity i)"
  by (auto simp: insert_line_def prog_simps split: sum.splits dest!: insert_order_item_Inr)

lemma insert_lines_effect:
  "for_each (insert_line E oid) its w = (Inr us, w') \<Longrightarrow>
     \<exists>ls. w_db w' = (w_db w)\<lparr>order_items := order_items (w_db w) @ ls\<rparr> \<and> (\<forall>l\<in>set ls. oi_order l = oid) \<and>
       map (\<lambda>l. (oi_product l, oi_quantity l)) ls = map (\<lambda>i. (ri_product i, ri_quantity i)) its"
proof (induction its arbitrary: w us)
  case Nil
  then show ?case by (auto simp: ret_def)
next
  case (Cons i its)
  then obtain u w1 vs where one: "insert_line E oid i w = (Inr u, w1)"
    and rest: "for_each (insert_line E oid) its w1 = (Inr vs, w')"
    by (auto simp: prog_simps split: prod.splits sum.splits)
  from insert_line_effect [OF one] obtain l where
    l: "w_db w1 = (w_db w)\<lparr>order_items := order_items (w_db w) @ [l]\<rparr>" "oi_order l = oid"
      "(oi_product l, oi_quantity l) = (ri_product i, ri_quantity i)" by blast
  from Cons.IH [OF rest] obtain ls where
    ls: "w_db w' = (w_db w1)\<lparr>order_items := order_items (w_db w1) @ ls\<rparr>" "\<forall>l\<in>set ls. oi_order l = oid"
      "map (\<lambda>l. (oi_product l, oi_quantity l)) ls = map (\<lambda>i. (ri_product i, ri_quantity i)) its" by blast
  show ?case by (rule exI [of _ "l # ls"]) (use l ls in simp)
qed

lemma ensure_order_effect:
  assumes "find_order (r_id r) (w_db w) = None" and "ensure_order E r w = (Inr u, w')"
  shows "\<exists>od ls. w_db w' = (w_db w)\<lparr>orders := orders (w_db w) @ [od], order_items := order_items (w_db w) @ ls\<rparr> \<and>
    od_reservation od = r_id r \<and> od_user od = r_user r \<and> od_id od \<notin> od_id ` set (orders (w_db w)) \<and>
    (\<forall>l\<in>set ls. oi_order l = od_id od) \<and>
    map (\<lambda>l. (oi_product l, oi_quantity l)) ls = item_lines (r_id r) (w_db w)"
proof -
  let ?oid = "e_uuid E (w_ids w)"
  from assms obtain d1 us where
    ins: "insert_order \<lparr>od_id = ?oid, od_reservation = r_id r, od_user = r_user r\<rparr> (w_db w) = Inr d1"
    and lines: "for_each (insert_line E ?oid) (items_of (r_id r) d1)
      (w\<lparr>w_ids := Suc (w_ids w), w_db := d1\<rparr>) = (Inr us, w')"
    by (auto simp: ensure_order_def prog_simps split: prod.splits sum.splits)
  note od = insert_order_Inr [OF ins]
  from insert_lines_effect [OF lines] obtain ls where
    ls: "w_db w' = d1\<lparr>order_items := order_items d1 @ ls\<rparr>" "\<forall>l\<in>set ls. oi_order l = ?oid"
      "map (\<lambda>l. (oi_product l, oi_quantity l)) ls = map (\<lambda>i. (ri_product i, ri_quantity i)) (items_of (r_id r) d1)"
    by auto
  let ?od = "\<lparr>od_id = ?oid, od_reservation = r_id r, od_user = r_user r\<rparr>"
  have "w_db w' = (w_db w)\<lparr>orders := orders (w_db w) @ [?od], order_items := order_items (w_db w) @ ls\<rparr>"
    using ls(1) od by simp
  moreover have "map (\<lambda>l. (oi_product l, oi_quantity l)) ls = item_lines (r_id r) (w_db w)"
    using ls(3) od by (simp add: item_lines_def items_of_def)
  ultimately show ?thesis using ls(2) od by (intro exI [of _ ?od] exI [of _ ls]) auto
qed

subsection \<open>Confirmation\<close>

lemma confirm_reservation_effect:
  assumes inv: "shop_inv (w_db w)" and r: "r \<in> set (reservations (w_db w))"
    and st: "r_status r = M_Pending \<or> r_status r = M_Confirming"
    and run: "confirm_reservation E r ctx w = (Inr x, w')"
  shows "\<exists>os f w1. list_all2 (\<lambda>j oc. v_kind (aj_provider j) = Internal \<longrightarrow> oc = C_Confirmed)
      (allocations_of (r_id r) (w_db w)) os \<and> keeps_identity f \<and>
      (\<forall>y. r_status (f y) = confirm_result os \<and> r_target (f y) = r_target y) \<and> balanced (w_db w1) \<and>
      moved (r_id r) f (loop_map (allocations_of (r_id r) (w_db w)) confirmed_status os) (w_db w) (w_db w1) \<and>
      (if confirm_result os = M_Confirmed then \<exists>w2. ensure_order E r w1 = (Inr (), w2) \<and> w_db w' = w_db w2
       else w_db w' = w_db w1)"
proof -
  let ?d = "w_db w" and ?js = "allocations_of (r_id r) (w_db w)"
  from run obtain os w0 w2 where loop: "for_each (confirm_step E ctx) ?js w = (Inr os, w0)"
    and ord: "(if confirm_result os = M_Confirmed then ensure_order E r else ret ())
        (w0\<lparr>w_db := map_reservation (r_id r) (\<lambda>y. touch (w_now w0) y (set_status (confirm_result os) y)) (w_db w0)\<rparr>)
        = (Inr (), w2)"
    and reload: "reload_domain (r_id r) w2 = (Inr x, w')"
    by (auto simp: confirm_reservation_def andThen_def db_query_def update_reservation_run
        split: prod.splits sum.splits)
  define f where "f y = touch (w_now w0) y (set_status (confirm_result os) y)" for y
  let ?w1 = "w0\<lparr>w_db := map_reservation (r_id r) f (w_db w0)\<rparr>"
  have ready: "confirm_loop.ready (r_id r) ?js (w_db w)" by (rule ready_confirm [OF inv r st])
  from confirm_loop.loop [OF this loop] obtain ofs ops where
    post: "balanced (w_db w0)" "list_all2 (\<lambda>j oc. v_kind (aj_provider j) = Internal \<longrightarrow> oc = C_Confirmed) ?js os"
      "w_db w0 = ?d\<lparr>allocations := restatus (loop_map ?js confirmed_status os) (allocations ?d),
         offers := ofs, operations := ops\<rparr>"
    by (auto simp: loop_map_def)
  have "w_db ?w1 = (map_reservation (r_id r) f ?d)\<lparr>allocations :=
      restatus (loop_map ?js confirmed_status os) (allocations ?d), offers := ofs, operations := ops\<rparr>"
    by (simp add: post(3)) (simp add: map_reservation_def)
  then have "moved (r_id r) f (loop_map ?js confirmed_status os) ?d (w_db ?w1)"
    unfolding moved_def by blast
  moreover have "keeps_identity f" by (simp add: keeps_identity_def f_def set_status_def)
  moreover have "\<forall>y. r_status (f y) = confirm_result os \<and> r_target (f y) = r_target y"
    by (simp add: f_def set_status_def)
  moreover have "balanced (w_db ?w1)" using post(1) by (simp add: balanced_map_reservation f_def set_status_def)
  moreover have "keeps w_db (reload_domain (r_id r))"
    unfolding reload_domain_def row_to_domain_def by (intro keeps_intros)
  with reload have "w_db w' = w_db w2" by (blast dest: keepsD)
  then have "if confirm_result os = M_Confirmed then \<exists>w2. ensure_order E r ?w1 = (Inr (), w2) \<and> w_db w' = w_db w2
       else w_db w' = w_db ?w1"
    using ord by (auto simp: f_def [abs_def] ret_def split: if_splits)
  ultimately show ?thesis using post(2) by blast
qed

lemma confirm_result_cases: "confirm_result os \<in> {M_Failed, M_Confirming, M_Confirmed}"
  by (simp add: confirm_result_def)

lemma shop_inv_with_order:
  assumes "balanced d" "coherent d" "list_all (row_ok d) (reservations d)" "orders_sound d"
    and complete: "\<forall>y\<in>set (reservations d). r_status y = M_Confirmed \<longrightarrow> r_id y \<noteq> rid \<longrightarrow> find_order (r_id y) d \<noteq> None"
    and r: "find_reservation rid d = Some r" "r_status r = M_Confirmed" "find_order rid d = None"
    and od: "od_reservation od = rid" "od_user od = r_user r" "od_id od \<notin> od_id ` set (orders d)"
    and ls: "\<forall>l\<in>set ls. oi_order l = od_id od"
      "map (\<lambda>l. (oi_product l, oi_quantity l)) ls = item_lines rid d"
  shows "shop_inv (d\<lparr>orders := orders d @ [od], order_items := order_items d @ ls\<rparr>)"
proof -
  let ?d' = "d\<lparr>orders := orders d @ [od], order_items := order_items d @ ls\<rparr>"
  have rid: "r_id r = rid" using r(1) by (auto simp: find_reservation_def dest: find_SomeD)
  have old_lines: "list_all (\<lambda>l. oi_order l \<in> od_id ` set (orders d)) (order_items d)"
    using assms(4) by (simp add: orders_sound_def)
  then have "filter (\<lambda>l. oi_order l = od_id od) (order_items d) = []"
    using od(3) by (simp add: filter_empty_conv list_all_iff) metis
  moreover have "filter (\<lambda>l. oi_order l = od_id od) ls = ls" using ls(1) by (simp add: filter_id_conv)
  ultimately have "order_lines (od_id od) ?d' = item_lines rid d" using ls(2) by (simp add: order_lines_def)
  moreover have same: "items_of x ?d' = items_of x d" "find_reservation x ?d' = find_reservation x d" for x
    by (simp_all add: items_of_def find_reservation_def)
  ultimately have "order_ok ?d' od" using r od rid by (simp add: order_ok_def item_lines_def)
  moreover have "order_ok ?d' x" if x: "x \<in> set (orders d)" for x
  proof -
    have "od_id x \<noteq> od_id od" using od(3) x by (metis imageI)
    then have "filter (\<lambda>l. oi_order l = od_id x) ls = []" using ls(1) by (auto simp: filter_empty_conv)
    moreover have "order_ok d x" using assms(4) x by (simp add: orders_sound_def list_all_iff)
    ultimately show ?thesis by (simp add: order_ok_def order_lines_def item_lines_def same)
  qed
  moreover have "rid \<notin> od_reservation ` set (orders d)"
    using r(3) by (auto simp: find_order_def find_None_iff_all)
  ultimately have "orders_sound ?d'"
    using assms(4) ls(1) od(1) by (auto simp: orders_sound_def list_all_iff)
  moreover have "orders_complete ?d'"
    using complete od(1) by (auto simp: orders_complete_def find_order_def find_append split: option.split)
  moreover have "coherent ?d'" using assms(2) by (simp add: coherent_def settled_def belongs_def)
  moreover have "list_all (row_ok ?d') (reservations ?d')"
    using assms(3) by (simp add: list_all_iff row_ok_def items_of_def)
  ultimately show ?thesis using assms(1) by (simp add: shop_inv_def)
qed

lemma confirm_keeps_inv:
  assumes inv: "shop_inv (w_db w)" and r: "r \<in> set (reservations (w_db w))"
    and st: "r_status r = M_Pending \<or> r_status r = M_Confirming"
    and run: "confirm_reservation E r ctx w = (Inr x, w')"
  shows "shop_inv (w_db w')"
proof -
  let ?d = "w_db w" and ?js = "allocations_of (r_id r) (w_db w)"
  note base = shop_invD [OF inv]
  obtain os f w1 where os: "list_all2 (\<lambda>j oc. v_kind (aj_provider j) = Internal \<longrightarrow> oc = C_Confirmed) ?js os"
    and id: "keeps_identity f" and f: "\<forall>y. r_status (f y) = confirm_result os \<and> r_target (f y) = r_target y"
    and bal: "balanced (w_db w1)" and mv: "moved (r_id r) f (loop_map ?js confirmed_status os) ?d (w_db w1)"
    and ord: "if confirm_result os = M_Confirmed then \<exists>w2. ensure_order E r w1 = (Inr (), w2) \<and> w_db w' = w_db w2
       else w_db w' = w_db w1"
    using confirm_reservation_effect [OF inv r st run] by blast
  have "settled (w_db w1) (r_id r) (r_status (f y))" for y
  proof (rule settled_moved_self [OF mv])
    fix a
    assume "a \<in> set (allocations ?d)" "belongs ?d (r_id r) a"
    from loop_map_own [OF base(6,7) this os, of confirmed_status] obtain oc where
      oc: "oc \<in> set os" "loop_map ?js confirmed_status os (al_id a) = Some (confirmed_status oc)"
      "is_internal ?d (al_provider a) \<longrightarrow> oc = C_Confirmed" by blast
    have "oc = C_Confirmed" if "confirm_result os = M_Confirmed"
      using that oc(1) by (cases oc) (auto simp: confirm_result_def list_ex_iff split: if_splits)
    then have "closed_in (confirm_result os) (confirmed_status oc)"
      using confirm_result_cases [of os] by auto
    then show "\<exists>st'. loop_map ?js confirmed_status os (al_id a) = Some st' \<and> closed_in (r_status (f y)) st' \<and>
        (is_internal ?d (al_provider a) \<longrightarrow> settled_in (r_status (f y)) st')"
      using f confirm_result_cases [of os] oc by auto
  qed
  then have coh: "coherent (w_db w1)"
    using coherent_moved [OF mv base(2) id base(6)] loop_map_other [OF base(6)] by blast
  have rows: "list_all (row_ok (w_db w1)) (reservations (w_db w1))"
  proof (rule rows_moved [OF mv id base(3)])
    fix y
    assume "y \<in> set (reservations ?d)" "r_id y = r_id r"
    then have "y = r" using base(6) r by (metis find_reservation_iff option.inject)
    with base(3) [OF r] st show "status_ok (f y)"
      using f confirm_result_cases [of os] by (auto simp: row_ok_def status_ok_def)
  qed
  have none: "find_order (r_id r) ?d = None" by (rule no_order [OF base(4,6) r]) (use st in auto)
  have sound: "orders_sound (w_db w1)" by (rule orders_sound_moved [OF mv id base(4) none])
  have complete: "\<forall>y\<in>set (reservations (w_db w1)). r_status y = M_Confirmed \<longrightarrow> r_id y \<noteq> r_id r \<longrightarrow>
      find_order (r_id y) (w_db w1) \<noteq> None"
    using base(5) id by (auto simp: orders_complete_def moved_simps [OF mv] set_update_where keeps_identity_def)
  show ?thesis
  proof (cases "confirm_result os = M_Confirmed")
    case False
    have "find_order (r_id y) (w_db w1) \<noteq> None" if "y \<in> set (reservations (w_db w1))" "r_status y = M_Confirmed" for y
    proof -
      have "r_id y \<noteq> r_id r"
        using that False f id by (auto simp: moved_simps [OF mv] set_update_where keeps_identity_def)
      with complete that show ?thesis by blast
    qed
    with False ord bal coh rows sound show ?thesis by (simp add: shop_inv_def orders_complete_def)
  next
    case True
    with ord obtain w2 where ens: "ensure_order E r w1 = (Inr (), w2)" and w': "w_db w' = w_db w2" by auto
    have none1: "find_order (r_id r) (w_db w1) = None" using none by (simp add: moved_simps [OF mv])
    have "find_reservation (r_id r) ?d = Some r" using r by (simp add: find_reservation_iff [OF base(6)])
    then have fr: "find_reservation (r_id r) (w_db w1) = Some (f r)" by (simp add: find_reservation_moved [OF mv id])
    from ensure_order_effect [OF none1 ens] obtain od ls where
      od: "w_db w2 = (w_db w1)\<lparr>orders := orders (w_db w1) @ [od], order_items := order_items (w_db w1) @ ls\<rparr>"
      "od_reservation od = r_id r" "od_user od = r_user r" "od_id od \<notin> od_id ` set (orders (w_db w1))"
      "\<forall>l\<in>set ls. oi_order l = od_id od"
      "map (\<lambda>l. (oi_product l, oi_quantity l)) ls = item_lines (r_id r) (w_db w1)" by blast
    have "r_user r = r_user (f r)" using id by (simp add: keeps_identity_def)
    then show ?thesis
      unfolding w' od(1)
      using shop_inv_with_order [OF bal coh rows sound complete fr _ none1 od(2) _ od(4,5,6)] f True od(3) by simp
  qed
qed

end
