(* ===== verification/Reservation_Creation.thy ===== *)
theory Reservation_Creation
  imports Shop_Invariant
begin

section \<open>Creating a reservation keeps the invariant\<close>

text \<open>
  The proof follows \<open>add_with_hold\<close>: the rows are inserted, each item is held and recorded,
  and when an item cannot be held everything held before is released. The invariant holds after
  every iteration, not only at the end.
\<close>

subsection \<open>The rows\<close>

lemma insert_items_Cons:
  "insert_items E rid (i # its) w = (Inr rows, w') \<Longrightarrow>
   \<exists>d1 rest. insert_item (new_item (e_uuid E (w_ids w)) rid i) (w_db w) = Inr d1 \<and>
     insert_items E rid its (w\<lparr>w_ids := Suc (w_ids w), w_db := d1\<rparr>) = (Inr rest, w') \<and>
     rows = new_item (e_uuid E (w_ids w)) rid i # rest"
  by (auto simp: insert_items_def prog_simps split: prod.splits sum.splits)

definition fresh_items :: "uuid \<Rightarrow> item list \<Rightarrow> item_row list \<Rightarrow> database \<Rightarrow> bool" where
  "fresh_items rid its rows d \<longleftrightarrow>
     map (\<lambda>x. (ri_product x, ri_provider x, ri_quantity x)) rows =
       map (\<lambda>x. (it_product x, it_provider x, it_quantity x)) its \<and>
     (\<forall>x\<in>set rows. ri_reservation x = rid \<and> 0 < ri_quantity x) \<and>
     distinct (map ri_id rows) \<and> set (map ri_id rows) \<inter> set (map ri_id (items d)) = {} \<and>
     distinct (map ri_product rows) \<and>
     (\<forall>x\<in>set rows. \<forall>y\<in>set (items d). ri_reservation y = rid \<longrightarrow> ri_product y \<noteq> ri_product x)"

lemma find_item_None: "find_item i d = None \<longleftrightarrow> i \<notin> set (map ri_id (items d))"
  by (auto simp: find_item_def find_None_iff_all)

lemma insert_items_effect:
  "insert_items E rid its w = (Inr rows, w') \<Longrightarrow>
     w_db w' = (w_db w)\<lparr>items := items (w_db w) @ rows\<rparr> \<and> fresh_items rid its rows (w_db w)"
proof (induction its arbitrary: w rows)
  case Nil
  then show ?case by (simp add: insert_items_def ret_def fresh_items_def)
next
  case (Cons i its)
  let ?x = "new_item (e_uuid E (w_ids w)) rid i"
  from insert_items_Cons [OF Cons.prems] obtain d1 rest where
    ins: "insert_item ?x (w_db w) = Inr d1"
    and rest: "insert_items E rid its (w\<lparr>w_ids := Suc (w_ids w), w_db := d1\<rparr>) = (Inr rest, w')"
    and rows: "rows = ?x # rest" by blast
  note one = insert_item_Inr [OF ins]
  note IH = Cons.IH [OF rest]
  have "ri_id ?x \<notin> set (map ri_id (items (w_db w)))" using one by (simp add: find_item_None)
  moreover have "set (map ri_id rest) \<inter> set (map ri_id (items (w_db w) @ [?x])) = {}"
    using IH one by (simp add: fresh_items_def)
  ultimately have "distinct (map ri_id rows) \<and> set (map ri_id rows) \<inter> set (map ri_id (items (w_db w))) = {}"
    using IH by (auto simp: rows fresh_items_def)
  moreover have "map (\<lambda>x. (ri_product x, ri_provider x, ri_quantity x)) rows =
       map (\<lambda>x. (it_product x, it_provider x, it_quantity x)) (i # its)"
    using IH by (simp add: rows fresh_items_def) (simp add: new_item_def)
  moreover have "\<forall>x\<in>set rows. ri_reservation x = rid \<and> 0 < ri_quantity x"
    using IH one by (auto simp: rows fresh_items_def) (simp add: new_item_def)
  moreover have "w_db w' = (w_db w)\<lparr>items := items (w_db w) @ rows\<rparr>"
    using IH one by (simp add: rows)
  moreover have mine: "ri_reservation ?x = rid" by (simp add: new_item_def)
  then have "distinct (map ri_product rows) \<and>
      (\<forall>x\<in>set rows. \<forall>y\<in>set (items (w_db w)). ri_reservation y = rid \<longrightarrow> ri_product y \<noteq> ri_product x)"
    using IH one by (auto simp: rows fresh_items_def)
  ultimately show ?case by (simp add: fresh_items_def)
qed

text \<open>A new reservation with its items, and no allocation yet.\<close>

lemma new_rows_inv:
  assumes inv: "shop_inv d" and new: "find_reservation (r_id r) d = None"
    and st: "r_status r = M_Pending" "r_target r = None" "r_created r < r_expires r"
    and rows: "fresh_items (r_id r) its rows (d\<lparr>reservations := reservations d @ [r]\<rparr>)" "its \<noteq> []"
  shows "shop_inv (d\<lparr>reservations := reservations d @ [r], items := items d @ rows\<rparr>)"
proof -
  let ?d = "d\<lparr>reservations := reservations d @ [r], items := items d @ rows\<rparr>"
  note base = shop_invD [OF inv]
  have fresh: "distinct (map ri_id rows)" "set (map ri_id rows) \<inter> set (map ri_id (items d)) = {}"
    "\<And>x. x \<in> set rows \<Longrightarrow> ri_reservation x = r_id r \<and> 0 < ri_quantity x" "rows \<noteq> []"
    using rows by (auto simp: fresh_items_def)
  have new_id: "r_id x \<noteq> r_id r" if "x \<in> set (reservations d)" for x
    using new that by (auto simp: find_reservation_def find_None_iff_all)
  have nid: "r_id r \<notin> r_id ` set (reservations d)" using new_id by (metis imageE)
  have find_res: "find_reservation x (d\<lparr>reservations := reservations d @ [r]\<rparr>) = (case find_reservation x d of None \<Rightarrow> if x = r_id r then Some r else None
      | Some y \<Rightarrow> Some y)" for x
    by (auto simp: find_reservation_def find_append split: option.split)
  have find_it: "find_item i ?d = (case find_item i d of None \<Rightarrow> find (\<lambda>y. ri_id y = i) rows | Some x \<Rightarrow> Some x)" for i
    by (simp add: find_item_def find_append)
  have old_item: "find_item (al_item a) ?d = find_item (al_item a) d" if "a \<in> set (allocations d)" for a
  proof -
    have "find_item (al_item a) d \<noteq> None" using that base(7) by (simp add: rows_ok_def list_all_iff)
    then show ?thesis by (auto simp: find_it)
  qed
  have old_res: "find_reservation (ri_reservation i) d \<noteq> None" if "i \<in> set (items d)" for i
    using that base(7) by (simp add: rows_ok_def list_all_iff)
  have "keys_ok ?d"
    using base(6) fresh(1,2) nid by (simp add: keys_ok_def Int_commute)
  moreover have "rows_ok ?d"
    using base(7) fresh(3) old_item old_res
    by (auto simp: rows_ok_def list_all_iff find_res split: option.splits)
  moreover have "held_at ?d p v = held_at d p v" for p v
  proof -
    have "item_product (items ?d) (al_item a) = item_product (items d) (al_item a)" if "a \<in> set (allocations d)" for a
      unfolding item_product_find old_item [OF that] ..
    then show ?thesis
      by (auto simp: held_at_def held_quantity_def holds_at_def intro!: arg_cong [of _ _ sum_list] map_cong)
  qed
  then have "ledger ?d" using base(9) by (simp add: ledger_def reserved_at_def)
  ultimately have bal: "balanced ?d" using base(8) by (simp add: balanced_def offers_ok_def)
  have not_mine: "\<not> belongs ?d (r_id r) a" if am: "a \<in> set (allocations d)" for a
  proof
    assume "belongs ?d (r_id r) a"
    then obtain i where "find_item (al_item a) d = Some i" "ri_reservation i = r_id r"
      by (auto simp: belongs_def old_item [OF am])
    with old_res [of i] new show False by (auto simp: find_item_def dest: find_SomeD)
  qed
  have same: "belongs ?d x a = belongs d x a" if "a \<in> set (allocations d)" for x a
    by (simp add: belongs_def old_item [OF that])
  have "coherent ?d"
    using base(2) not_mine same by (auto simp: coherent_def settled_def is_internal_def find_provider_def)
  moreover have "list_all (row_ok ?d) (reservations ?d)"
  proof -
    have "items_of (r_id r) d = []" using old_res new by (fastforce simp: items_of_def filter_empty_conv)
    moreover have "filter (\<lambda>i. ri_reservation i = r_id r) rows = rows" using fresh(3) by (simp add: filter_id_conv)
    ultimately have own: "items_of (r_id r) ?d = rows" by (simp add: items_of_def)
    have "distinct (map ri_product rows)" using rows(1) by (simp add: fresh_items_def)
    then have "row_ok ?d r" using st fresh(4) own by (simp add: row_ok_def status_ok_def)
    moreover have "row_ok ?d x" if "x \<in> set (reservations d)" for x
    proof -
      have "filter (\<lambda>i. ri_reservation i = r_id x) rows = []"
        using fresh(3) new_id [OF that] by (auto simp: filter_empty_conv)
      then have "items_of (r_id x) ?d = items_of (r_id x) d" by (simp add: items_of_def)
      with base(3) [OF that] show ?thesis by (simp add: row_ok_def)
    qed
    ultimately show ?thesis by (simp add: list_all_iff)
  qed
  moreover have "orders_sound ?d"
  proof -
    have "order_ok ?d od" if "od \<in> set (orders d)" for od
    proof -
      have ok: "order_ok d od" using base(4) that by (simp add: orders_sound_def list_all_iff)
      then obtain y where y: "find_reservation (od_reservation od) d = Some y" by (auto simp: order_ok_def)
      then have "r_id y \<noteq> r_id r" by (auto simp: find_reservation_def dest!: find_SomeD intro!: new_id)
      then have "items_of (r_id y) ?d = items_of (r_id y) d"
        using fresh(3) by (auto simp: items_of_def filter_empty_conv)
      with ok y show ?thesis by (simp add: order_ok_def find_res item_lines_def order_lines_def)
    qed
    with base(4) show ?thesis by (simp add: orders_sound_def list_all_iff)
  qed
  moreover have "orders_complete ?d"
    using base(5) st(1) by (auto simp: orders_complete_def find_order_def)
  ultimately show ?thesis using bal by (simp add: shop_inv_def)
qed

subsection \<open>Holding one item\<close>

lemma stock_account_same_rest:
  assumes "stock_account d' = a" and "a = (stock_account d)\<lparr>offers := x\<rparr>"
  shows "d' = d\<lparr>offers := offers d'\<rparr>"
proof -
  have "d' = (stock_account d')\<lparr>offers := offers d'\<rparr>" by (simp add: stock_account_def)
  also have "\<dots> = d\<lparr>offers := offers d'\<rparr>" using assms by (simp add: stock_account_def)
  finally show ?thesis .
qed

lemma reserved_at_account [simp]: "reserved_at (stock_account d) p v = reserved_at d p v"
  by (simp add: reserved_at_def find_offer_account account_offer_def split: option.split)

text \<open>The database after a hold for an item: only offers change, and only where stock was taken.\<close>

lemma hold_effect:
  assumes ok: "offers_ok (w_db w)" and run: "try_hold_selected E p v q key w = (Inr r, w')"
  shows "offers_ok (w_db w') \<and> w_db w' = (w_db w)\<lparr>offers := offers (w_db w')\<rparr> \<and>
    (\<forall>p' v'. reserved_at (w_db w') p' v' = reserved_at (w_db w) p' v' +
       (case r of None \<Rightarrow> 0 | Some h \<Rightarrow>
          if p' = p \<and> v' = ph_provider h \<and> is_internal (w_db w) v' then q else 0))"
proof -
  let ?d = "w_db w" and ?d' = "w_db w'"
  have pre: "stock_inv (is_internal ?d) w \<and> w_db w = ?d" using ok by (simp add: stock_inv_def)
  note post = triple_Inr [OF try_hold_selected_takes pre run]
  have ok': "offers_ok ?d'" using post by (simp add: stock_inv_def)
  show ?thesis
  proof (cases r)
    case None
    then have eq: "stock_account ?d' = stock_account ?d" using post by (simp add: db_account_def)
    then have "?d' = ?d\<lparr>offers := offers ?d'\<rparr>"
      by (rule stock_account_same_rest [where x = "offers (stock_account ?d)"]) simp
    moreover have "reserved_at ?d' p' v' = reserved_at ?d p' v'" for p' v'
      using arg_cong [OF eq, of "\<lambda>x. reserved_at x p' v'"] by simp
    ultimately show ?thesis using ok' None by simp
  next
    case (Some h)
    let ?u = "ph_provider h"
    have tk: "takes_stock ?u \<lparr>hc_product = p, hc_quantity = q, hc_key = key\<rparr> (stock_account ?d) (stock_account ?d')"
      using post Some by (simp add: db_account_def)
    show ?thesis
    proof (cases "is_internal ?d ?u")
      case False
      then have eq: "stock_account ?d' = stock_account ?d" using tk by (simp add: takes_stock_def)
      then have "?d' = ?d\<lparr>offers := offers ?d'\<rparr>"
        by (rule stock_account_same_rest [where x = "offers (stock_account ?d)"]) simp
      moreover have "reserved_at ?d' p' v' = reserved_at ?d p' v'" for p' v'
        using arg_cong [OF eq, of "\<lambda>x. reserved_at x p' v'"] by simp
      ultimately show ?thesis using ok' Some False by simp
    next
      case True
      then have eq: "stock_account ?d' = map_offer p ?u (reserve q) (stock_account ?d)"
        and "\<exists>x. find_offer p ?u (stock_account ?d) = Some x"
        using tk by (auto simp: takes_stock_def)
      then obtain x where x: "find_offer p ?u (stock_account ?d) = Some x" by blast
      have key: "keeps_key (reserve q)" by (simp add: keeps_key_def reserve_def)
      have "?d' = ?d\<lparr>offers := offers ?d'\<rparr>"
        by (rule stock_account_same_rest [OF eq]) (simp add: map_offer_def)
      moreover have "reserved_at ?d' p' v' = reserved_at ?d p' v' + (if p' = p \<and> v' = ?u then q else 0)" for p' v'
      proof -
        have "reserved_at ?d' p' v' = reserved_at (map_offer p ?u (reserve q) (stock_account ?d)) p' v'"
          using arg_cong [OF eq, of "\<lambda>x. reserved_at x p' v'"] by simp
        moreover have "reserved_at ?d p ?u = o_reserved x"
          using x reserved_at_account [of ?d p ?u] by (simp add: reserved_at_def)
        ultimately show ?thesis
          by (auto simp: reserved_at_map_offer [OF key x]) (simp add: reserve_def)
      qed
      ultimately show ?thesis using ok' Some True by auto
    qed
  qed
qed

lemma held_item_inv:
  assumes inv: "shop_inv (w_db w)" and r: "find_reservation rid (w_db w) = Some r" "r_status r = M_Pending"
    and i: "i \<in> set (items (w_db w))" "ri_reservation i = rid"
    and hold: "try_hold_selected E (ri_product i) (ri_provider i) (ri_quantity i) key w = (Inr (Some h), w1)"
    and ins: "insert_allocation (new_allocation aid i h key) (w_db w1) = Inr d'"
  shows "shop_inv d' \<and> reservations d' = reservations (w_db w) \<and> items d' = items (w_db w)"
proof -
  let ?d = "w_db w" and ?d1 = "w_db w1" and ?a = "new_allocation aid i h key" and ?u = "ph_provider h"
  note base = shop_invD [OF inv]
  note h = hold_effect [OF base(8) hold]
  note a = insert_allocation_Inr [OF ins]
  from h have d1: "?d1 = ?d\<lparr>offers := offers ?d1\<rparr>" by blast
  have same: "find_item x ?d1 = find_item x ?d" "find_provider v ?d1 = find_provider v ?d"
    "is_internal ?d1 v = is_internal ?d v" "find_reservation y ?d1 = find_reservation y ?d"
    "items ?d1 = items ?d" "allocations ?d1 = allocations ?d" "reservations ?d1 = reservations ?d"
    "orders ?d1 = orders ?d" "order_items ?d1 = order_items ?d" for x v y
    by (subst d1, simp)+
  have d': "d' = ?d1\<lparr>allocations := allocations ?d1 @ [?a]\<rparr>" using a by blast
  have mine: "find_item (al_item ?a) ?d = Some i"
    using i(1) base(6) by (simp add: new_allocation_def find_item_iff)
  have al: "al_quantity ?a = ri_quantity i" "al_provider ?a = ?u" "al_status ?a = A_Held" "al_id ?a = aid"
    by (simp_all add: new_allocation_def)
  have "keys_ok d'" using base(6) a by (auto simp: keys_ok_def d' same)
  moreover have "rows_ok d'"
    using base(7) a by (auto simp: rows_ok_def list_all_iff d' same)
  moreover have "ledger d'"
    unfolding ledger_def
  proof (intro allI impI)
    fix p v
    assume "is_internal d' v"
    then have int: "is_internal ?d v" by (simp add: d' same)
    have "reserved_at d' p v = reserved_at ?d1 p v" by (simp add: d' reserved_at_def)
    also have "\<dots> = reserved_at ?d p v + (if p = ri_product i \<and> v = ?u then ri_quantity i else 0)"
      using h int by simp
    also have "reserved_at ?d p v = held_at ?d p v" using base(9) int by (simp add: ledger_def)
    also have "(if p = ri_product i \<and> v = ?u then ri_quantity i else 0) = held_quantity (items ?d) p v ?a"
      using mine by (auto simp: held_quantity_def holds_at_def item_product_find al)
    also have "held_at ?d p v + held_quantity (items ?d) p v ?a = held_at d' p v"
      by (simp add: held_at_def d' same)
    finally show "reserved_at d' p v = held_at d' p v" .
  qed
  ultimately have bal: "balanced d'" using h by (simp add: balanced_def d' offers_ok_def)
  have bel: "belongs d' x b = belongs ?d x b" for x b by (simp add: belongs_def d' same)
  have "coherent d'"
    unfolding coherent_def
  proof
    fix y
    assume "y \<in> set (reservations d')"
    then have y: "y \<in> set (reservations ?d)" by (simp add: d' same)
    then have "settled ?d (r_id y) (r_status y)" using base(2) by (simp add: coherent_def)
    moreover have "belongs ?d (r_id y) ?a \<Longrightarrow> r_status y = M_Pending"
      using mine i(2) r y by (auto simp: belongs_def find_reservation_iff [OF base(6)])
        (metis base(6) find_reservation_iff option.inject r(1))
    ultimately show "settled d' (r_id y) (r_status y)"
      by (auto simp: settled_def bel) (auto simp: d' same al)
  qed
  moreover have "list_all (row_ok d') (reservations d')"
    using base(3) by (auto simp: list_all_iff row_ok_def items_of_def d' same)
  moreover have "orders_sound d'" "orders_complete d'"
    using base(4,5) by (simp_all add: orders_sound_def orders_complete_def order_ok_def[abs_def] order_lines_def
        item_lines_def items_of_def find_order_def d' same)
  ultimately show ?thesis using bal by (simp add: shop_inv_def) (simp add: d' same)
qed

subsection \<open>The loop and its compensation\<close>

lemma shop_inv_offers:
  assumes inv: "shop_inv d" and eq: "d' = d\<lparr>offers := os\<rparr>" and ok: "offers_ok d'"
    and same: "\<And>p v. is_internal d v \<Longrightarrow> reserved_at d' p v = reserved_at d p v"
  shows "shop_inv d'"
proof -
  note base = shop_invD [OF inv]
  have "balanced d'"
    using base(6,7,9) ok same by (auto simp: balanced_def keys_ok_def rows_ok_def ledger_def held_at_def eq)
  moreover have "coherent d'" using base(2) by (simp add: coherent_def settled_def belongs_def eq)
  moreover have "list_all (row_ok d') (reservations d')"
    using base(3) by (simp add: list_all_iff row_ok_def items_of_def eq)
  moreover have "orders_sound d'" "orders_complete d'"
    using base(4,5) by (simp_all add: orders_sound_def orders_complete_def order_ok_def [abs_def]
        order_lines_def item_lines_def items_of_def find_order_def eq)
  ultimately show ?thesis by (simp add: shop_inv_def)
qed

lemma moved_only_row: "moved rid f Map.empty d (map_reservation rid f d)"
proof -
  have "map_reservation rid f d = (map_reservation rid f d)\<lparr>allocations := restatus Map.empty (allocations d),
      offers := offers d, operations := operations d\<rparr>"
    by (simp add: restatus_def map_reservation_def)
  then show ?thesis unfolding moved_def by blast
qed

text \<open>Changing a row without its identity, status or target keeps the invariant.\<close>

lemma shop_inv_row:
  assumes inv: "shop_inv d" and id: "keeps_identity f"
    and same: "\<And>r. r_status (f r) = r_status r \<and> r_target (f r) = r_target r"
    and r: "find_reservation rid d = Some r" "r_status r \<noteq> M_Confirmed"
  shows "shop_inv (map_reservation rid f d)"
proof -
  let ?d = "map_reservation rid f d"
  note base = shop_invD [OF inv] and mv = moved_only_row [of rid f d]
  have r': "r \<in> set (reservations d)" "r_id r = rid" using r(1) base(6) by (simp_all add: find_reservation_iff)
  have self: "settled ?d rid (r_status (f x))" if "x \<in> set (reservations d)" "r_id x = rid" for x
  proof (rule settled_moved [OF mv])
    show "settled d rid (r_status (f x))" using base(2) that same by (auto simp: coherent_def)
  qed simp
  have "coherent ?d" by (rule coherent_moved [OF mv base(2) id base(6)]) (use self in auto)
  moreover have "list_all (row_ok ?d) (reservations ?d)"
    by (rule rows_moved [OF mv id base(3)]) (use base(3) same in \<open>auto simp: row_ok_def status_ok_def\<close>)
  moreover have none: "find_order rid d = None" using no_order [OF base(4,6) r'(1) r(2)] r'(2) by simp
  then have "orders_sound ?d" by (rule orders_sound_moved [OF mv id base(4)])
  moreover have "orders_complete ?d"
    using base(5) same none id
    by (auto simp: orders_complete_def moved_simps(8) [OF mv] set_update_where keeps_identity_def)
  moreover have "balanced ?d" using base(1) id by (simp add: balanced_map_reservation keeps_identity_def)
  ultimately show ?thesis by (simp add: shop_inv_def)
qed

definition others :: "uuid \<Rightarrow> database \<Rightarrow> allocation_row list" where
  "others rid d = filter (\<lambda>a. \<not> belongs d rid a) (allocations d)"

lemma others_moved:
  assumes mv: "moved rid f m d d'"
    and none: "\<And>a. a \<in> set (allocations d) \<Longrightarrow> \<not> belongs d rid a \<Longrightarrow> m (al_id a) = None"
  shows "others rid d' = others rid d"
proof -
  have "filter (\<lambda>a. \<not> belongs d rid a) (restatus m as) = filter (\<lambda>a. \<not> belongs d rid a) as"
    if "set as \<subseteq> set (allocations d)" for as
    using that none by (induction as) (auto simp: restatus_def belongs_restatus)
  then show ?thesis by (simp add: others_def moved_simps [OF mv])
qed

lemma others_release:
  assumes "balanced (w_db w)" and "release_reservation E rid terminal ctx w = (Inr u, w')"
    and "\<forall>a\<in>set (allocations (w_db w)). belongs (w_db w) rid a \<longrightarrow>
      is_internal (w_db w) (al_provider a) \<longrightarrow> releasable (al_status a)"
  shows "others rid (w_db w') = others rid (w_db w)"
proof -
  have "keys_ok (w_db w)" using assms(1) by (simp add: balanced_def)
  with release_reservation_effect [OF assms] show ?thesis
    by (auto intro!: others_moved loop_map_other)
qed

lemma pending_releasable:
  assumes "shop_inv d" and "find_reservation rid d = Some r" and "r_status r = M_Pending"
  shows "\<forall>a\<in>set (allocations d). belongs d rid a \<longrightarrow> is_internal d (al_provider a) \<longrightarrow> releasable (al_status a)"
proof -
  have "r \<in> set (reservations d)" "r_id r = rid"
    using assms(2) shop_invD(6) [OF assms(1)] by (simp_all add: find_reservation_iff)
  then have "settled d rid M_Pending" using shop_invD(2) [OF assms(1)] assms(3) by (auto simp: coherent_def)
  then show ?thesis by (auto simp: settled_def releasable_def)
qed

text \<open>A run of the loop: the invariant, the other reservations' allocations, and on failure the status.\<close>

lemma hold_items_inv:
  "shop_inv (w_db w) \<Longrightarrow> find_reservation rid (w_db w) = Some r \<Longrightarrow> r_status r = M_Pending \<Longrightarrow>
   \<forall>i\<in>set its. i \<in> set (items (w_db w)) \<and> ri_reservation i = rid \<Longrightarrow>
   hold_items E rid its w = (Inr held, w') \<Longrightarrow>
   shop_inv (w_db w') \<and> others rid (w_db w') = others rid (w_db w) \<and> providers (w_db w') = providers (w_db w) \<and>
   (\<exists>r'. find_reservation rid (w_db w') = Some r' \<and>
      (if held then r_status r' = M_Pending else r_status r' = M_Failed \<or>
         (r_status r' = M_Releasing \<and> r_target r' = Some M_Failed)))"
proof (induction its arbitrary: w)
  case Nil
  then show ?case by (simp add: ret_def)
next
  case (Cons i its)
  let ?key = "hold_idempotency_key rid (ri_product i) (ri_provider i)"
  note base = shop_invD [OF Cons.prems(1)]
  from Cons.prems(5) obtain hold w1 where
    hold: "try_hold_selected E (ri_product i) (ri_provider i) (ri_quantity i) ?key w = (Inr hold, w1)"
    by (auto simp: Let_def prog_simps split: prod.splits sum.splits)
  note h = hold_effect [OF base(8) hold]
  have i: "i \<in> set (items (w_db w))" "ri_reservation i = rid" using Cons.prems(4) by auto
  from h have d1: "w_db w1 = (w_db w)\<lparr>offers := offers (w_db w1)\<rparr>" by blast
  show ?case
  proof (cases hold)
    case (Some h')
    with Cons.prems(5) hold obtain d2 where
      ins: "insert_allocation (new_allocation (e_uuid E (w_ids w1)) i h' ?key) (w_db w1) = Inr d2"
      and rest: "hold_items E rid its (w1\<lparr>w_ids := Suc (w_ids w1), w_db := d2\<rparr>) = (Inr held, w')"
      by (auto simp: Let_def prog_simps split: prod.splits sum.splits)
    note one = held_item_inv [OF Cons.prems(1-3) i hold [unfolded Some] ins]
    have d2: "d2 = (w_db w1)\<lparr>allocations := allocations (w_db w1) @ [new_allocation (e_uuid E (w_ids w1)) i h' ?key]\<rparr>"
      using insert_allocation_Inr [OF ins] by blast
    have bel: "belongs d2 rid = belongs (w_db w) rid"
      by (rule ext) (simp add: belongs_def d2, subst d1, simp)
    have "belongs (w_db w) rid (new_allocation (e_uuid E (w_ids w1)) i h' ?key)"
      using i base(6) by (auto simp: belongs_def new_allocation_def find_item_iff)
    then have oth: "others rid d2 = others rid (w_db w)"
      unfolding others_def bel by (simp add: d2, subst d1, simp)
    have prov: "providers d2 = providers (w_db w)" by (simp add: d2, subst d1, simp)
    have "find_reservation rid d2 = Some r" using Cons.prems(2) one by (simp add: find_reservation_def)
    then show ?thesis using Cons.IH [OF _ _ Cons.prems(3) _ rest] one Cons.prems(4) oth prov by simp
  next
    case None
    with Cons.prems(5) hold obtain u w3 where
      rel: "release_reservation E rid M_Failed None
        (w1\<lparr>w_db := map_reservation rid (\<lambda>y. touch (w_now w1) y (set_failure y)) (w_db w1)\<rparr>) = (Inr u, w3)"
      and out: "w' = w3" "held = False"
      by (auto simp: Let_def andThen_def ret_def update_reservation_run split: prod.splits sum.splits)
    let ?f = "\<lambda>y. touch (w_now w1) y (set_failure y)"
    let ?w2 = "w1\<lparr>w_db := map_reservation rid ?f (w_db w1)\<rparr>"
    have inv1: "shop_inv (w_db w1)"
      by (rule shop_inv_offers [OF Cons.prems(1) d1]) (use h None in simp_all)
    have res1: "find_reservation rid (w_db w1) = Some r" using Cons.prems(2) by (subst d1) simp
    have id: "keeps_identity ?f" by (simp add: keeps_identity_def set_failure_def)
    have inv2: "shop_inv (w_db ?w2)"
      using shop_inv_row [OF inv1 id _ res1] Cons.prems(3) by (simp add: set_failure_def)
    have res2: "find_reservation rid (w_db ?w2) = Some (?f r)"
      using res1 by (simp add: find_reservation_map set_failure_def)
    have st2: "r_status (?f r) = M_Pending" using Cons.prems(3) by (simp add: set_failure_def)
    note fit = pending_releasable [OF inv2 res2 st2]
    have row: "?f r \<in> set (reservations (w_db ?w2))" "r_id (?f r) = rid"
      using res2 shop_invD(6) [OF inv2] by (simp_all add: find_reservation_iff)
    have inv3: "shop_inv (w_db w3)"
      by (rule release_keeps_inv [OF inv2 rel row]) (use st2 fit in auto)
    obtain os f where f: "after_release os M_Failed f"
      "moved rid f (loop_map (allocations_of rid (w_db ?w2)) released_status os) (w_db ?w2) (w_db w3)"
      using release_reservation_effect [OF shop_invD(1) [OF inv2] rel fit] by blast
    have "keeps_identity f" using f(1) by (simp add: after_release_def)
    then have "find_reservation rid (w_db w3) = Some (f (?f r))"
      using find_reservation_moved [OF f(2)] res2 by simp
    moreover have "r_status (f y) = M_Failed \<or> (r_status (f y) = M_Releasing \<and> r_target (f y) = Some M_Failed)" for y
      using f(1) by (cases "list_all (\<lambda>x. x = R_Released) os") (auto simp: after_release_def)
    moreover have "others rid (w_db w3) = others rid (w_db ?w2)"
      by (rule others_release [OF shop_invD(1) [OF inv2] rel fit])
    moreover have "belongs (w_db w1) rid = belongs (w_db w) rid"
      by (rule ext) (simp add: belongs_def, subst d1, simp)
    then have "others rid (w_db ?w2) = others rid (w_db w)" by (simp add: others_def, subst d1, simp)
    moreover have "providers (w_db w3) = providers (w_db w)"
      using moved_simps(4) [OF f(2)] by (simp add: map_reservation_def, subst d1, simp)
    ultimately show ?thesis using inv3 out by simp
  qed
qed

lemma start_to_model:
  assumes "start dr = Inr r" and "to_model now r = Inr row"
  shows "r_id row = res_id r \<and> r_status row = M_Pending \<and> r_target row = None \<and>
    r_created row < r_expires row \<and> res_items r \<noteq> [] \<and> r_user row = res_user r \<and> r_key row = res_key r \<and>
    r_fingerprint row = res_fingerprint r"
  using assms by (auto simp: start_Inr to_model_def optional_status_def)

text \<open>The reservation and its items are in, and the loop is about to start.\<close>

lemma added_rows:
  assumes inv: "shop_inv (w_db w)" and st: "start dr = Inr r" and run: "add_with_hold E r w = (Inr held, w')"
  obtains row rows w2 where "hold_items E (res_id r) rows w2 = (Inr held, w')" "shop_inv (w_db w2)"
    "r_id row = res_id r" "r_status row = M_Pending" "find_reservation (res_id r) (w_db w) = None"
    "w_db w2 = (w_db w)\<lparr>reservations := reservations (w_db w) @ [row], items := items (w_db w) @ rows\<rparr>"
    "find_reservation (res_id r) (w_db w2) = Some row"
    "\<forall>i\<in>set rows. i \<in> set (items (w_db w2)) \<and> ri_reservation i = res_id r"
    "items_of (res_id r) (w_db w2) = rows" "others (res_id r) (w_db w2) = allocations (w_db w)"
proof -
  from run obtain row d1 rows w2 where row: "to_model (w_now w) r = Inr row"
    and ins: "insert_reservation row (w_db w) = Inr d1"
    and its: "insert_items E (res_id r) (res_items r) (w\<lparr>w_db := d1\<rparr>) = (Inr rows, w2)"
    and loop: "hold_items E (res_id r) rows w2 = (Inr held, w')"
    by (auto simp: add_with_hold_def prog_simps split: prod.splits sum.splits)
  note start = start_to_model [OF st row] and one = insert_reservation_Inr [OF ins]
  note items = insert_items_effect [OF its]
  have d1: "d1 = (w_db w)\<lparr>reservations := reservations (w_db w) @ [row]\<rparr>" using one by blast
  have w2: "w_db w2 = (w_db w)\<lparr>reservations := reservations (w_db w) @ [row],
      items := items (w_db w) @ rows\<rparr>"
    using items by (simp add: d1)
  have fresh: "fresh_items (r_id row) (res_items r) rows ((w_db w)\<lparr>reservations := reservations (w_db w) @ [row]\<rparr>)"
    using items start by (simp add: d1)
  have inv2: "shop_inv (w_db w2)"
    unfolding w2 using new_rows_inv [OF inv _ _ _ _ fresh] one start by simp
  have new: "find_reservation (res_id r) (w_db w) = None" using one start by simp
  have res2: "find_reservation (res_id r) (w_db w2) = Some row"
    using new start by (simp add: w2 find_reservation_def find_append)
  have mem: "\<forall>i\<in>set rows. i \<in> set (items (w_db w2)) \<and> ri_reservation i = res_id r"
    using fresh start by (auto simp: w2 fresh_items_def)
  have foreign: "ri_reservation x \<noteq> res_id r" if "x \<in> set (items (w_db w))" for x
    using shop_invD(7) [OF inv] that new by (auto simp: rows_ok_def list_all_iff)
  have "filter (\<lambda>i. ri_reservation i = res_id r) rows = rows" using mem by (simp add: filter_id_conv)
  then have own: "items_of (res_id r) (w_db w2) = rows"
    using foreign by (simp add: items_of_def w2 filter_empty_conv)
  have "\<not> belongs (w_db w2) (res_id r) a" if a: "a \<in> set (allocations (w_db w))" for a
  proof
    assume "belongs (w_db w2) (res_id r) a"
    then obtain x where x: "find_item (al_item a) (w_db w2) = Some x" "ri_reservation x = res_id r"
      by (auto simp: belongs_def)
    have "find_item (al_item a) (w_db w) \<noteq> None"
      using shop_invD(7) [OF inv] a by (simp add: rows_ok_def list_all_iff)
    then have "find_item (al_item a) (w_db w) = Some x"
      using x(1) by (auto simp: w2 find_item_def find_append split: option.splits)
    then have "x \<in> set (items (w_db w))" by (auto simp: find_item_def dest: find_SomeD)
    with foreign x(2) show False by simp
  qed
  then have "others (res_id r) (w_db w2) = allocations (w_db w)"
    unfolding others_def by (simp add: w2 filter_id_conv)
  with start show ?thesis by (intro that [OF loop inv2 _ _ new w2 res2 mem own]) simp_all
qed

lemma add_with_hold_inv:
  assumes inv: "shop_inv (w_db w)" and st: "start dr = Inr r" and run: "add_with_hold E r w = (Inr held, w')"
  shows "shop_inv (w_db w') \<and> find_reservation (res_id r) (w_db w) = None \<and>
    others (res_id r) (w_db w') = allocations (w_db w) \<and> providers (w_db w') = providers (w_db w) \<and>
    (\<exists>r'. find_reservation (res_id r) (w_db w') = Some r' \<and>
      (if held then r_status r' = M_Pending else r_status r' = M_Failed \<or>
         (r_status r' = M_Releasing \<and> r_target r' = Some M_Failed)))"
proof (rule added_rows [OF assms])
  fix row rows w2
  assume loop: "hold_items E (res_id r) rows w2 = (Inr held, w')" and "shop_inv (w_db w2)"
    and "r_status row = M_Pending" "find_reservation (res_id r) (w_db w) = None"
    and "w_db w2 = (w_db w)\<lparr>reservations := reservations (w_db w) @ [row], items := items (w_db w) @ rows\<rparr>"
    and "find_reservation (res_id r) (w_db w2) = Some row"
    and "\<forall>i\<in>set rows. i \<in> set (items (w_db w2)) \<and> ri_reservation i = res_id r"
    and "others (res_id r) (w_db w2) = allocations (w_db w)"
  with hold_items_inv [OF _ _ _ _ loop] show ?thesis by simp
qed

end
