(* ===== verification/Reservation_Service.thy ===== *)
theory Reservation_Service
  imports Reservation_Creation
begin

section \<open>The reservation service\<close>

text \<open>
  \<open>service/reservation.py\<close>: the use cases over the repository, each in its own transaction.
  \<open>other\<close> is what concurrent transactions commit between a creation's lookup of its
  idempotency key and its insertion, the window the unique constraint closes.
\<close>

definition create_body :: "environment \<Rightarrow> (database \<Rightarrow> database) \<Rightarrow> duration \<Rightarrow> uuid \<Rightarrow> item list \<Rightarrow>
    string \<Rightarrow> (reservation + reservation \<times> bool) io" where
  "create_body E other ttl user its key =
     (let fingerprint = reservation_request_fingerprint its in
      andThen (get_by_idempotency_key user key) (\<lambda>existing. case existing of
        Some r \<Rightarrow> andThen (lift_sum (resolve_idempotent_retry r key fingerprint)) (\<lambda>x. ret (Inl x))
      | None \<Rightarrow>
          andThen (fresh_uuid E) (\<lambda>rid.
          andThen (read_clock (e_utc E)) (\<lambda>now.
          andThen (lift_sum (start \<lparr>dr_id = rid, dr_user = user, dr_items = its, dr_key = key,
            dr_fingerprint = fingerprint, dr_now = now, dr_ttl = ttl\<rparr>)) (\<lambda>r.
          andThen (interfere other) (\<lambda>_.
          andThen (add_with_hold E r) (\<lambda>held. ret (Inr (r, held)))))))))"

definition create :: "environment \<Rightarrow> (database \<Rightarrow> database) \<Rightarrow> duration \<Rightarrow> uuid \<Rightarrow> item list \<Rightarrow>
    string \<Rightarrow> reservation io" where
  "create E other ttl user its key =
     andThen (catch (reservation_transaction E (create_body E other ttl user its key))) (\<lambda>result.
       case result of
         Inl ConcurrentReservationCreationError \<Rightarrow>
           andThen (reservation_transaction E (get_by_idempotency_key user key)) (\<lambda>existing. case existing of
             None \<Rightarrow> raise ConcurrentReservationCreationError
           | Some r \<Rightarrow> lift_sum (resolve_idempotent_retry r key (reservation_request_fingerprint its)))
       | Inl e \<Rightarrow> raise e
       | Inr (Inl r) \<Rightarrow> ret r
       | Inr (Inr (r, held)) \<Rightarrow> if held then ret r else raise (InsufficientInventoryError its))"

definition get :: "environment \<Rightarrow> uuid \<Rightarrow> reservation option io" where
  "get E rid = reservation_transaction E (repo_get rid)"

definition confirm :: "environment \<Rightarrow> uuid \<Rightarrow> uuid \<Rightarrow> reservation option io" where
  "confirm E rid user = reservation_transaction E (repo_confirm E rid user)"

definition cancel :: "environment \<Rightarrow> uuid \<Rightarrow> uuid \<Rightarrow> reservation option io" where
  "cancel E rid user = reservation_transaction E (repo_cancel E rid user)"

text \<open>\<open>run_once\<close> of the two workers\<close>

definition expire_once :: "environment \<Rightarrow> int \<Rightarrow> reservation list io" where
  "expire_once E batch_size = reservation_transaction E
     (andThen (read_clock (e_utc E)) (\<lambda>now. expire_batch E now batch_size))"

definition reconcile_once :: "environment \<Rightarrow> int \<Rightarrow> int \<Rightarrow> duration \<Rightarrow> reservation list io" where
  "reconcile_once E batch_size max_attempts delay = reservation_transaction E
     (andThen (read_clock (e_utc E)) (\<lambda>now. reconcile_batch E now batch_size max_attempts delay))"

subsection \<open>No operation but an interference writes the saved copy\<close>

lemma keeps_saved_offers [keeps_intros]: "keeps w_saved (observe_availability p v a)"
    "keeps w_saved (get_snapshot p v)" "keeps w_saved (try_hold p v q)" "keeps w_saved (confirm_hold p v q)"
    "keeps w_saved (release_hold p v q)"
  unfolding observe_availability_def get_snapshot_def try_hold_def confirm_hold_def release_hold_def
  by (auto intro!: keeps_intros split: prod.split option.split availability_outcome.split)

lemma keeps_saved_check:
  assumes "honest_port E internal p"
  shows "keeps w_saved (check_candidate ids (observe_availability x) p cmd)" "keeps w_saved (pt_hold p cmd)"
  using assms by (auto simp: honest_port_def check_candidate_def internal_port_def external_port_def
      intro!: keeps_intros)

lemma keeps_saved_router:
  "\<forall>p\<in>set ps. honest_port E internal p \<Longrightarrow>
   keeps w_saved (router_hold ids (observe_availability x) ps cmd)"
  by (induction ps) (auto intro!: keeps_intros keeps_saved_check)

lemma keeps_saved_try_hold_selected [keeps_intros]: "keeps w_saved (try_hold_selected E p v q key)"
proof (rule keepsI)
  fix w r w'
  assume run: "try_hold_selected E p v q key w = (r, w')"
  let ?cs = "routing_candidates p v (w_db w)"
  obtain x w1 where conf: "configure E ?cs w = (x, w1)" by fastforce
  have "keeps w_saved (configure E ?cs)"
    unfolding configure_def
    by (intro keeps_intros) (auto simp: hold_provider_def Let_def intro!: keeps_intros split: prod.split)
  with conf have saved: "w_saved w1 = w_saved w" by (blast dest: keepsD)
  show "w_saved w' = w_saved w"
  proof (cases x)
    case (Inl e)
    with run conf saved show ?thesis by (simp add: try_hold_selected_def prog_simps)
  next
    case (Inr configured)
    have "\<forall>(y, c)\<in>set ?cs. is_internal (w_db w) (v_id y) = (v_kind y = Internal)"
      by (auto dest!: routing_candidates_mem simp: is_internal_def)
    from configure_Inr [OF conf [unfolded Inr] this]
    have "\<forall>p\<in>set (map snd configured). honest_port E (is_internal (w_db w)) p" by auto
    moreover have "router_hold (checks_availability configured) (observe_availability p) (map snd configured)
        \<lparr>hc_product = p, hc_quantity = q, hc_key = key\<rparr> w1 = (r, w')"
      using run conf Inr by (simp add: try_hold_selected_def prog_simps)
    ultimately have "w_saved w' = w_saved w1" by (blast intro: keepsD keeps_saved_router)
    with saved show ?thesis by simp
  qed
qed

lemma keeps_saved_rows [keeps_intros]: "keeps w_saved (update_reservation rid f)"
    "keeps w_saved (set_allocation_status aid st)" "keeps w_saved (row_to_domain r)"
    "keeps w_saved (reload_domain rid)"
  unfolding update_reservation_def set_allocation_status_def row_to_domain_def reload_domain_def
  by (intro keeps_intros)+

lemma keeps_saved_external [keeps_intros]: "keeps w_saved (confirm_external_hold E ctx a pr c)"
    "keeps w_saved (release_external_hold E ctx a pr c)"
  unfolding confirm_external_hold_def release_external_hold_def open_operation_def Let_def
  by (intro keeps_intros)+

lemma keeps_saved_steps [keeps_intros]: "keeps w_saved (confirm_step E ctx j)"
    "keeps w_saved (release_step E ctx j)"
  unfolding confirm_step_def release_step_def confirm_allocation_def release_allocation_def Let_def
  by (intro keeps_intros)+

lemma keeps_saved_release [keeps_intros]: "keeps w_saved (release_reservation E rid t ctx)"
  unfolding release_reservation_def by (intro keeps_intros)

lemma keeps_saved_ensure_order [keeps_intros]: "keeps w_saved (ensure_order E r)"
  unfolding ensure_order_def insert_line_def [abs_def] by (intro keeps_intros)

lemma keeps_saved_confirm [keeps_intros]: "keeps w_saved (confirm_reservation E r ctx)"
  unfolding confirm_reservation_def by (intro keeps_intros)

lemma keeps_saved_hold_items [keeps_intros]: "keeps w_saved (hold_items E rid its)"
  by (induction its) (auto simp: Let_def intro!: keeps_intros)

lemma keeps_saved_add [keeps_intros]: "keeps w_saved (add_with_hold E r)"
  unfolding add_with_hold_def insert_items_def by (intro keeps_intros)

lemma keeps_saved_repo [keeps_intros]: "keeps w_saved (repo_confirm E rid user)"
    "keeps w_saved (repo_cancel E rid user)" "keeps w_saved (get_by_idempotency_key user key)"
    "keeps w_saved (repo_get rid)" "keeps w_saved (reload_all rows)"
  unfolding repo_confirm_def repo_cancel_def get_by_idempotency_key_def repo_get_def reload_all_def
  by (intro keeps_intros)+

lemma keeps_saved_batches [keeps_intros]: "keeps w_saved (expire_batch E now lim)"
    "keeps w_saved (reconcile_batch E now lim n delay)"
  unfolding expire_batch_def reconcile_batch_def reconcile_one_def Let_def
  by (intro keeps_intros)+

lemma keeps_saved_clock_then [keeps_intros]:
  "(\<And>x. keeps w_saved (k x)) \<Longrightarrow> keeps w_saved (andThen (read_clock c) k)"
  by (intro keeps_intros)

lemma keeps_db_domain [keeps_intros]: "keeps w_db (row_to_domain r)" "keeps w_db (reload_domain rid)"
    "keeps w_db (reload_all rows)" "keeps w_db (get_by_idempotency_key user key)" "keeps w_db (repo_get rid)"
  unfolding row_to_domain_def reload_domain_def reload_all_def get_by_idempotency_key_def repo_get_def
  by (intro keeps_intros)+

text \<open>An operation in a transaction keeps an invariant if its body does when it returns.\<close>

lemma transaction_inv:
  assumes "\<And>x w1. m (begin_transaction E w) = (Inr x, w1) \<Longrightarrow> P (w_db w1)" and "P (w_db w)"
    and "keeps w_saved m" and "reservation_transaction E m w = (r, w')"
  shows "P (w_db w')"
proof (cases r)
  case (Inl e)
  with assms(3,4) have "w_db w' = w_db w" by (auto dest: reservation_transaction_rollback)
  with assms(2) show ?thesis by simp
next
  case (Inr x)
  with assms(1,4) show ?thesis by (simp add: reservation_transaction_Inr)
qed

subsection \<open>The life of a reservation\<close>

text \<open>
  The statuses a reservation may reach from one it has, while callers keep to the guards below:
  confirmed, cancelled and failed are final. Expired may be cancelled later, through releasing.
\<close>

fun may_become :: "status_model \<Rightarrow> status_model \<Rightarrow> bool" where
  "may_become M_Pending st = (st \<noteq> M_Reserving \<and> st \<noteq> M_Active)"
| "may_become M_Confirming st = (st \<in> {M_Confirming, M_Confirmed, M_Failed})"
| "may_become M_Releasing st = (st \<in> {M_Releasing, M_Cancelled, M_Expired, M_Failed})"
| "may_become M_Expired st = (st \<in> {M_Releasing, M_Cancelled, M_Expired, M_Failed})"
| "may_become s st = (st = s)"

lemma may_become_refl [simp]: "may_become st st"
  by (cases st) auto

lemma may_become_trans: "may_become a b \<Longrightarrow> may_become b c \<Longrightarrow> may_become a c"
  by (cases a; cases b) auto

fun_cases may_become_confirmedE: "may_become M_Confirmed st"
  and may_become_cancelledE: "may_become M_Cancelled st"
  and may_become_failedE: "may_become M_Failed st"

lemma final_status:
  assumes "may_become st st'" and "st \<in> {M_Confirmed, M_Cancelled, M_Failed}"
  shows "st' = st"
  using assms by (auto elim: may_become_confirmedE may_become_cancelledE may_become_failedE)

text \<open>
  Statuses ordered by what may come later. It is no partial order: a reservation whose release fails
  goes back and forth between expired and releasing.
\<close>

instantiation status_model :: preorder
begin

definition less_eq_status_model :: "status_model \<Rightarrow> status_model \<Rightarrow> bool" where
  [simp]: "less_eq_status_model st st' = may_become st st'"

definition less_status_model :: "status_model \<Rightarrow> status_model \<Rightarrow> bool" where
  "less_status_model st st' \<longleftrightarrow> st \<le> st' \<and> \<not> st' \<le> st"

instance
proof
  fix a b c :: status_model
  show "a < b \<longleftrightarrow> a \<le> b \<and> \<not> b \<le> a" by (rule less_status_model_def)
  show "a \<le> a" by simp
  show "a \<le> b \<Longrightarrow> b \<le> c \<Longrightarrow> a \<le> c" using may_become_trans [of a b c] by simp
qed

end

definition same_request :: "reservation_row \<Rightarrow> reservation_row \<Rightarrow> bool" where
  "same_request r r' \<longleftrightarrow> r_id r' = r_id r \<and> r_user r' = r_user r \<and> r_key r' = r_key r \<and>
     r_fingerprint r' = r_fingerprint r \<and> r_created r' = r_created r \<and> r_expires r' = r_expires r"

text \<open>What was taken for a reservation, and from whom; the statuses come and go.\<close>

definition holding :: "allocation_row \<Rightarrow> uuid \<times> uuid \<times> uuid \<times> int" where
  "holding a = (al_id a, al_item a, al_provider a, al_quantity a)"

definition holds_of :: "uuid \<Rightarrow> database \<Rightarrow> (uuid \<times> uuid \<times> uuid \<times> int) list" where
  "holds_of rid d = map holding (filter (belongs d rid) (allocations d))"

definition evolves :: "database \<Rightarrow> database \<Rightarrow> bool" where
  "evolves d d' \<longleftrightarrow> (\<forall>rid r. find_reservation rid d = Some r \<longrightarrow> (\<exists>r'. find_reservation rid d' = Some r' \<and>
     same_request r r' \<and> r_status r \<le> r_status r' \<and> items_of rid d' = items_of rid d \<and>
     holds_of rid d' = holds_of rid d))"

lemma evolves_refl [simp]: "evolves d d"
  by (simp add: evolves_def same_request_def)

lemma same_request_trans: "same_request a b \<Longrightarrow> same_request b c \<Longrightarrow> same_request a c"
  by (simp add: same_request_def)

lemma evolvesD:
  assumes "evolves d d'" and "find_reservation rid d = Some r"
  obtains r' where "find_reservation rid d' = Some r'" "same_request r r'"
    "may_become (r_status r) (r_status r')" "items_of rid d' = items_of rid d" "holds_of rid d' = holds_of rid d"
  using assms unfolding evolves_def less_eq_status_model_def by blast

lemma evolves_trans:
  assumes "evolves d d'" and "evolves d' d''"
  shows "evolves d d''"
  unfolding evolves_def less_eq_status_model_def
proof (intro allI impI)
  fix rid r
  assume "find_reservation rid d = Some r"
  with assms(1) obtain r1 where one: "find_reservation rid d' = Some r1" "same_request r r1"
      "may_become (r_status r) (r_status r1)" "items_of rid d' = items_of rid d" "holds_of rid d' = holds_of rid d"
    by (rule evolvesD)
  from assms(2) one(1) obtain r2 where "find_reservation rid d'' = Some r2" "same_request r1 r2"
      "may_become (r_status r1) (r_status r2)" "items_of rid d'' = items_of rid d'" "holds_of rid d'' = holds_of rid d'"
    by (rule evolvesD)
  with one show "\<exists>r'. find_reservation rid d'' = Some r' \<and> same_request r r' \<and>
      may_become (r_status r) (r_status r') \<and> items_of rid d'' = items_of rid d \<and> holds_of rid d'' = holds_of rid d"
    by (metis may_become_trans same_request_trans)
qed

text \<open>An operation that left the reservations and items alone.\<close>

lemma evolves_same:
  "reservations d' = reservations d \<Longrightarrow> items d' = items d \<Longrightarrow> allocations d' = allocations d \<Longrightarrow> evolves d d'"
  by (simp add: evolves_def find_reservation_def items_of_def same_request_def holds_of_def belongs_def [abs_def]
      find_item_def)

lemma holds_of_moved: "moved rid f m d d' \<Longrightarrow> holds_of x d' = holds_of x d"
proof -
  assume mv: "moved rid f m d d'"
  have "map holding (filter (belongs d x) (restatus m as)) = map holding (filter (belongs d x) as)" for as
    by (induction as) (auto simp: restatus_def belongs_restatus holding_def)
  moreover have "belongs d' x = belongs d x" by (rule ext) (rule moved_simps(11) [OF mv])
  ultimately show ?thesis by (simp add: holds_of_def moved_simps(7) [OF mv])
qed

lemma evolves_moved:
  assumes mv: "moved rid f m d d'" and id: "keeps_identity f"
    and st: "\<And>r. find_reservation rid d = Some r \<Longrightarrow> may_become (r_status r) (r_status (f r))"
  shows "evolves d d'"
  using st id
  by (auto simp: evolves_def find_reservation_moved [OF mv id] moved_simps [OF mv] same_request_def
      keeps_identity_def holds_of_moved [OF mv])

subsection \<open>Each operation keeps the invariant\<close>

lemma owned_reservation_Some:
  "owned_reservation rid user d = Some r \<Longrightarrow> r \<in> set (reservations d) \<and> r_id r = rid \<and> r_user r = user"
  unfolding owned_reservation_def by (drule find_SomeD) simp

lemma settled_releasable:
  assumes inv: "shop_inv d" and r: "r \<in> set (reservations d)"
    and st: "r_status r \<in> {M_Pending, M_Releasing, M_Expired}"
  shows "\<forall>a\<in>set (allocations d). belongs d (r_id r) a \<longrightarrow> is_internal d (al_provider a) \<longrightarrow> releasable (al_status a)"
  using shop_invD(2) [OF inv] r st by (auto simp: coherent_def settled_def releasable_def)

lemma release_inv:
  assumes inv: "shop_inv (w_db w)" and run: "release_reservation E (r_id r) terminal ctx w = (Inr u, w')"
    and r: "r \<in> set (reservations (w_db w))" "r_status r \<in> {M_Pending, M_Releasing, M_Expired}"
    and terminal: "terminal \<in> {M_Cancelled, M_Expired, M_Failed}"
  shows "shop_inv (w_db w') \<and> evolves (w_db w) (w_db w') \<and>
    (\<forall>x. x \<noteq> r_id r \<longrightarrow> find_reservation x (w_db w') = find_reservation x (w_db w))"
proof (intro conjI)
  note fit = settled_releasable [OF inv r]
  have "r_status r \<noteq> M_Confirmed" using r(2) by auto
  then show "shop_inv (w_db w')" using release_keeps_inv [OF inv run r(1) _ _ terminal fit] by simp
  obtain os f where f: "after_release os terminal f"
    and mv: "moved (r_id r) f (loop_map (allocations_of (r_id r) (w_db w)) released_status os) (w_db w) (w_db w')"
    using release_reservation_effect [OF shop_invD(1) [OF inv] run fit] by blast
  have id: "keeps_identity f" using f by (simp add: after_release_def)
  have "r_status (f x) = terminal \<or> r_status (f x) = M_Releasing" for x
    using f unfolding after_release_def by metis
  then have "may_become (r_status r) (r_status (f x))" for x
    using r(2) terminal by (metis empty_iff insert_iff may_become.simps(1,3,4) status_model.distinct)
  moreover have "find_reservation (r_id r) (w_db w) = Some r"
    using r(1) shop_invD(6) [OF inv] by (simp add: find_reservation_iff)
  ultimately show "evolves (w_db w) (w_db w')" by (intro evolves_moved [OF mv id]) simp
  show "\<forall>x. x \<noteq> r_id r \<longrightarrow> find_reservation x (w_db w') = find_reservation x (w_db w)"
    by (auto simp: find_reservation_moved [OF mv id] option.map_id0 [unfolded id_def])
qed

lemma confirm_inv:
  assumes inv: "shop_inv (w_db w)" and r: "r \<in> set (reservations (w_db w))"
    and st: "r_status r = M_Pending \<or> r_status r = M_Confirming"
    and run: "confirm_reservation E r ctx w = (Inr x, w')"
  shows "shop_inv (w_db w') \<and> evolves (w_db w) (w_db w') \<and>
    (\<forall>x. x \<noteq> r_id r \<longrightarrow> find_reservation x (w_db w') = find_reservation x (w_db w))"
proof (intro conjI)
  show "shop_inv (w_db w')" by (rule confirm_keeps_inv [OF assms])
  obtain os f w1 where id: "keeps_identity f" and res: "\<forall>y. r_status (f y) = confirm_result os"
    and mv: "moved (r_id r) f (loop_map (allocations_of (r_id r) (w_db w)) confirmed_status os) (w_db w) (w_db w1)"
    and ord: "if confirm_result os = M_Confirmed then \<exists>w2. ensure_order E r w1 = (Inr (), w2) \<and> w_db w' = w_db w2
       else w_db w' = w_db w1"
    using confirm_reservation_effect [OF assms] by blast
  have none: "find_order (r_id r) (w_db w1) = None"
    using no_order [OF shop_invD(4,6) [OF inv] r] st by (auto simp: moved_simps [OF mv])
  have same: "reservations (w_db w') = reservations (w_db w1) \<and> items (w_db w') = items (w_db w1) \<and>
      allocations (w_db w') = allocations (w_db w1)"
    using ord ensure_order_effect [OF none] by (fastforce split: if_splits)
  then have "find_reservation x (w_db w') = find_reservation x (w_db w1)" for x
    by (simp add: find_reservation_def)
  moreover have "evolves (w_db w) (w_db w1)"
  proof (rule evolves_moved [OF mv id])
    fix x
    assume "find_reservation (r_id r) (w_db w) = Some x"
    then have "x = r" using r shop_invD(6) [OF inv] by (metis find_reservation_iff option.inject)
    then show "may_become (r_status x) (r_status (f x))" using st res by (auto simp: confirm_result_def)
  qed
  ultimately show "evolves (w_db w) (w_db w')"
    using same evolves_trans evolves_same by metis
  show "\<forall>x. x \<noteq> r_id r \<longrightarrow> find_reservation x (w_db w') = find_reservation x (w_db w)"
    using \<open>\<And>x. find_reservation x (w_db w') = find_reservation x (w_db w1)\<close>
    by (auto simp: find_reservation_moved [OF mv id] option.map_id0 [unfolded id_def])
qed

text \<open>The guards the workflow provides for; the code checks less, see the root theory.\<close>

definition confirm_guard :: "uuid \<Rightarrow> uuid \<Rightarrow> database \<Rightarrow> bool" where
  "confirm_guard rid user d \<longleftrightarrow> (case owned_reservation rid user d of None \<Rightarrow> True
     | Some r \<Rightarrow> r_status r \<notin> {M_Releasing, M_Expired, M_Failed})"

definition cancel_guard :: "uuid \<Rightarrow> uuid \<Rightarrow> database \<Rightarrow> bool" where
  "cancel_guard rid user d \<longleftrightarrow> (case owned_reservation rid user d of None \<Rightarrow> True
     | Some r \<Rightarrow> r_status r \<noteq> M_Failed)"

lemma ensure_order_existing: "find_order (r_id r) (w_db w) = Some od \<Longrightarrow> ensure_order E r w = (Inr (), w)"
  by (simp add: ensure_order_def prog_simps)

lemma repo_confirm_inv:
  assumes inv: "shop_inv (w_db w)" and guard: "confirm_guard rid user (w_db w)"
    and run: "repo_confirm E rid user w = (Inr x, w')"
  shows "shop_inv (w_db w') \<and> evolves (w_db w) (w_db w')"
proof (cases "owned_reservation rid user (w_db w)")
  case None
  with run inv show ?thesis by (simp add: repo_confirm_def prog_simps)
next
  case (Some r)
  note own = owned_reservation_Some [OF Some]
  then have ok: "row_ok (w_db w) r" using shop_invD(3) [OF inv] by blast
  consider "r_status r = M_Confirmed" | "r_status r = M_Pending \<or> r_status r = M_Confirming"
    using ok guard Some run by (cases "r_status r") (auto simp: row_ok_def status_ok_def confirm_guard_def repo_confirm_def prog_simps)
  then show ?thesis
  proof cases
    case 1
    then obtain od where "find_order (r_id r) (w_db w) = Some od"
      using shop_invD(5) [OF inv] own by (auto simp: orders_complete_def)
    with run Some 1 have "reload_domain (r_id r) w = (Inr x, w')"
      by (simp add: repo_confirm_def andThen_def db_query_def ensure_order_existing)
    then have "w_db w' = w_db w" by (rule keepsD [OF keeps_db_domain(2)])
    with inv show ?thesis by simp
  next
    case 2
    with run Some have "confirm_reservation E r (first_attempt (r_id r)) w = (Inr x, w')"
      by (auto simp: repo_confirm_def andThen_def db_query_def split: if_splits)
    with confirm_inv [OF inv _ 2] own show ?thesis by blast
  qed
qed

lemma repo_cancel_inv:
  assumes inv: "shop_inv (w_db w)" and guard: "cancel_guard rid user (w_db w)"
    and run: "repo_cancel E rid user w = (Inr x, w')"
  shows "shop_inv (w_db w') \<and> evolves (w_db w) (w_db w')"
proof (cases "owned_reservation rid user (w_db w)")
  case None
  with run inv show ?thesis by (simp add: repo_cancel_def prog_simps)
next
  case (Some r)
  note own = owned_reservation_Some [OF Some]
  then have ok: "row_ok (w_db w) r" using shop_invD(3) [OF inv] by blast
  show ?thesis
  proof (cases "r_status r = M_Cancelled")
    case True
    with run Some have "reload_domain (r_id r) w = (Inr x, w')"
      by (simp add: repo_cancel_def andThen_def db_query_def)
    then have "w_db w' = w_db w" by (rule keepsD [OF keeps_db_domain(2)])
    with inv show ?thesis by simp
  next
    case False
    then have st: "r_status r \<in> {M_Pending, M_Releasing, M_Expired}"
      using ok guard Some run by (cases "r_status r") (auto simp: row_ok_def status_ok_def cancel_guard_def repo_cancel_def prog_simps)
    with run Some False obtain u w1 where rel: "release_reservation E (r_id r) M_Cancelled None w = (Inr u, w1)"
      and dom: "reload_domain (r_id r) w1 = (Inr x, w')"
      by (auto simp: repo_cancel_def andThen_def db_query_def raise_def split: if_splits prod.splits sum.splits)
    have "shop_inv (w_db w1) \<and> evolves (w_db w) (w_db w1)" using release_inv [OF inv rel _ st] own by blast
    moreover have "w_db w' = w_db w1" by (rule keepsD [OF keeps_db_domain(2) dom])
    ultimately show ?thesis by simp
  qed
qed

text \<open>
  The batches work through rows their query returned; each row is still the one in the table when
  its turn comes, because the steps before it touched other reservations.
\<close>

lemma batch_loop_inv:
  assumes step: "\<And>r w w' u. r \<in> set rows \<Longrightarrow> shop_inv (w_db w) \<Longrightarrow> find_reservation (r_id r) (w_db w) = Some r \<Longrightarrow>
      f r w = (Inr u, w') \<Longrightarrow>
      shop_inv (w_db w') \<and> evolves (w_db w) (w_db w') \<and> (\<forall>x. x \<noteq> r_id r \<longrightarrow> find_reservation x (w_db w') = find_reservation x (w_db w))"
    and "shop_inv (w_db w)" and "distinct (map r_id rows)"
    and "\<forall>r\<in>set rows. find_reservation (r_id r) (w_db w) = Some r"
    and "for_each f rows w = (Inr us, w')"
  shows "shop_inv (w_db w') \<and> evolves (w_db w) (w_db w')"
  using assms
proof (induction rows arbitrary: w us)
  case Nil
  then show ?case by (simp add: ret_def)
next
  case (Cons r rows)
  from Cons.prems(5) obtain u w1 vs where one: "f r w = (Inr u, w1)"
    and rest: "for_each f rows w1 = (Inr vs, w')"
    by (auto simp: prog_simps split: prod.splits sum.splits)
  have first: "shop_inv (w_db w1) \<and> evolves (w_db w) (w_db w1) \<and>
      (\<forall>x. x \<noteq> r_id r \<longrightarrow> find_reservation x (w_db w1) = find_reservation x (w_db w))"
    using Cons.prems(1) [OF _ Cons.prems(2) _ one] Cons.prems(4) by simp
  have "shop_inv (w_db w') \<and> evolves (w_db w1) (w_db w')"
  proof (rule Cons.IH [OF _ _ _ _ rest])
    show "shop_inv (w_db w1)" using first by blast
    show "distinct (map r_id rows)" using Cons.prems(3) by simp
    show "\<forall>y\<in>set rows. find_reservation (r_id y) (w_db w1) = Some y"
    proof
      fix y
      assume y: "y \<in> set rows"
      then have "r_id y \<noteq> r_id r" using Cons.prems(3) by (simp add: image_iff) metis
      with first Cons.prems(4) y show "find_reservation (r_id y) (w_db w1) = Some y" by simp
    qed
  next
    fix x v v' u
    assume "x \<in> set rows" "shop_inv (w_db v)" "find_reservation (r_id x) (w_db v) = Some x" "f x v = (Inr u, v')"
    then show "shop_inv (w_db v') \<and> evolves (w_db v) (w_db v') \<and> (\<forall>y. y \<noteq> r_id x \<longrightarrow> find_reservation y (w_db v') = find_reservation y (w_db v))"
      using Cons.prems(1) by (meson list.set_intros(2))
  qed
  with first show ?case by (blast intro: evolves_trans)
qed

lemma batch_rows:
  assumes "keys_ok d"
  shows "distinct (map r_id (take n (sort_key k (filter P (reservations d)))))"
    and "r \<in> set (take n (sort_key k (filter P (reservations d)))) \<Longrightarrow> find_reservation (r_id r) d = Some r \<and> P r"
proof -
  have "distinct (map r_id (filter P (reservations d)))"
    using assms by (auto simp: keys_ok_def intro: distinct_map_filter)
  then have "distinct (map r_id (sort_key k (filter P (reservations d))))"
    by (simp add: distinct_map)
  then show "distinct (map r_id (take n (sort_key k (filter P (reservations d)))))"
    by (simp add: take_map [symmetric])
  assume "r \<in> set (take n (sort_key k (filter P (reservations d))))"
  then have "r \<in> set (reservations d) \<and> P r" by (auto dest: in_set_takeD)
  then show "find_reservation (r_id r) d = Some r \<and> P r" using assms by (simp add: find_reservation_iff)
qed

lemma expired_batch_rows:
  "keys_ok d \<Longrightarrow> distinct (map r_id (expired_batch now lim d)) \<and>
     (\<forall>r\<in>set (expired_batch now lim d). find_reservation (r_id r) d = Some r \<and> overdue now r)"
  unfolding expired_batch_def using batch_rows by blast

lemma reconcile_rows_rows:
  "keys_ok d \<Longrightarrow> distinct (map r_id (reconcile_rows now lim n d)) \<and>
     (\<forall>r\<in>set (reconcile_rows now lim n d). find_reservation (r_id r) d = Some r \<and> reconcilable now n d r)"
  unfolding reconcile_rows_def using batch_rows by blast

lemma expire_batch_inv:
  assumes inv: "shop_inv (w_db w)" and run: "expire_batch E now lim w = (Inr x, w')"
  shows "shop_inv (w_db w') \<and> evolves (w_db w) (w_db w')"
proof -
  let ?rows = "expired_batch now lim (w_db w)"
  note rows = expired_batch_rows [OF shop_invD(6) [OF inv]]
  from run obtain us w1 where loop: "for_each (\<lambda>r. release_reservation E (r_id r) M_Expired None) ?rows w = (Inr us, w1)"
    and dom: "reload_all ?rows w1 = (Inr x, w')"
    by (auto simp: expire_batch_def andThen_def db_query_def split: prod.splits sum.splits)
  have "shop_inv (w_db w1) \<and> evolves (w_db w) (w_db w1)"
  proof (rule batch_loop_inv [OF _ inv _ _ loop])
    show "distinct (map r_id ?rows)" "\<forall>r\<in>set ?rows. find_reservation (r_id r) (w_db w) = Some r"
      using rows by blast+
    fix r v v' u
    assume r: "r \<in> set ?rows" "shop_inv (w_db v)" "find_reservation (r_id r) (w_db v) = Some r"
      and step: "release_reservation E (r_id r) M_Expired None v = (Inr u, v')"
    have "r_status r = M_Pending" using rows r(1) by (auto simp: overdue_def)
    then show "shop_inv (w_db v') \<and> evolves (w_db v) (w_db v') \<and> (\<forall>x. x \<noteq> r_id r \<longrightarrow> find_reservation x (w_db v') = find_reservation x (w_db v))"
      using release_inv [OF r(2) step] r(3) shop_invD(6) [OF r(2)] by (simp add: find_reservation_iff)
  qed
  moreover have "w_db w' = w_db w1" by (rule keepsD [OF keeps_db_domain(3) dom])
  ultimately show ?thesis by simp
qed

lemma reconcile_batch_inv:
  assumes inv: "shop_inv (w_db w)" and run: "reconcile_batch E now lim n delay w = (Inr x, w')"
  shows "shop_inv (w_db w') \<and> evolves (w_db w) (w_db w')"
proof -
  let ?rows = "reconcile_rows now lim n (w_db w)"
  note rows = reconcile_rows_rows [OF shop_invD(6) [OF inv]]
  from run obtain us w1 where loop: "for_each (reconcile_one E now n delay) ?rows w = (Inr us, w1)"
    and dom: "reload_all ?rows w1 = (Inr x, w')"
    by (auto simp: reconcile_batch_def andThen_def db_query_def split: prod.splits sum.splits)
  have "shop_inv (w_db w1) \<and> evolves (w_db w) (w_db w1)"
  proof (rule batch_loop_inv [OF _ inv _ _ loop])
    show "distinct (map r_id ?rows)" "\<forall>r\<in>set ?rows. find_reservation (r_id r) (w_db w) = Some r"
      using rows by blast+
    fix r v v' u
    assume r: "r \<in> set ?rows" and v: "shop_inv (w_db v)" "find_reservation (r_id r) (w_db v) = Some r"
      and step: "reconcile_one E now n delay r v = (Inr u, v')"
    have mem: "r \<in> set (reservations (w_db v))" using v shop_invD(6) [OF v(1)] by (simp add: find_reservation_iff)
    have rec: "reconcilable now n (w_db w) r" using rows r by blast
    show "shop_inv (w_db v') \<and> evolves (w_db v) (w_db v') \<and> (\<forall>x. x \<noteq> r_id r \<longrightarrow> find_reservation x (w_db v') = find_reservation x (w_db v))"
    proof (cases "r_status r = M_Releasing")
      case True
      then obtain t where t: "r_target r = Some t" "t \<in> {M_Cancelled, M_Expired, M_Failed}"
        using rec by (auto simp: reconcilable_def)
      with step True have "release_reservation E (r_id r) t (Some (retry_attempt (r_id r) n now delay)) v = (Inr u, v')"
        by (simp add: reconcile_one_def Let_def)
      from release_inv [OF v(1) this mem _ t(2)] True show ?thesis by simp
    next
      case False
      then have st: "r_status r = M_Confirming" using rec by (auto simp: reconcilable_def)
      with step obtain y where "confirm_reservation E r (retry_attempt (r_id r) n now delay) v = (Inr y, v')"
        by (auto simp: reconcile_one_def Let_def andThen_def ret_def split: prod.splits sum.splits)
      from confirm_inv [OF v(1) mem _ this] st show ?thesis by simp
    qed
  qed
  moreover have "w_db w' = w_db w1" by (rule keepsD [OF keeps_db_domain(3) dom])
  ultimately show ?thesis by simp
qed

end
