(* ===== verification/Catalog.thy ===== *)
theory Catalog
  imports Reservation_Service "HOL-Library.List_Lexorder"
begin

section \<open>Products, providers and inventory levels\<close>

text \<open>
  The management services and their repositories: \<open>service/product.py\<close>,
  \<open>service/provider_management.py\<close>, \<open>service/inventory_management.py\<close> and the files of the
  same names under \<open>repository/\<close>. Every repository call is a transaction of its own. A
  \<open>ProviderConfiguration\<close> has the columns of its row and is a \<open>provider_row\<close> here, an
  \<open>InventoryLevel\<close> an \<open>offer_row\<close>, a \<open>Product\<close> a \<open>product_row\<close>. The order
  of texts is the database's collation, a parameter.
\<close>

subsection \<open>Products\<close>

definition insert_product_io :: "environment \<Rightarrow> product_row \<Rightarrow> unit io" where
  "insert_product_io E p = handle (transaction E (try_write (insert_product p))) (\<lambda>e.
     if violates_constraint e ''uq_products_sku'' then raise (ProductSkuConflictError (p_sku p)) else raise e)"

definition create_product :: "environment \<Rightarrow> string \<Rightarrow> string \<Rightarrow> product_row io" where
  "create_product E sku_text name_text =
     (let sku = py_strip sku_text; name = py_strip name_text in
      if sku = [] then raise (InvalidProductConfigurationError ''Product SKU must not be blank.'')
      else if 100 < length sku
        then raise (InvalidProductConfigurationError ''Product SKU must not exceed 100 characters.'')
      else if name = [] then raise (InvalidProductConfigurationError ''Product name must not be blank.'')
      else if 255 < length name
        then raise (InvalidProductConfigurationError ''Product name must not exceed 255 characters.'')
      else
        andThen (fresh_uuid E) (\<lambda>pid.
          let p = \<lparr>p_id = pid, p_sku = sku, p_name = name, p_active = True\<rparr> in
          andThen (insert_product_io E p) (\<lambda>_. ret p)))"

definition get_product :: "environment \<Rightarrow> uuid \<Rightarrow> product_row io" where
  "get_product E pid = andThen (transaction E (db_query (find_product pid))) (\<lambda>row. case row of
     None \<Rightarrow> raise (ProductNotFoundError pid) | Some p \<Rightarrow> ret p)"

definition list_products :: "environment \<Rightarrow> (string \<Rightarrow> nat) \<Rightarrow> product_row list io" where
  "list_products E collation = transaction E (db_query (\<lambda>d.
     sort_key (\<lambda>p. (collation (p_sku p), p_id p)) (products d)))"

subsection \<open>Provider configurations\<close>

record register_command =
  rg_name :: string
  rg_kind :: provider_kind
  rg_driver :: string
  rg_base_url :: "string option"
  rg_timeout_ms :: int
  rg_availability :: bool
  rg_hold :: bool
  rg_confirm :: bool
  rg_release :: bool

record capabilities =
  cp_availability :: bool
  cp_hold :: bool
  cp_confirm :: bool
  cp_release :: bool

record update_command =
  up_name :: "string option"
  up_base_url :: "string option"
  up_timeout_ms :: "int option"
  up_capabilities :: "capabilities option"

text \<open>
  \<open>_validate_provider_configuration\<close>; \<open>netloc_ok\<close> is the part of \<open>urlsplit\<close> that
  needs the library's address parser and Unicode tables.
\<close>

definition validate_provider :: "(string \<Rightarrow> bool) \<Rightarrow> provider_row \<Rightarrow> exn + unit" where
  "validate_provider netloc_ok r =
     (if py_strip (v_name r) = []
      then Inl (InvalidProviderConfigurationError ''Provider name must not be blank.'')
      else if v_timeout_ms r \<le> 0
      then Inl (InvalidProviderConfigurationError ''Provider request timeout must be positive.'')
      else if v_kind r = Internal \<and> v_base_url r \<noteq> None
      then Inl (InvalidProviderConfigurationError ''Internal provider must not define a base URL.'')
      else if v_kind r = Internal \<and> v_driver r \<noteq> ''internal''
      then Inl (InvalidProviderConfigurationError ''Internal provider driver must be 'internal'.'')
      else if v_kind r = External \<and> (v_base_url r = None \<or> v_base_url r = Some [])
      then Inl (InvalidProviderConfigurationError ''External provider requires a base URL.'')
      else if v_kind r = External \<and> v_driver r \<noteq> ''http''
      then Inl (InvalidProviderConfigurationError ''External provider driver must be 'http'.'')
      else
        (case (if v_kind r = External then urlsplit netloc_ok (the (v_base_url r)) else Some (''http'', ''-'')) of
           None \<Rightarrow> Inl PyValueError
         | Some (scheme, netloc) \<Rightarrow>
             if (scheme \<noteq> ''http'' \<and> scheme \<noteq> ''https'') \<or> netloc = []
             then Inl (InvalidProviderConfigurationError ''External provider base URL must use HTTP or HTTPS.'')
             else if v_hold r \<and> \<not> (v_confirm r \<and> v_release r)
             then Inl (InvalidProviderConfigurationError ''Hold-capable provider must support confirm and release.'')
             else Inr ()))"

definition name_conflict :: "provider_row \<Rightarrow> exn \<Rightarrow> 'a io" where
  "name_conflict r e = (if violates_constraint e ''uq_inventory_providers_name''
     then raise (ProviderNameConflictError (v_name r)) else raise e)"

definition add_provider :: "environment \<Rightarrow> provider_row \<Rightarrow> unit io" where
  "add_provider E r = handle (transaction E (try_write (insert_provider r))) (name_conflict r)"

definition registered_row :: "uuid \<Rightarrow> register_command \<Rightarrow> provider_row" where
  "registered_row pid c = \<lparr>v_id = pid, v_name = rg_name c, v_kind = rg_kind c, v_driver = rg_driver c,
     v_base_url = rg_base_url c, v_timeout_ms = rg_timeout_ms c, v_availability = rg_availability c,
     v_hold = rg_hold c, v_confirm = rg_confirm c, v_release = rg_release c, v_enabled = False\<rparr>"

definition register_provider ::
  "environment \<Rightarrow> (string \<Rightarrow> bool) \<Rightarrow> register_command \<Rightarrow> provider_row io" where
  "register_provider E netloc_ok c =
     andThen (fresh_uuid E) (\<lambda>pid.
     andThen (lift_sum (validate_provider netloc_ok (registered_row pid c))) (\<lambda>_.
     andThen (add_provider E (registered_row pid c)) (\<lambda>_. ret (registered_row pid c))))"

definition get_provider :: "environment \<Rightarrow> uuid \<Rightarrow> provider_row io" where
  "get_provider E pid = andThen (transaction E (db_query (find_provider pid))) (\<lambda>row. case row of
     None \<Rightarrow> raise (ProviderNotFoundError pid) | Some r \<Rightarrow> ret r)"

definition list_providers :: "environment \<Rightarrow> (string \<Rightarrow> nat) \<Rightarrow> provider_row list io" where
  "list_providers E collation = transaction E (db_query (\<lambda>d.
     sort_key (\<lambda>r. (collation (v_name r), v_id r)) (providers d)))"

text \<open>The \<open>UPDATE .. RETURNING id\<close> of the repository, with its constraints.\<close>

definition map_provider :: "uuid \<Rightarrow> (provider_row \<Rightarrow> provider_row) \<Rightarrow> database \<Rightarrow> database" where
  "map_provider pid f d = d\<lparr>providers := update_where (\<lambda>r. v_id r = pid) f (providers d)\<rparr>"

definition copy_mutable :: "provider_row \<Rightarrow> provider_row \<Rightarrow> provider_row" where
  "copy_mutable r x = x\<lparr>v_name := v_name r, v_base_url := v_base_url r, v_timeout_ms := v_timeout_ms r,
     v_availability := v_availability r, v_hold := v_hold r, v_confirm := v_confirm r, v_release := v_release r\<rparr>"

definition update_provider_row :: "provider_row \<Rightarrow> database \<Rightarrow> exn + database" where
  "update_provider_row r d = (case find_provider (v_id r) d of
     None \<Rightarrow> Inr d
   | Some x \<Rightarrow>
       if \<not> provider_columns_fit (copy_mutable r x) then Inl DataError
       else case check_constraints (provider_checks (copy_mutable r x) @
         [(''uq_inventory_providers_name'',
            list_all (\<lambda>y. v_id y \<noteq> v_id r \<longrightarrow> v_name y \<noteq> v_name r) (providers d))]) of
         Inl e \<Rightarrow> Inl e | Inr _ \<Rightarrow> Inr (map_provider (v_id r) (copy_mutable r) d))"

definition save_provider :: "environment \<Rightarrow> provider_row \<Rightarrow> bool io" where
  "save_provider E r = handle (transaction E
     (andThen (db_query (find_provider (v_id r))) (\<lambda>found.
      andThen (try_write (update_provider_row r)) (\<lambda>_. ret (found \<noteq> None))))) (name_conflict r)"

definition updated_row :: "provider_row \<Rightarrow> update_command \<Rightarrow> provider_row" where
  "updated_row r c =
     (let r1 = r\<lparr>v_name := (case up_name c of None \<Rightarrow> v_name r | Some x \<Rightarrow> x),
           v_base_url := (case up_base_url c of None \<Rightarrow> v_base_url r | Some x \<Rightarrow> Some x),
           v_timeout_ms := (case up_timeout_ms c of None \<Rightarrow> v_timeout_ms r | Some x \<Rightarrow> x)\<rparr>
      in case up_capabilities c of None \<Rightarrow> r1
       | Some k \<Rightarrow> r1\<lparr>v_availability := cp_availability k, v_hold := cp_hold k, v_confirm := cp_confirm k,
           v_release := cp_release k\<rparr>)"

definition update_provider ::
  "environment \<Rightarrow> (string \<Rightarrow> bool) \<Rightarrow> uuid \<Rightarrow> update_command \<Rightarrow> provider_row io" where
  "update_provider E netloc_ok pid c =
     (if up_name c = None \<and> up_base_url c = None \<and> up_timeout_ms c = None \<and> up_capabilities c = None
      then raise (InvalidProviderConfigurationError ''Provider update must include at least one mutable field.'')
      else
        andThen (get_provider E pid) (\<lambda>current.
        andThen (lift_sum (validate_provider netloc_ok (updated_row current c))) (\<lambda>_.
        andThen (save_provider E (updated_row current c)) (\<lambda>saved.
          if saved then ret (updated_row current c) else raise (ProviderNotFoundError pid)))))"

definition set_enabled :: "environment \<Rightarrow> uuid \<Rightarrow> bool \<Rightarrow> provider_row option io" where
  "set_enabled E pid enabled = transaction E
     (andThen (db_write (map_provider pid (\<lambda>r. r\<lparr>v_enabled := enabled\<rparr>))) (\<lambda>_. db_query (find_provider pid)))"

definition enable_provider :: "environment \<Rightarrow> (string \<Rightarrow> bool) \<Rightarrow> uuid \<Rightarrow> provider_row io" where
  "enable_provider E netloc_ok pid =
     andThen (get_provider E pid) (\<lambda>r.
       if v_enabled r then ret r
       else andThen (lift_sum (validate_provider netloc_ok r)) (\<lambda>_.
         andThen (set_enabled E pid True) (\<lambda>row. case row of
           None \<Rightarrow> raise (ProviderNotFoundError pid) | Some x \<Rightarrow> ret x)))"

definition disable_provider :: "environment \<Rightarrow> uuid \<Rightarrow> provider_row io" where
  "disable_provider E pid =
     andThen (get_provider E pid) (\<lambda>r.
       if \<not> v_enabled r then ret r
       else andThen (set_enabled E pid False) (\<lambda>row. case row of
           None \<Rightarrow> raise (ProviderNotFoundError pid) | Some x \<Rightarrow> ret x))"

subsection \<open>Provider credentials\<close>

record credentials_command =
  cr_auth :: auth_type
  cr_secret_ref :: "string option"
  cr_config :: "(string \<times> json) list"

definition sensitive_keys :: "string list" where
  "sensitive_keys = [''api_key'', ''access_token'', ''authorization'', ''client_secret'', ''password'',
     ''refresh_token'', ''secret'', ''token'']"

definition normalized_key :: "string \<Rightarrow> string" where
  "normalized_key k = replace_char CHR ''-'' CHR ''_'' (py_lower (py_strip k))"

text \<open>\<open>_contains_sensitive_public_config\<close>: mappings and lists are searched, other values are not.\<close>

fun contains_sensitive :: "json \<Rightarrow> bool" where
  "contains_sensitive (JObj kvs) =
     list_ex (\<lambda>(k, v). normalized_key k \<in> set sensitive_keys \<or> contains_sensitive v) kvs"
| "contains_sensitive (JList xs) = list_ex contains_sensitive xs"
| "contains_sensitive _ = False"

text \<open>
  \<open>jsonb\<close> keeps an object's members in an order of its own, so equal objects are stored
  equally; any canonical order does.
\<close>

definition member_order :: "string \<times> json \<Rightarrow> nat \<times> nat list" where
  "member_order m = (length (fst m), map code (fst m))"

fun jsonb :: "json \<Rightarrow> json" where
  "jsonb (JObj kvs) = JObj (sort_key member_order (map (\<lambda>(k, v). (k, jsonb v)) kvs))"
| "jsonb (JList xs) = JList (map jsonb xs)"
| "jsonb v = v"

definition jsonb_members :: "(string \<times> json) list \<Rightarrow> (string \<times> json) list" where
  "jsonb_members kvs = sort_key member_order (map (\<lambda>(k, v). (k, jsonb v)) kvs)"

text \<open>The checks of \<open>set_provider_credentials\<close>, in order.\<close>

definition validate_credentials :: "provider_kind \<Rightarrow> credentials_command \<Rightarrow> exn + unit" where
  "validate_credentials kind c =
     (if kind = Internal \<and> cr_auth c \<noteq> Auth_None
      then Inl (InvalidProviderConfigurationError ''Internal provider does not support external credentials.'')
      else if cr_auth c \<noteq> Auth_None \<and> (case cr_secret_ref c of None \<Rightarrow> True | Some s \<Rightarrow> py_strip s = [])
      then Inl (InvalidProviderConfigurationError ''Authenticated provider requires a non-blank secret reference.'')
      else if (case cr_secret_ref c of None \<Rightarrow> False | Some s \<Rightarrow> 255 < length s)
      then Inl (InvalidProviderConfigurationError ''Secret reference must not exceed 255 characters.'')
      else if cr_auth c = Auth_None \<and> cr_secret_ref c \<noteq> None
      then Inl (InvalidProviderConfigurationError ''Unauthenticated provider must not define a secret reference.'')
      else if contains_sensitive (JObj (cr_config c))
      then Inl (InvalidProviderConfigurationError ''Public credential config must not contain secret values.'')
      else if cr_auth c = Auth_Basic \<and>
          (case map_of (cr_config c) ''username'' of Some (JStr u) \<Rightarrow> \<not> usable_username u | _ \<Rightarrow> True)
      then Inl (InvalidProviderConfigurationError ''Basic authentication requires a non-blank public username.'')
      else (case map_of (cr_config c) ''header_name'' of
          None \<Rightarrow> Inr ()
        | Some JNull \<Rightarrow> Inr ()
        | Some (JStr h) \<Rightarrow>
            if py_strip h = []
            then Inl (InvalidProviderConfigurationError ''Credential header name must be a non-blank string.'')
            else if py_casefold h = ''idempotency-key''
            then Inl (InvalidProviderConfigurationError ''Credential header must not overwrite Idempotency-Key.'')
            else Inr ()
        | Some _ \<Rightarrow> Inl (InvalidProviderConfigurationError ''Credential header name must be a non-blank string.'')))"

text \<open>\<open>INSERT .. ON CONFLICT (provider_id) DO UPDATE\<close>\<close>

definition upsert_credential :: "credential_row \<Rightarrow> database \<Rightarrow> exn + database" where
  "upsert_credential r d =
     (if (case c_secret_ref r of None \<Rightarrow> False | Some s \<Rightarrow> 255 < length s) then Inl DataError
      else if c_auth r \<noteq> Auth_None \<and> c_secret_ref r = None
      then Inl (IntegrityError ''ck_provider_credentials_authenticated_provider_requires_secret_ref'')
      else if find_credential (c_provider r) d \<noteq> None
      then Inr (d\<lparr>credentials := update_where (\<lambda>x. c_provider x = c_provider r) (\<lambda>_. r) (credentials d)\<rparr>)
      else if find_provider (c_provider r) d = None
      then Inl (IntegrityError ''fk_provider_credentials_provider_id_inventory_providers'')
      else Inr (d\<lparr>credentials := credentials d @ [r]\<rparr>))"

definition stored_credential :: "uuid \<Rightarrow> credentials_command \<Rightarrow> credential_row" where
  "stored_credential pid c = \<lparr>c_provider = pid, c_auth = cr_auth c, c_secret_ref = cr_secret_ref c,
     c_config = jsonb_members (cr_config c)\<rparr>"

definition set_provider_credentials :: "environment \<Rightarrow> uuid \<Rightarrow> credentials_command \<Rightarrow> credential_row io" where
  "set_provider_credentials E pid c =
     andThen (get_provider E pid) (\<lambda>r.
     andThen (lift_sum (validate_credentials (v_kind r) c)) (\<lambda>_.
     andThen (transaction E (try_write (upsert_credential (stored_credential pid c)))) (\<lambda>_.
       ret (stored_credential pid c))))"

definition get_credentials :: "environment \<Rightarrow> uuid \<Rightarrow> credential_row option io" where
  "get_credentials E pid = transaction E (db_query (find_credential pid))"

subsection \<open>Inventory levels\<close>

definition product_exists :: "environment \<Rightarrow> uuid \<Rightarrow> bool io" where
  "product_exists E pid = transaction E (db_query (\<lambda>d. find_product pid d \<noteq> None))"

definition provider_exists :: "environment \<Rightarrow> uuid \<Rightarrow> bool io" where
  "provider_exists E pid = transaction E (db_query (\<lambda>d. find_provider pid d \<noteq> None))"

definition level_row :: "uuid \<Rightarrow> uuid \<Rightarrow> int \<Rightarrow> int \<Rightarrow> uuid option \<Rightarrow> offer_row" where
  "level_row p v on_hand priority routing = \<lparr>o_product = p, o_provider = v, o_on_hand = on_hand,
     o_reserved = 0, o_priority = priority, o_group = routing, o_version = 1, o_observed = None\<rparr>"

definition insert_offer :: "offer_row \<Rightarrow> database \<Rightarrow> exn + database" where
  "insert_offer r d = (case check_constraints
     [(''fk_product_offers_product_id_products'', find_product (o_product r) d \<noteq> None),
      (''fk_product_offers_provider_id_inventory_providers'', find_provider (o_provider r) d \<noteq> None)] of
     Inl e \<Rightarrow> Inl e | Inr _ \<Rightarrow> Inr (d\<lparr>offers := offers d @ [r]\<rparr>))"

definition set_stock :: "int \<Rightarrow> int \<Rightarrow> uuid option \<Rightarrow> offer_row \<Rightarrow> offer_row" where
  "set_stock on_hand priority routing r = r\<lparr>o_on_hand := on_hand, o_priority := priority,
     o_version := o_version r + 1, o_group := routing\<rparr>"

text \<open>
  \<open>SqlAlchemyInventoryLevelRepository.set_level\<close>: the proposed row's checks run first, then the
  insertion or, on conflict, the conditional update; when that updates nothing, the row is read.
\<close>

definition set_level :: "uuid \<Rightarrow> uuid \<Rightarrow> int \<Rightarrow> int \<Rightarrow> uuid option \<Rightarrow> offer_row io" where
  "set_level p v on_hand priority routing =
     (let proposed = level_row p v on_hand priority routing in
      if \<not> int4 on_hand \<or> \<not> int4 priority then raise DataError else
      andThen (lift_sum (check_constraints (offer_checks proposed))) (\<lambda>_.
      andThen (db_query (find_offer p v)) (\<lambda>found. case found of
        None \<Rightarrow> andThen (try_write (insert_offer proposed)) (\<lambda>_. ret proposed)
      | Some r \<Rightarrow>
          if o_reserved r \<le> on_hand \<and>
             (o_on_hand r \<noteq> on_hand \<or> o_priority r \<noteq> priority \<or> o_group r \<noteq> routing)
          then andThen (db_write (map_offer p v (set_stock on_hand priority routing))) (\<lambda>_.
            ret (set_stock on_hand priority routing r))
          else if on_hand < o_reserved r then raise (InventoryBelowReservedError p v (o_reserved r))
          else ret r)))"

definition remove_level :: "uuid \<Rightarrow> uuid \<Rightarrow> bool io" where
  "remove_level p v =
     andThen (db_query (find_offer p v)) (\<lambda>found. case found of
       None \<Rightarrow> ret False
     | Some r \<Rightarrow>
         if o_reserved r = 0
         then andThen (db_write (\<lambda>d. d\<lparr>offers := filter (\<lambda>x. \<not> (offer_at p v x \<and> o_reserved x = 0)) (offers d)\<rparr>))
           (\<lambda>_. ret True)
         else raise (InventoryHasActiveReservationsError p v (o_reserved r)))"

definition require_product :: "environment \<Rightarrow> uuid \<Rightarrow> unit io" where
  "require_product E p = andThen (product_exists E p) (\<lambda>found.
     if found then ret () else raise (ProductNotFoundError p))"

definition require_provider :: "environment \<Rightarrow> uuid \<Rightarrow> unit io" where
  "require_provider E v = andThen (provider_exists E v) (\<lambda>found.
     if found then ret () else raise (ProviderNotFoundError v))"

definition list_product_inventory :: "environment \<Rightarrow> uuid \<Rightarrow> offer_row list io" where
  "list_product_inventory E p =
     andThen (require_product E p) (\<lambda>_.
       transaction E (db_query (\<lambda>d. sort_key (\<lambda>r. (o_priority r, o_provider r))
         (filter (\<lambda>r. o_product r = p) (offers d)))))"

definition get_inventory_level :: "environment \<Rightarrow> uuid \<Rightarrow> uuid \<Rightarrow> offer_row io" where
  "get_inventory_level E p v =
     andThen (require_product E p) (\<lambda>_.
     andThen (require_provider E v) (\<lambda>_.
     andThen (transaction E (db_query (find_offer p v))) (\<lambda>found. case found of
       None \<Rightarrow> raise (InventoryLevelNotFoundError p v) | Some r \<Rightarrow> ret r)))"

definition remove_inventory_level :: "environment \<Rightarrow> uuid \<Rightarrow> uuid \<Rightarrow> unit io" where
  "remove_inventory_level E p v =
     andThen (require_product E p) (\<lambda>_.
     andThen (require_provider E v) (\<lambda>_.
     andThen (transaction E (remove_level p v)) (\<lambda>removed.
       if removed then ret () else raise (InventoryLevelNotFoundError p v))))"

definition set_inventory_level ::
  "environment \<Rightarrow> uuid \<Rightarrow> uuid \<Rightarrow> int \<Rightarrow> int \<Rightarrow> uuid option \<Rightarrow> offer_row io" where
  "set_inventory_level E p v on_hand priority routing =
     andThen (require_product E p) (\<lambda>_.
     andThen (require_provider E v) (\<lambda>_.
       transaction E (set_level p v on_hand priority routing)))"

subsection \<open>Management keeps the invariant\<close>

lemmas shop_inv_defs = shop_inv_def balanced_def offers_ok_def keys_ok_def rows_ok_def ledger_def
  held_at_def reserved_at_def coherent_def settled_def belongs_def row_ok_def orders_sound_def
  orders_complete_def order_ok_def order_lines_def item_lines_def items_of_def is_internal_def
  find_order_def find_provider_def find_item_def find_reservation_def find_offer_def

lemma shop_inv_products [simp]: "shop_inv (d\<lparr>products := ps\<rparr>) = shop_inv d"
  by (simp add: shop_inv_defs [abs_def])

lemma shop_inv_credentials [simp]: "shop_inv (d\<lparr>credentials := cs\<rparr>) = shop_inv d"
  by (simp add: shop_inv_defs [abs_def])

lemma providers_update_simps [simp]:
  "find_item i (d\<lparr>providers := ps\<rparr>) = find_item i d"
  "find_reservation x (d\<lparr>providers := ps\<rparr>) = find_reservation x d"
  "find_offer p v (d\<lparr>providers := ps\<rparr>) = find_offer p v d"
  "find_order x (d\<lparr>providers := ps\<rparr>) = find_order x d"
  "belongs (d\<lparr>providers := ps\<rparr>) x a = belongs d x a"
  "row_ok (d\<lparr>providers := ps\<rparr>) r = row_ok d r"
  "order_ok (d\<lparr>providers := ps\<rparr>) od = order_ok d od"
  by (simp_all add: find_item_def find_reservation_def find_offer_def find_order_def belongs_def row_ok_def
      items_of_def order_ok_def order_lines_def item_lines_def)

text \<open>Providers may be added and changed, but not removed or given another kind.\<close>

lemma shop_inv_providers:
  assumes inv: "shop_inv d"
    and known: "\<And>v. find_provider v d \<noteq> None \<Longrightarrow> find_provider v (d\<lparr>providers := ps\<rparr>) \<noteq> None \<and>
      is_internal (d\<lparr>providers := ps\<rparr>) v = is_internal d v"
  shows "shop_inv (d\<lparr>providers := ps\<rparr>)"
proof -
  let ?d = "d\<lparr>providers := ps\<rparr>"
  note base = shop_invD [OF inv]
  have offer_known: "find_provider (o_provider r) d \<noteq> None" if "r \<in> set (offers d)" for r
    using base(8) that by (simp add: offers_ok_def list_all_iff)
  have alloc_known: "find_provider (al_provider a) d \<noteq> None" if "a \<in> set (allocations d)" for a
    using base(7) that by (simp add: rows_ok_def list_all_iff)
  have "reserved_at d p v = held_at d p v" if new: "find_provider v d = None" for p v
  proof -
    have "find_offer p v d = None"
    proof (rule ccontr)
      assume "find_offer p v d \<noteq> None"
      then obtain r where "r \<in> set (offers d)" "o_provider r = v"
        by (auto dest: find_offer_Some simp: offer_at_def)
      with offer_known new show False by blast
    qed
    moreover have "held_quantity (items d) p v a = 0" if "a \<in> set (allocations d)" for a
      using alloc_known [OF that] new by (auto simp: held_quantity_def holds_at_def)
    then have "held_at d p v = 0" by (simp add: held_at_def sum_list_0 cong: map_cong)
    ultimately show ?thesis by (simp add: reserved_at_def)
  qed
  then have "reserved_at ?d p v = held_at ?d p v" if "is_internal ?d v" for p v
    using base(9) known [of v] that by (cases "find_provider v d = None") (auto simp: ledger_def reserved_at_def held_at_def)
  then have "balanced ?d"
    using base(1) known offer_known alloc_known
    by (auto simp: balanced_def ledger_def offers_ok_def keys_ok_def rows_ok_def list_all_iff)
  moreover have "coherent ?d"
    using base(2) known alloc_known by (auto simp: coherent_def settled_def)
  moreover have "orders_sound ?d" "orders_complete ?d"
    using base(4,5) by (simp_all add: orders_sound_def orders_complete_def order_ok_def [abs_def])
      (simp_all add: order_ok_def order_lines_def item_lines_def items_of_def)
  moreover have "list_all (row_ok ?d) (reservations ?d)"
    using base(3) by (simp add: list_all_iff)
  ultimately show ?thesis by (simp add: shop_inv_def)
qed

lemma insert_provider_inv: "shop_inv d \<Longrightarrow> insert_provider r d = Inr d' \<Longrightarrow> shop_inv d'"
proof -
  assume inv: "shop_inv d" and "insert_provider r d = Inr d'"
  then have eq: "d' = d\<lparr>providers := providers d @ [r]\<rparr>"
    by (auto simp: insert_provider_def split: if_splits sum.splits)
  have "find_provider v (d\<lparr>providers := providers d @ [r]\<rparr>) = find_provider v d" if "find_provider v d \<noteq> None" for v
    using that by (auto simp: find_provider_def find_append)
  then show ?thesis unfolding eq by (intro shop_inv_providers [OF inv]) (simp add: is_internal_def)
qed

lemma find_map_provider:
  "(\<And>r. v_id (f r) = v_id r) \<Longrightarrow>
   find_provider v (map_provider pid f d) = map_option (\<lambda>r. if v_id r = pid then f r else r) (find_provider v d)"
  by (simp add: find_provider_def map_provider_def find_update_where_same)

lemma map_provider_inv:
  assumes "shop_inv d" and "\<And>r. v_id (f r) = v_id r \<and> v_kind (f r) = v_kind r"
  shows "shop_inv (map_provider pid f d)"
proof -
  have "find_provider v (map_provider pid f d) \<noteq> None \<and> is_internal (map_provider pid f d) v = is_internal d v"
    if "find_provider v d \<noteq> None" for v
    using that assms(2) by (auto simp: find_map_provider is_internal_def split: if_splits)
  then show ?thesis unfolding map_provider_def by (intro shop_inv_providers [OF assms(1)]) (simp add: map_provider_def)
qed

lemma update_provider_row_inv: "shop_inv d \<Longrightarrow> update_provider_row r d = Inr d' \<Longrightarrow> shop_inv d'"
  by (auto simp: update_provider_row_def copy_mutable_def intro!: map_provider_inv split: option.splits if_splits sum.splits)

lemma upsert_credential_inv: "shop_inv d \<Longrightarrow> upsert_credential r d = Inr d' \<Longrightarrow> shop_inv d'"
  by (auto simp: upsert_credential_def split: if_splits)

lemma set_level_cases:
  assumes "set_level p v on_hand priority routing w = (r, w')"
  shows "w' = w \<or> (find_offer p v (w_db w) = None \<and> offer_ok (level_row p v on_hand priority routing) \<and>
      insert_offer (level_row p v on_hand priority routing) (w_db w) = Inr (w_db w')) \<or>
    (\<exists>x. find_offer p v (w_db w) = Some x \<and> o_reserved x \<le> on_hand \<and> 0 \<le> on_hand \<and> 0 \<le> priority \<and>
      w_db w' = map_offer p v (set_stock on_hand priority routing) (w_db w))"
proof (cases "check_constraints (offer_checks (level_row p v on_hand priority routing))")
  case (Inl e)
  with assms show ?thesis by (simp add: set_level_def Let_def prog_simps split: if_splits)
next
  case (Inr u)
  then have ok: "offer_ok (level_row p v on_hand priority routing)" by (simp add: check_offer)
  with assms Inr show ?thesis
    by (auto simp: set_level_def Let_def prog_simps offer_ok_iff level_row_def
        split: option.splits if_splits sum.splits)
qed

lemma set_level_inv:
  assumes inv: "shop_inv (w_db w)" and run: "set_level p v on_hand priority routing w = (r, w')"
  shows "shop_inv (w_db w')"
  using set_level_cases [OF run]
proof (elim disjE exE conjE)
  assume "w' = w"
  with inv show ?thesis by simp
next
  let ?row = "level_row p v on_hand priority routing"
  assume none: "find_offer p v (w_db w) = None" and ok: "offer_ok ?row"
    and ins: "insert_offer ?row (w_db w) = Inr (w_db w')"
  note base = shop_invD [OF inv]
  from ins have eq: "w_db w' = (w_db w)\<lparr>offers := offers (w_db w) @ [?row]\<rparr>"
    and known: "find_provider v (w_db w) \<noteq> None"
    by (auto simp: insert_offer_def check_constraints_Inr level_row_def simp del: check_constraints.simps split: sum.splits)
  show ?thesis
  proof (rule shop_inv_offers [OF inv eq])
    have "offer_key ?row \<notin> offer_key ` set (offers (w_db w))"
      using none by (auto simp: find_offer_def find_None_iff_all offer_key_def level_row_def)
    then show "offers_ok (w_db w')"
      using base(8) ok known by (auto simp: offers_ok_def eq list_all_iff) (simp_all add: level_row_def)
    show "reserved_at (w_db w') p' v' = reserved_at (w_db w) p' v'" for p' v'
      by (auto simp: reserved_at_def eq find_offer_def find_append level_row_def split: option.split)
  qed
next
  fix x
  assume x: "find_offer p v (w_db w) = Some x" "o_reserved x \<le> on_hand" "0 \<le> on_hand" "0 \<le> priority"
    and eq: "w_db w' = map_offer p v (set_stock on_hand priority routing) (w_db w)"
  note base = shop_invD [OF inv]
  have key: "keeps_key (set_stock on_hand priority routing)" by (simp add: keeps_key_def set_stock_def)
  have "offer_ok x" using base(8) find_offer_Some [OF x(1)] by (auto simp: offers_ok_def list_all_iff)
  then have ok: "offer_ok (set_stock on_hand priority routing x)"
    using x by (simp add: offer_ok_iff set_stock_def)
  have "offers_ok (w_db w')"
    unfolding eq by (rule offers_ok_map_offer) (use base(8) key x(1) ok in auto)
  moreover have "reserved_at (w_db w') p' v' = reserved_at (w_db w) p' v'" for p' v'
  proof -
    have "o_reserved (set_stock on_hand priority routing x) = reserved_at (w_db w) p v"
      using x(1) by (simp add: reserved_at_def set_stock_def)
    then show ?thesis by (simp add: eq reserved_at_map_offer [OF key x(1)])
  qed
  ultimately show ?thesis
    using shop_inv_offers [OF inv, of "w_db w'"] eq by (simp add: map_offer_def)
qed

lemma remove_level_inv:
  assumes inv: "shop_inv (w_db w)" and run: "remove_level p v w = (r, w')"
  shows "shop_inv (w_db w')"
proof (cases "w_db w' = w_db w")
  case True
  with inv show ?thesis by simp
next
  case False
  note base = shop_invD [OF inv]
  let ?P = "\<lambda>x. \<not> (offer_at p v x \<and> o_reserved x = 0)"
  from run False have eq: "w_db w' = (w_db w)\<lparr>offers := filter ?P (offers (w_db w))\<rparr>"
    by (auto simp: remove_level_def prog_simps split: option.splits if_splits)
  show ?thesis
  proof (rule shop_inv_offers [OF inv eq])
    show "offers_ok (w_db w')"
      using base(8) by (auto simp: offers_ok_def eq list_all_iff intro: distinct_map_filter)
    fix p' v'
    have distinct: "distinct (map offer_key (offers (w_db w)))" using base(8) by (simp add: offers_ok_def)
    have "find (\<lambda>r. o_product r = p' \<and> o_provider r = v') (filter ?P xs) =
        (case find (\<lambda>r. o_product r = p' \<and> o_provider r = v') xs of
           None \<Rightarrow> None | Some r \<Rightarrow> if ?P r then Some r else None)"
      if "distinct (map offer_key xs)" for xs
      using that
    proof (induction xs)
      case (Cons y xs)
      have none: "find (\<lambda>r. o_product r = p' \<and> o_provider r = v') xs = None"
        if "o_product y = p' \<and> o_provider y = v'"
        unfolding find_None_iff_all
      proof
        fix x
        assume "x \<in> set xs"
        with Cons.prems have "offer_key x \<noteq> offer_key y" by (metis distinct.simps(2) imageI list.set_map list.simps(9))
        with that show "\<not> (o_product x = p' \<and> o_provider x = v')" by (auto simp: offer_key_def)
      qed
      show ?case using Cons none by (auto split: option.splits)
    qed simp
    from this [OF distinct] show "reserved_at (w_db w') p' v' = reserved_at (w_db w) p' v'"
      by (auto simp: reserved_at_def eq find_offer_def split: option.splits)
  qed
qed

end
