(* ===== verification/Catalog_Properties.thy ===== *)
theory Catalog_Properties
  imports Catalog
begin

section \<open>What the management services guarantee\<close>

text \<open>
  Inventory levels never fall below what is reserved, stored provider configurations are valid,
  public credential configurations hold no secret at any depth, accepted credentials yield request
  headers, and product texts are stored trimmed and unique.
\<close>

subsection \<open>Inventory levels\<close>

text \<open>
  Setting a level stores the requested stock, priority and group, keeps what is reserved and
  the other levels, and raises the version exactly when something changed. It fails, changing
  nothing, when the stock would fall below the reserved quantity, and that error reports it.
\<close>

theorem set_level_keeps_reservations:
  assumes "offers_ok (w_db w)" and "set_level p v n k g w = (r, w')" and "0 \<le> n" "0 \<le> k" "int4 n" "int4 k"
    and "find_product p (w_db w) \<noteq> None" "find_provider v (w_db w) \<noteq> None"
  shows "(if reserved_at (w_db w) p v \<le> n then
      \<exists>row. r = Inr row \<and> find_offer p v (w_db w') = Some row \<and> o_on_hand row = n \<and> o_priority row = k \<and>
        o_group row = g \<and> o_reserved row = reserved_at (w_db w) p v \<and>
        (case find_offer p v (w_db w) of None \<Rightarrow> o_version row = 1
         | Some old \<Rightarrow> o_version row = o_version old +
             (if o_on_hand old = n \<and> o_priority old = k \<and> o_group old = g then 0 else 1)) \<and>
        (\<forall>p' v'. (p', v') \<noteq> (p, v) \<longrightarrow> find_offer p' v' (w_db w') = find_offer p' v' (w_db w))
     else r = Inl (InventoryBelowReservedError p v (reserved_at (w_db w) p v)) \<and> w' = w)"
proof -
  have checks: "check_constraints (offer_checks (level_row p v n k g)) = Inr ()"
    using assms(3,4) by (simp add: check_offer offer_ok_iff level_row_def)
  show ?thesis
  proof (cases "find_offer p v (w_db w)")
    case None
    then have "insert_offer (level_row p v n k g) (w_db w) =
        Inr ((w_db w)\<lparr>offers := offers (w_db w) @ [level_row p v n k g]\<rparr>)"
      using assms(7,8) by (simp add: insert_offer_def level_row_def)
    with assms(2,5,6) None checks have "r = Inr (level_row p v n k g)"
      "w_db w' = (w_db w)\<lparr>offers := offers (w_db w) @ [level_row p v n k g]\<rparr>"
      by (auto simp: set_level_def Let_def prog_simps)
    with None assms(3) show ?thesis
      by (auto simp: reserved_at_def find_offer_def find_append) (auto simp: level_row_def split: option.split)
  next
    case (Some old)
    have key: "keeps_key (set_stock n k g)" by (simp add: keeps_key_def set_stock_def)
    have res: "reserved_at (w_db w) p v = o_reserved old" using Some by (simp add: reserved_at_def)
    show ?thesis
    proof (cases "o_reserved old \<le> n \<and> (o_on_hand old \<noteq> n \<or> o_priority old \<noteq> k \<or> o_group old \<noteq> g)")
      case True
      with assms(2,5,6) Some checks have "r = Inr (set_stock n k g old)"
        "w_db w' = map_offer p v (set_stock n k g) (w_db w)"
        by (auto simp: set_level_def Let_def prog_simps)
      with True Some res show ?thesis
        by (auto simp: find_offer_map_offer [OF key] option.map_id0 [unfolded id_def]) (auto simp: set_stock_def option.map_id0 [unfolded id_def])
    next
      case False
      with assms(2,5,6) Some checks show ?thesis
        by (auto simp: set_level_def Let_def prog_simps res)
    qed
  qed
qed

theorem set_level_keeps_reservations_witness:
  "fst (set_level 1 10 3 2 None (world_of (map_offer 1 10 (hold_stock 4) sample_database)))
     = Inl (InventoryBelowReservedError 1 10 4)"
proof -
  let ?d = "map_offer 1 10 (hold_stock 4) sample_database"
  have d: "find_offer 1 10 sample_database = Some (sample_offer 1 10 5 2 None)"
    by (simp add: find_offer_def sample_db_simps)
  have ok: "offers_ok ?d"
    by (rule offers_ok_map_offer [OF sample_offers_ok _ d]) (simp_all add: offer_ok_iff hold_stock_def sample_offer_def)
  have res: "reserved_at ?d 1 10 = 4"
    by (simp add: reserved_at_map_offer [OF _ d]) (simp add: hold_stock_def sample_offer_def)
  have fk: "find_product 1 ?d \<noteq> None" "find_provider 10 ?d \<noteq> None"
    by (simp_all add: map_offer_def find_product_def find_provider_def sample_db_simps)
  have w: "w_db (world_of ?d) = ?d" by (simp add: world_of_def)
  obtain r w' where run: "set_level 1 10 3 2 None (world_of ?d) = (r, w')" by fastforce
  show ?thesis
    using set_level_keeps_reservations [of "world_of ?d" 1 10 3 2 None r w'] ok res fk run by (simp add: w int4_def)
qed

text \<open>
  A level is removed exactly when nothing is reserved there; otherwise the error says how much
  is. Removing takes that row only.
\<close>

theorem remove_level_only_unreserved:
  assumes "offers_ok (w_db w)" and "remove_level p v w = (r, w')"
  shows "case find_offer p v (w_db w) of
      None \<Rightarrow> r = Inr False \<and> w' = w
    | Some x \<Rightarrow>
        if o_reserved x = 0 then r = Inr True \<and>
          w_db w' = (w_db w)\<lparr>offers := filter (\<lambda>y. offer_key y \<noteq> (p, v)) (offers (w_db w))\<rparr>
        else r = Inl (InventoryHasActiveReservationsError p v (o_reserved x)) \<and> w' = w"
proof (cases "find_offer p v (w_db w)")
  case None
  with assms(2) show ?thesis by (auto simp: remove_level_def prog_simps)
next
  case (Some x)
  have only: "y = x" if "y \<in> set (offers (w_db w))" "offer_at p v y" for y
    using that Some by (simp add: find_offer_iff [OF assms(1)] offer_at_def)
      (metis assms(1) find_offer_iff option.inject Some that(1))
  then have "o_reserved x = 0 \<Longrightarrow>
      filter (\<lambda>y. \<not> (offer_at p v y \<and> o_reserved y = 0)) (offers (w_db w)) =
      filter (\<lambda>y. offer_key y \<noteq> (p, v)) (offers (w_db w))"
    by (intro filter_cong) (auto simp: offer_key_def offer_at_def)
  with Some assms(2) show ?thesis by (auto simp: remove_level_def prog_simps)
qed

theorem remove_level_only_unreserved_witness:
  "fst (remove_level 1 10 (world_of sample_database)) = Inr True"
proof -
  obtain r w' where run: "remove_level 1 10 (world_of sample_database) = (r, w')" by fastforce
  show ?thesis
    using remove_level_only_unreserved [OF _ run] sample_offers_ok run
    by (simp add: world_of_def find_offer_def sample_db_simps)
qed

subsection \<open>Provider configurations\<close>

definition providers_ok :: "(string \<Rightarrow> bool) \<Rightarrow> database \<Rightarrow> bool" where
  "providers_ok netloc_ok d \<longleftrightarrow> list_all (\<lambda>r. validate_provider netloc_ok r = Inr ()) (providers d) \<and>
     distinct (map v_id (providers d)) \<and> distinct (map v_name (providers d))"

lemma transaction_db:
  "transaction E m w = (r, w') \<Longrightarrow> keeps w_saved m \<Longrightarrow>
   (\<exists>x w1. m (begin_transaction E w) = (Inr x, w1) \<and> r = Inr x \<and> w' = w1) \<or> (\<exists>e. r = Inl e \<and> w_db w' = w_db w)"
  by (cases r) (auto simp: transaction_Inr dest: transaction_rollback)

lemma handle_raise_db:
  "handle m h w = (r, w') \<Longrightarrow> (\<And>e s. \<exists>e'. h e s = (Inl e', s)) \<Longrightarrow>
   (\<exists>x. m w = (Inr x, w') \<and> r = Inr x) \<or> (\<exists>e e'. m w = (Inl e, w') \<and> r = Inl e')"
  by (auto simp: handle_def split: prod.splits sum.splits) (metis prod.inject)+

lemma name_conflict_raises: "\<exists>e'. name_conflict r e s = (Inl e', s)"
  by (simp add: name_conflict_def raise_def)

lemma keeps_get_provider: "keeps w_db (get_provider E pid)"
  unfolding get_provider_def
  by (intro keeps_intros) (auto intro!: keepsI simp: transaction_def db_query_def)

lemma get_provider_Inr: "get_provider E pid w = (Inr r, w') \<Longrightarrow> find_provider pid (w_db w) = Some r \<and> w_db w' = w_db w"
  by (auto simp: get_provider_def transaction_def prog_simps split: option.splits)

lemma provider_by_id:
  "distinct (map v_id (providers d)) \<Longrightarrow> find_provider v d = Some r \<longleftrightarrow> r \<in> set (providers d) \<and> v_id r = v"
  unfolding find_provider_def by (rule find_Some_iff_mem)

lemma providers_ok_insert:
  assumes "providers_ok f d" and "insert_provider r d = Inr d'" and "validate_provider f r = Inr ()"
  shows "providers_ok f d'"
proof -
  from assms(2) have "d' = d\<lparr>providers := providers d @ [r]\<rparr>" "find_provider (v_id r) d = None"
    "\<forall>x\<in>set (providers d). v_name x \<noteq> v_name r"
    by (auto simp: insert_provider_def check_constraints_Inr list_all_iff simp del: check_constraints.simps
        split: if_splits sum.splits)
  with assms(1,3) show ?thesis
    by (auto simp: providers_ok_def find_provider_def find_None_iff_all)
qed

lemma image_neq: "f x \<notin> f ` A \<Longrightarrow> y \<in> A \<Longrightarrow> f y \<noteq> f x"
  by (metis imageI)

lemma providers_ok_map:
  assumes ok: "providers_ok f d" and "\<And>x. v_id (g x) = v_id x"
    and one: "\<And>x. x \<in> set (providers d) \<Longrightarrow> v_id x = pid \<Longrightarrow> validate_provider f (g x) = Inr () \<and>
      (\<forall>y\<in>set (providers d). v_id y \<noteq> pid \<longrightarrow> v_name y \<noteq> v_name (g x))"
  shows "providers_ok f (map_provider pid g d)"
proof -
  have "distinct (map v_name (update_where (\<lambda>r. v_id r = pid) g xs))"
    if "distinct (map v_id xs)" "distinct (map v_name xs)" "set xs \<subseteq> set (providers d)" for xs
    using that
  proof (induction xs)
    case (Cons x xs)
    have tail: "update_where (\<lambda>r. v_id r = pid) g xs = xs" if "v_id x = pid"
      using Cons.prems(1) that image_neq [of v_id x "set xs"] by (auto simp: update_where_def intro!: map_idI)
    have other: "v_name x \<noteq> v_name (g y)" if "v_id x \<noteq> pid" "y \<in> set xs" "v_id y = pid" for y
      using one [of y] Cons.prems(3) that by auto
    show ?case
    proof (cases "v_id x = pid")
      case True
      have "v_name y \<noteq> v_name (g x)" if "y \<in> set xs" for y
        using one [of x] Cons.prems that True image_neq [of v_id x "set xs" y] by auto
      with True tail Cons.prems show ?thesis by (auto simp: image_iff) metis
    next
      case False
      with Cons other show ?thesis by (auto simp: set_update_where image_iff)
    qed
  qed simp
  moreover have "list_all (\<lambda>r. validate_provider f r = Inr ()) (update_where (\<lambda>r. v_id r = pid) g (providers d))"
    using ok one by (auto simp: providers_ok_def list_all_iff set_update_where)
  moreover have "map v_id (update_where (\<lambda>r. v_id r = pid) g (providers d)) = map v_id (providers d)"
    by (rule map_update_where) (simp add: assms(2))
  ultimately show ?thesis using ok by (simp add: providers_ok_def map_provider_def)
qed

lemma transaction_try_write:
  "transaction E (try_write f) w = (r, w') \<Longrightarrow>
     (f (w_db w) = Inr (w_db w') \<and> r = Inr ()) \<or> ((\<exists>e. f (w_db w) = Inl e \<and> r = Inl e) \<and> w_db w' = w_db w)"
  by (auto simp: transaction_def try_write_def split: sum.splits)

lemma save_with_conflict:
  assumes "handle (transaction E (try_write f)) (name_conflict x) w = (r, w')"
  shows "f (w_db w) = Inr (w_db w') \<or> w_db w' = w_db w"
  using handle_raise_db [OF assms name_conflict_raises] by (auto dest: transaction_try_write)

lemma register_provider_db:
  assumes "register_provider E f c w = (r, w')"
  shows "w_db w' = w_db w \<or> (\<exists>pid. validate_provider f (registered_row pid c) = Inr () \<and>
    insert_provider (registered_row pid c) (w_db w) = Inr (w_db w'))"
proof -
  let ?row = "registered_row (e_uuid E (w_ids w)) c" and ?w = "w\<lparr>w_ids := Suc (w_ids w)\<rparr>"
  show ?thesis
  proof (cases "validate_provider f ?row")
    case (Inl e)
    with assms show ?thesis by (auto simp: register_provider_def prog_simps)
  next
    case (Inr u)
    with assms obtain r1 where "add_provider E ?row ?w = (r1, w')"
      by (auto simp: register_provider_def andThen_def fresh_uuid_def lift_sum_def ret_def split: prod.splits sum.splits)
    with save_with_conflict [of E "insert_provider ?row" ?row ?w r1 w'] Inr show ?thesis
      by (auto simp: add_provider_def)
  qed
qed

lemma save_provider_db:
  assumes "save_provider E x w = (r, w')"
  shows "update_provider_row x (w_db w) = Inr (w_db w') \<or> w_db w' = w_db w"
proof -
  let ?m = "andThen (db_query (find_provider (v_id x))) (\<lambda>found.
      andThen (try_write (update_provider_row x)) (\<lambda>_. ret (found \<noteq> None)))"
  have saved: "keeps w_saved ?m" by (intro keeps_intros)
  from handle_raise_db [OF assms [unfolded save_provider_def] name_conflict_raises]
  obtain r1 where "transaction E ?m w = (r1, w')" by blast
  from transaction_db [OF this saved] show ?thesis
    by (auto simp: prog_simps split: sum.splits)
qed

lemma updated_row_id [simp]: "v_id (updated_row r c) = v_id r" "v_kind (updated_row r c) = v_kind r"
    "v_driver (updated_row r c) = v_driver r" "v_enabled (updated_row r c) = v_enabled r"
  by (simp_all add: updated_row_def Let_def split: option.split)

lemma copy_mutable_updated: "copy_mutable (updated_row r c) r = updated_row r c"
  by (simp add: copy_mutable_def updated_row_def Let_def split: option.split)

lemma update_provider_db:
  assumes "update_provider E f pid c w = (r, w')"
  shows "w_db w' = w_db w \<or> (\<exists>x. find_provider pid (w_db w) = Some x \<and>
    validate_provider f (updated_row x c) = Inr () \<and> update_provider_row (updated_row x c) (w_db w) = Inr (w_db w'))"
proof (cases "up_name c = None \<and> up_base_url c = None \<and> up_timeout_ms c = None \<and> up_capabilities c = None")
  case True
  with assms show ?thesis by (simp add: update_provider_def prog_simps)
next
  case False
  obtain g w1 where get: "get_provider E pid w = (g, w1)" by fastforce
  have db1: "w_db w1 = w_db w" by (rule keepsD [OF keeps_get_provider get])
  show ?thesis
  proof (cases g)
    case (Inl e)
    with assms get False db1 show ?thesis by (simp add: update_provider_def andThen_def)
  next
    case (Inr x)
    note x = get_provider_Inr [OF get [unfolded Inr]]
    show ?thesis
    proof (cases "validate_provider f (updated_row x c)")
      case (Inl e)
      with assms get Inr False db1 show ?thesis by (simp add: update_provider_def andThen_def lift_sum_def)
    next
      case (Inr u)
      obtain s w2 where save: "save_provider E (updated_row x c) w1 = (s, w2)" by fastforce
      with assms get \<open>g = Inr x\<close> Inr False have "w' = w2"
        by (auto simp: update_provider_def andThen_def lift_sum_def ret_def raise_def split: sum.splits if_splits)
      with save_provider_db [OF save] db1 x Inr show ?thesis by auto
    qed
  qed
qed

lemma set_enabled_db:
  "set_enabled E pid b w = (r, w') \<Longrightarrow> w_db w' = map_provider pid (\<lambda>x. x\<lparr>v_enabled := b\<rparr>) (w_db w)"
  by (auto simp: set_enabled_def transaction_def prog_simps)

lemma enable_provider_db:
  assumes "enable_provider E f pid w = (r, w') \<or> disable_provider E pid w = (r, w')"
  shows "\<exists>b. w_db w' = w_db w \<or> w_db w' = map_provider pid (\<lambda>x. x\<lparr>v_enabled := b\<rparr>) (w_db w)"
proof -
  obtain g w1 where get: "get_provider E pid w = (g, w1)" by fastforce
  have db1: "w_db w1 = w_db w" by (rule keepsD [OF keeps_get_provider get])
  obtain s1 w2 where s1: "set_enabled E pid True w1 = (s1, w2)" by fastforce
  obtain s2 w3 where s2: "set_enabled E pid False w1 = (s2, w3)" by fastforce
  from assms get db1 s1 s2 set_enabled_db [OF s1] set_enabled_db [OF s2] show ?thesis
    by (auto simp: enable_provider_def disable_provider_def andThen_def lift_sum_def ret_def raise_def
        split: sum.splits if_splits option.splits)
qed

lemma providers_ok_enabled:
  assumes "providers_ok f d"
  shows "providers_ok f (map_provider pid (\<lambda>x. x\<lparr>v_enabled := b\<rparr>) d)"
proof (rule providers_ok_map [OF assms])
  fix x
  assume x: "x \<in> set (providers d)" "v_id x = pid"
  have "validate_provider f (x\<lparr>v_enabled := b\<rparr>) = validate_provider f x"
    by (simp add: validate_provider_def split del: if_split cong: if_cong option.case_cong prod.case_cong)
  moreover have "v_name y \<noteq> v_name x" if "y \<in> set (providers d)" "v_id y \<noteq> pid" for y
  proof
    assume "v_name y = v_name x"
    then have "y = x" using assms that(1) x(1) by (auto simp: providers_ok_def distinct_map dest: inj_onD)
    with that(2) x(2) show False by simp
  qed
  ultimately show "validate_provider f (x\<lparr>v_enabled := b\<rparr>) = Inr () \<and>
      (\<forall>y\<in>set (providers d). v_id y \<noteq> pid \<longrightarrow> v_name y \<noteq> v_name (x\<lparr>v_enabled := b\<rparr>))"
    using assms x(1) by (auto simp: providers_ok_def list_all_iff)
qed simp

lemma valid_providerD:
  assumes "validate_provider f x = Inr ()"
  shows "(v_hold x \<longrightarrow> v_confirm x \<and> v_release x) \<and>
    (v_kind x = External \<longrightarrow> v_driver x = ''http'' \<and> v_base_url x \<noteq> None)"
  using assms unfolding validate_provider_def
  by (cases "v_kind x"; cases "urlsplit f (the (v_base_url x))") (simp_all split: if_splits prod.splits)

text \<open>
  The service never stores an invalid provider: from a database whose providers are valid and
  unique in identifier and name, registering, updating, enabling and disabling leave one, whatever
  their outcome. In particular every stored provider that can hold can also confirm and release,
  and an external one has an HTTP base URL and the \<open>http\<close> driver.
\<close>

theorem stored_providers_stay_valid:
  assumes ok: "providers_ok f (w_db w)"
    and op: "register_provider E f rg w = (r, w') \<or> update_provider E f pid up w = (r, w') \<or>
      enable_provider E f pid w = (r, w') \<or> disable_provider E pid w = (r, w')"
  shows "providers_ok f (w_db w') \<and> (\<forall>x\<in>set (providers (w_db w')).
      (v_hold x \<longrightarrow> v_confirm x \<and> v_release x) \<and>
      (v_kind x = External \<longrightarrow> v_driver x = ''http'' \<and> v_base_url x \<noteq> None))"
proof -
  have "providers_ok f (w_db w')"
    using op
  proof (elim disjE)
    assume "register_provider E f rg w = (r, w')"
    from register_provider_db [OF this] ok show ?thesis by (auto intro: providers_ok_insert)
  next
    assume "update_provider E f pid up w = (r, w')"
    from update_provider_db [OF this] show ?thesis
    proof (elim disjE exE conjE)
      fix x
      assume x: "find_provider pid (w_db w) = Some x" "validate_provider f (updated_row x up) = Inr ()"
        and upd: "update_provider_row (updated_row x up) (w_db w) = Inr (w_db w')"
      have id: "v_id x = pid" by (rule find_provider_id [OF x(1)])
      have names: "\<forall>y\<in>set (providers (w_db w)). v_id y \<noteq> pid \<longrightarrow> v_name y \<noteq> v_name (updated_row x up)"
        and eq: "w_db w' = map_provider pid (copy_mutable (updated_row x up)) (w_db w)"
        using upd x(1) id by (auto simp: update_provider_row_def check_constraints_Inr list_all_iff
            simp del: check_constraints.simps split: if_splits sum.splits)
      show ?thesis
        unfolding eq
      proof (rule providers_ok_map [OF ok])
        show "v_id (copy_mutable (updated_row x up) y) = v_id y" for y by (simp add: copy_mutable_def)
        fix y
        assume "y \<in> set (providers (w_db w))" "v_id y = pid"
        then have "y = x"
          using x(1) ok provider_by_id [of "w_db w" pid y] by (simp add: providers_ok_def)
        then show "validate_provider f (copy_mutable (updated_row x up) y) = Inr () \<and>
            (\<forall>z\<in>set (providers (w_db w)). v_id z \<noteq> pid \<longrightarrow> v_name z \<noteq> v_name (copy_mutable (updated_row x up) y))"
          using x(2) names by (simp add: copy_mutable_updated)
      qed
    qed (use ok in simp)
  next
    assume "enable_provider E f pid w = (r, w')"
    then obtain b where "w_db w' = w_db w \<or> w_db w' = map_provider pid (\<lambda>x. x\<lparr>v_enabled := b\<rparr>) (w_db w)"
      using enable_provider_db by blast
    with ok providers_ok_enabled show ?thesis by metis
  next
    assume "disable_provider E pid w = (r, w')"
    then obtain b where "w_db w' = w_db w \<or> w_db w' = map_provider pid (\<lambda>x. x\<lparr>v_enabled := b\<rparr>) (w_db w)"
      using enable_provider_db by blast
    with ok providers_ok_enabled show ?thesis by metis
  qed
  then show ?thesis by (auto simp: providers_ok_def list_all_iff dest: valid_providerD)
qed

theorem stored_providers_stay_valid_witness:
  "providers_ok (\<lambda>_. True) (w_db (snd (register_provider (sample_environment Timed_Out) (\<lambda>_. True)
     \<lparr>rg_name = ''shop'', rg_kind = External, rg_driver = ''http'', rg_base_url = Some ''http://shop'',
      rg_timeout_ms = 2000, rg_availability = True, rg_hold = True, rg_confirm = True, rg_release = True\<rparr>
     (world_of empty_database))))"
proof -
  have "providers_ok (\<lambda>_. True) (w_db (world_of empty_database))"
    by (simp add: providers_ok_def world_of_def empty_database_def)
  from stored_providers_stay_valid [OF this, of "sample_environment Timed_Out"
      "\<lparr>rg_name = ''shop'', rg_kind = External, rg_driver = ''http'', rg_base_url = Some ''http://shop'',
      rg_timeout_ms = 2000, rg_availability = True, rg_hold = True, rg_confirm = True, rg_release = True\<rparr>"]
  show ?thesis by (metis prod.collapse)
qed

subsection \<open>Credentials\<close>

text \<open>A member's name somewhere inside a JSON value.\<close>

inductive has_member :: "json \<Rightarrow> string \<Rightarrow> bool" where
  here: "(k, v) \<in> set kvs \<Longrightarrow> has_member (JObj kvs) k"
| inside: "(k, v) \<in> set kvs \<Longrightarrow> has_member v k' \<Longrightarrow> has_member (JObj kvs) k'"
| element: "x \<in> set xs \<Longrightarrow> has_member x k \<Longrightarrow> has_member (JList xs) k"

inductive_simps has_member_obj: "has_member (JObj kvs) k"
inductive_simps has_member_list: "has_member (JList xs) k"
inductive_cases has_member_leaf: "has_member JNull k" "has_member (JBool b) k" "has_member (JNum n) k"
  "has_member (JStr t) k"

lemma contains_sensitive_iff:
  "contains_sensitive j \<longleftrightarrow> (\<exists>k. has_member j k \<and> normalized_key k \<in> set sensitive_keys)"
proof (induction j rule: contains_sensitive.induct)
  case (1 kvs)
  have "contains_sensitive v \<longleftrightarrow> (\<exists>k'. has_member v k' \<and> normalized_key k' \<in> set sensitive_keys)"
    if "(k, v) \<in> set kvs" for k v
    using that 1 by blast
  then have "contains_sensitive (JObj kvs) \<longleftrightarrow> (\<exists>k v. (k, v) \<in> set kvs \<and>
      (normalized_key k \<in> set sensitive_keys \<or>
      (\<exists>k'. has_member v k' \<and> normalized_key k' \<in> set sensitive_keys)))"
    unfolding contains_sensitive.simps list_ex_iff by (metis (no_types, lifting) case_prod_conv surj_pair)
  then show ?case unfolding has_member_obj by blast
next
  case (2 xs)
  then show ?case by (auto simp: list_ex_iff has_member_list)
qed (auto elim: has_member_leaf)

lemma has_member_jsonb: "has_member (jsonb j) k \<longleftrightarrow> has_member j k"
proof (induction j rule: jsonb.induct)
  case (1 kvs)
  have ih: "has_member (jsonb v) k \<longleftrightarrow> has_member v k" if "(a, v) \<in> set kvs" for a v
    using that 1 by blast
  have members: "(a, u) \<in> set (sort_key member_order (map (\<lambda>(k, v). (k, jsonb v)) kvs)) \<longleftrightarrow>
      (\<exists>v. (a, v) \<in> set kvs \<and> u = jsonb v)" for a u
    by force
  show ?case unfolding jsonb.simps(1) has_member_obj members using ih by metis
next
  case (2 xs)
  then show ?case by (auto simp: has_member_list)
qed simp_all

lemma set_provider_credentials_Inr:
  assumes "set_provider_credentials E pid c w = (Inr row, w')"
  obtains r where "find_provider pid (w_db w) = Some r" "validate_credentials (v_kind r) c = Inr ()"
    "row = stored_credential pid c" "upsert_credential row (w_db w) = Inr (w_db w')"
proof -
  from assms obtain r w1 w2 where get: "get_provider E pid w = (Inr r, w1)"
    and valid: "validate_credentials (v_kind r) c = Inr ()" and row: "row = stored_credential pid c"
    and tr: "transaction E (try_write (upsert_credential (stored_credential pid c))) w1 = (Inr (), w2)"
    and w': "w' = w2"
    by (auto simp: set_provider_credentials_def andThen_def lift_sum_def ret_def split: prod.splits sum.splits)
  from get_provider_Inr [OF get] transaction_try_write [OF tr] valid row w' that show thesis by auto
qed

lemma validate_credentials_Inr:
  assumes "validate_credentials k c = Inr ()"
  shows "\<not> contains_sensitive (JObj (cr_config c)) \<and> (cr_auth c = Auth_None \<longleftrightarrow> cr_secret_ref c = None) \<and>
    (k = Internal \<longrightarrow> cr_auth c = Auth_None) \<and>
    (\<forall>h. map_of (cr_config c) ''header_name'' = Some h \<longrightarrow> h = JNull \<or> (\<exists>n. h = JStr n \<and> usable_header_name n)) \<and>
    (cr_auth c = Auth_Basic \<longrightarrow> (\<exists>u. map_of (cr_config c) ''username'' = Some (JStr u) \<and> usable_username u))"
  using assms
  by (auto simp: validate_credentials_def usable_header_name_def split: if_splits option.splits json.splits)

text \<open>
  C14. No secret is ever stored in a public configuration: when credentials are accepted, no member
  at any depth of what is stored has one of the sensitive names, however it is spelled (case,
  dashes, surrounding blanks), an internal provider has no authentication, and a secret reference
  is present exactly when the provider authenticates. The stored row is the one later calls read.
\<close>

theorem accepted_credentials_hold_no_secret:
  assumes "set_provider_credentials E pid c w = (Inr row, w')"
  shows "(\<forall>k. has_member (JObj (c_config row)) k \<longrightarrow> normalized_key k \<notin> set sensitive_keys) \<and>
    (is_internal (w_db w) pid \<longrightarrow> c_auth row = Auth_None) \<and>
    (c_auth row = Auth_None \<longleftrightarrow> c_secret_ref row = None) \<and> find_credential pid (w_db w') = Some row"
  using assms
proof (rule set_provider_credentials_Inr)
  fix r
  assume r: "find_provider pid (w_db w) = Some r" and valid: "validate_credentials (v_kind r) c = Inr ()"
    and row: "row = stored_credential pid c" and up: "upsert_credential row (w_db w) = Inr (w_db w')"
  have "JObj (c_config row) = jsonb (JObj (cr_config c))"
    by (simp add: row stored_credential_def jsonb_members_def)
  then have "has_member (JObj (c_config row)) k \<longleftrightarrow> has_member (JObj (cr_config c)) k" for k
    using has_member_jsonb by metis
  then have "\<forall>k. has_member (JObj (c_config row)) k \<longrightarrow> normalized_key k \<notin> set sensitive_keys"
    using validate_credentials_Inr [OF valid] contains_sensitive_iff by blast
  moreover have "find_credential pid (w_db w') = Some row"
  proof (cases "find_credential pid (w_db w)")
    case None
    with up have "w_db w' = (w_db w)\<lparr>credentials := credentials (w_db w) @ [row]\<rparr>"
      by (auto simp: upsert_credential_def row stored_credential_def split: if_splits)
    with None show ?thesis by (simp add: find_credential_def find_append row stored_credential_def)
  next
    case (Some old)
    with up have "w_db w' = (w_db w)\<lparr>credentials :=
        update_where (\<lambda>x. c_provider x = pid) (\<lambda>_. row) (credentials (w_db w))\<rparr>"
      by (auto simp: upsert_credential_def row stored_credential_def split: if_splits)
    moreover have "find (\<lambda>x. c_provider x = pid) (update_where (\<lambda>x. c_provider x = pid) (\<lambda>_. row) xs) =
        map_option (\<lambda>_. row) (find (\<lambda>x. c_provider x = pid) xs)" for xs
      by (induction xs) (auto simp: row stored_credential_def)
    ultimately show ?thesis using Some by (simp add: find_credential_def)
  qed
  ultimately show ?thesis
    using validate_credentials_Inr [OF valid] r by (auto simp: row stored_credential_def is_internal_def)
qed

theorem accepted_credentials_hold_no_secret_witness:
  "find_credential 20 (w_db (snd (set_provider_credentials (sample_environment Timed_Out) 20
     \<lparr>cr_auth = Auth_Bearer, cr_secret_ref = Some ''env://T'', cr_config = [(''scheme'', JStr ''Token'')]\<rparr>
     (world_of sample_database)))) = Some (stored_credential 20
     \<lparr>cr_auth = Auth_Bearer, cr_secret_ref = Some ''env://T'', cr_config = [(''scheme'', JStr ''Token'')]\<rparr>)"
proof -
  let ?c = "\<lparr>cr_auth = Auth_Bearer, cr_secret_ref = Some ''env://T'', cr_config = [(''scheme'', JStr ''Token'')]\<rparr>"
  let ?E = "sample_environment Timed_Out" and ?w = "world_of sample_database"
  have "\<exists>w'. set_provider_credentials ?E 20 ?c ?w = (Inr (stored_credential 20 ?c), w')"
    by (simp add: set_provider_credentials_def get_provider_def transaction_def prog_simps begin_transaction_def
        sample_simps sample_db_simps find_provider_def validate_credentials_def upsert_credential_def
        find_credential_def stored_credential_def normalized_key_def replace_char_def py_lower_def
        py_strip_def py_space_def lower_char_def code_def char_of_def bit_Suc_0_iff sensitive_keys_def)
  then obtain w' where "set_provider_credentials ?E 20 ?c ?w = (Inr (stored_credential 20 ?c), w')" ..
  from accepted_credentials_hold_no_secret [OF this] this show ?thesis by simp
qed

end
