(* ===== verification/Frame.thy ===== *)
theory Frame
  imports Catalog_Properties
begin

section \<open>What an operation on a reservation leaves alone\<close>

text \<open>
  Without any assumption on the database: holds, confirmations and releases change offers,
  allocations and operations, the row of the reservation they work for, and with a confirmation its
  order. \<open>row_of x\<close> is what the tables say of the request of another reservation.
\<close>

definition rest_of :: "database \<Rightarrow> database" where
  "rest_of d = d\<lparr>offers := [], allocations := [], operations := []\<rparr>"

definition row_of :: "uuid \<Rightarrow> database \<Rightarrow> reservation_row option \<times> item_row list" where
  "row_of x d = (find_reservation x d, items_of x d)"

lemma row_of_rest: "row_of x (rest_of d) = row_of x d"
  by (simp add: row_of_def rest_of_def items_of_def)

lemma keeps_row_of: "keeps (\<lambda>w. rest_of (w_db w)) m \<Longrightarrow> keeps (\<lambda>w. row_of x (w_db w)) m"
  using keeps_comp [of "\<lambda>w. rest_of (w_db w)" m "row_of x"] by (simp add: row_of_rest)

lemma keeps_rest_db: "keeps w_db m \<Longrightarrow> keeps (\<lambda>w. rest_of (w_db w)) m"
  by (rule keeps_comp)

lemma keeps_rest_write: "(\<And>d. rest_of (h d) = rest_of d) \<Longrightarrow> keeps (\<lambda>w. rest_of (w_db w)) (db_write h)"
  by (rule keepsI) (auto simp: db_write_def)

lemma rest_of_simps [simp]:
  "rest_of (d\<lparr>offers := x\<rparr>) = rest_of d" "rest_of (d\<lparr>allocations := y\<rparr>) = rest_of d"
  "rest_of (d\<lparr>operations := z\<rparr>) = rest_of d" "rest_of (map_offer p v f d) = rest_of d"
  "rest_of (map_allocation a g d) = rest_of d" "rest_of (map_operation k h d) = rest_of d"
  by (simp_all add: rest_of_def map_offer_def map_allocation_def map_operation_def)

lemma keeps_rest_offers [keeps_intros]:
  "keeps (\<lambda>w. rest_of (w_db w)) (observe_availability p v a)" "keeps (\<lambda>w. rest_of (w_db w)) (get_snapshot p v)"
  "keeps (\<lambda>w. rest_of (w_db w)) (try_hold p v q)" "keeps (\<lambda>w. rest_of (w_db w)) (confirm_hold p v q)"
  "keeps (\<lambda>w. rest_of (w_db w)) (release_hold p v q)"
proof -
  have update: "keeps (\<lambda>w. rest_of (w_db w)) (update_offer p v g f)" for p v g f
    unfolding update_offer_def by (intro keeps_intros keeps_rest_write) simp
  show "keeps (\<lambda>w. rest_of (w_db w)) (observe_availability p v a)" "keeps (\<lambda>w. rest_of (w_db w)) (get_snapshot p v)"
    "keeps (\<lambda>w. rest_of (w_db w)) (try_hold p v q)" "keeps (\<lambda>w. rest_of (w_db w)) (confirm_hold p v q)"
    "keeps (\<lambda>w. rest_of (w_db w)) (release_hold p v q)"
    unfolding observe_availability_def get_snapshot_def try_hold_def confirm_hold_def release_hold_def
    by (auto intro!: keeps_intros update split: option.split availability_outcome.split prod.split)
qed

lemma keeps_rest_breaker [keeps_intros]:
  "keeps (\<lambda>w. rest_of (w_db w)) (breaker_availability E v st a)"
  "keeps (\<lambda>w. rest_of (w_db w)) (breaker_hold E v st h)"
  "keeps (\<lambda>w. rest_of (w_db w)) (breaker_confirm E v st c)"
  "keeps (\<lambda>w. rest_of (w_db w)) (breaker_release E v st r)"
  "keeps (\<lambda>w. rest_of (w_db w)) (get_external v st)" "keeps (\<lambda>w. rest_of (w_db w)) (fresh_uuid E)"
  "keeps (\<lambda>w. rest_of (w_db w)) (read_clock cl)"
  by (rule keeps_rest_db, intro keeps_intros)+

lemma keeps_rest_check:
  assumes "honest_port E internal p"
  shows "keeps (\<lambda>w. rest_of (w_db w)) (check_candidate ids (observe_availability x) p cmd)"
    and "keeps (\<lambda>w. rest_of (w_db w)) (pt_hold p cmd)"
  using assms by (auto simp: honest_port_def check_candidate_def internal_port_def external_port_def
      intro!: keeps_intros)

lemma keeps_rest_router:
  "\<forall>p\<in>set ps. honest_port E internal p \<Longrightarrow>
   keeps (\<lambda>w. rest_of (w_db w)) (router_hold ids (observe_availability x) ps cmd)"
  by (induction ps) (auto intro!: keeps_intros keeps_rest_check)

lemma keeps_rest_try_hold_selected [keeps_intros]:
  "keeps (\<lambda>w. rest_of (w_db w)) (try_hold_selected E p v q key)"
proof (rule keepsI)
  fix w r w'
  assume run: "try_hold_selected E p v q key w = (r, w')"
  let ?cs = "routing_candidates p v (w_db w)"
  obtain x w1 where conf: "configure E ?cs w = (x, w1)" by fastforce
  have "keeps (\<lambda>w. rest_of (w_db w)) (configure E ?cs)"
    unfolding configure_def
    by (intro keeps_intros) (auto simp: hold_provider_def Let_def intro!: keeps_intros split: prod.split)
  with conf have same: "rest_of (w_db w1) = rest_of (w_db w)" by (rule keepsD [rotated])
  show "rest_of (w_db w') = rest_of (w_db w)"
  proof (cases x)
    case (Inl e)
    with run conf same show ?thesis by (simp add: try_hold_selected_def prog_simps)
  next
    case (Inr configured)
    have "\<forall>(y, c)\<in>set ?cs. is_internal (w_db w) (v_id y) = (v_kind y = Internal)"
      by (auto dest!: routing_candidates_mem simp: is_internal_def)
    from configure_Inr [OF conf [unfolded Inr] this]
    have "\<forall>p\<in>set (map snd configured). honest_port E (is_internal (w_db w)) p" by auto
    moreover have "router_hold (checks_availability configured) (observe_availability p) (map snd configured)
        \<lparr>hc_product = p, hc_quantity = q, hc_key = key\<rparr> w1 = (r, w')"
      using run conf Inr by (simp add: try_hold_selected_def prog_simps)
    ultimately have "rest_of (w_db w') = rest_of (w_db w1)"
      using keepsD [OF keeps_rest_router] by blast
    with same show ?thesis by simp
  qed
qed

lemma keeps_rest_statements [keeps_intros]:
  "keeps (\<lambda>w. rest_of (w_db w)) (set_allocation_status aid st)"
  "keeps (\<lambda>w. rest_of (w_db w)) (db_write (map_operation k f))"
  "keeps (\<lambda>w. rest_of (w_db w)) (try_write (insert_operation x))"
  "keeps (\<lambda>w. rest_of (w_db w)) (try_write (insert_allocation y))"
  unfolding set_allocation_status_def
  by (rule keepsI, auto simp: db_write_def try_write_def insert_operation_def insert_allocation_def
      split: sum.splits if_splits)+

lemma keeps_rest_external [keeps_intros]:
  "keeps (\<lambda>w. rest_of (w_db w)) (confirm_external_hold E ctx a pr c)"
  "keeps (\<lambda>w. rest_of (w_db w)) (release_external_hold E ctx a pr c)"
  unfolding confirm_external_hold_def release_external_hold_def open_operation_def Let_def
  by (intro keeps_intros)+

lemma keeps_rest_steps [keeps_intros]: "keeps (\<lambda>w. rest_of (w_db w)) (confirm_step E ctx j)"
    "keeps (\<lambda>w. rest_of (w_db w)) (release_step E ctx j)"
  unfolding confirm_step_def release_step_def confirm_allocation_def release_allocation_def Let_def
  by (intro keeps_intros)+

subsection \<open>Other reservations\<close>

lemma keeps_row_update:
  assumes "\<And>r. r_id (f r) = r_id r" and "x \<noteq> rid"
  shows "keeps (\<lambda>w. row_of x (w_db w)) (update_reservation rid f)"
proof (rule keepsI)
  fix w r w'
  assume "update_reservation rid f w = (r, w')"
  then have "w_db w' = map_reservation rid (\<lambda>r. touch (w_now w) r (f r)) (w_db w)"
    by (auto simp: update_reservation_run)
  moreover have "find_reservation x (map_reservation rid g d) = find_reservation x d"
    if "\<And>r. r_id (g r) = r_id r" for g d
    using assms(2) that by (auto simp: find_reservation_def map_reservation_def find_update_where_same
        intro!: option.map_ident_strong dest!: find_SomeD)
  ultimately show "row_of x (w_db w') = row_of x (w_db w)"
    using assms(1) by (simp add: row_of_def)
qed

lemma keeps_row_release [keeps_intros]:
  "x \<noteq> rid \<Longrightarrow> keeps (\<lambda>w. row_of x (w_db w)) (release_reservation E rid t ctx)"
  unfolding release_reservation_def
  by (intro keeps_intros keeps_row_update keeps_row_of)
    (simp_all add: set_target_def finish_release_def)

lemma keeps_row_try_write:
  "(\<And>d d'. h d = Inr d' \<Longrightarrow> row_of x d' = row_of x d) \<Longrightarrow> keeps (\<lambda>w. row_of x (w_db w)) (try_write h)"
  by (rule keepsI) (auto simp: try_write_def split: sum.splits)

lemma keeps_row_ensure_order [keeps_intros]: "keeps (\<lambda>w. row_of x (w_db w)) (ensure_order E r)"
proof -
  have "keeps (\<lambda>w. row_of x (w_db w)) (try_write (insert_order od))" for od
    by (rule keeps_row_try_write) (auto dest!: insert_order_Inr simp: row_of_def items_of_def)
  moreover have "keeps (\<lambda>w. row_of x (w_db w)) (try_write (insert_order_item l))" for l
    by (rule keeps_row_try_write) (auto dest!: insert_order_item_Inr simp: row_of_def items_of_def)
  moreover have "keeps (\<lambda>w. row_of x (w_db w)) (fresh_uuid E)"
    by (rule keeps_row_of) (rule keeps_intros)
  ultimately show ?thesis unfolding ensure_order_def insert_line_def [abs_def] by (intro keeps_intros)
qed

lemma keeps_row_domain [keeps_intros]: "keeps (\<lambda>w. row_of x (w_db w)) (reload_domain rid)"
    "keeps (\<lambda>w. row_of x (w_db w)) (reload_all rows)" "keeps (\<lambda>w. row_of x (w_db w)) (read_clock cl)"
  by (rule keeps_comp, intro keeps_intros)+

lemma keeps_row_confirm [keeps_intros]:
  "x \<noteq> r_id r \<Longrightarrow> keeps (\<lambda>w. row_of x (w_db w)) (confirm_reservation E r ctx)"
  unfolding confirm_reservation_def
  by (intro keeps_intros keeps_row_update keeps_row_of) (simp_all add: set_status_def)

lemma keeps_row_hold_items: "x \<noteq> rid \<Longrightarrow> keeps (\<lambda>w. row_of x (w_db w)) (hold_items E rid its)"
proof (induction its)
  case Nil
  show ?case by (simp add: keeps_intros)
next
  case (Cons i its)
  have "keeps (\<lambda>w. row_of x (w_db w)) (update_reservation rid set_failure)"
    by (rule keeps_row_update) (simp_all add: set_failure_def Cons.prems)
  moreover have "keeps (\<lambda>w. row_of x (w_db w)) (try_hold_selected E p v q key)"
    "keeps (\<lambda>w. row_of x (w_db w)) (fresh_uuid E)" "keeps (\<lambda>w. row_of x (w_db w)) (try_write (insert_allocation a))"
    for p v q key a
    by (rule keeps_row_of, rule keeps_intros)+
  ultimately show ?case using Cons by (simp add: Let_def keeps_intros)
qed

lemma keeps_row_add: "x \<noteq> res_id r \<Longrightarrow> keeps (\<lambda>w. row_of x (w_db w)) (add_with_hold E r)"
proof (rule keepsI)
  fix w res w'
  assume x: "x \<noteq> res_id r" and run: "add_with_hold E r w = (res, w')"
  have item: "keeps (\<lambda>w. row_of x (w_db w)) (try_write (insert_item (new_item iid (res_id r) i)))" for iid i
    by (rule keeps_row_try_write)
      (use x in \<open>auto dest!: insert_item_Inr simp: row_of_def items_of_def new_item_def\<close>)
  have row: "keeps (\<lambda>w. row_of x (w_db w)) (try_write (insert_reservation row))" if "to_model now r = Inr row" for now row
  proof -
    have "r_id row = res_id r" using that by (auto simp: to_model_def split: sum.splits)
    then show ?thesis
      by (intro keeps_row_try_write)
        (use x in \<open>auto dest!: insert_reservation_Inr simp: row_of_def items_of_def find_reservation_def find_append
          split: option.split\<close>)
  qed
  have fresh: "keeps (\<lambda>w. row_of x (w_db w)) (fresh_uuid E)" by (rule keeps_row_of) (rule keeps_intros)
  have items: "keeps (\<lambda>w. row_of x (w_db w)) (insert_items E (res_id r) its)" for its
    unfolding insert_items_def by (intro keeps_intros fresh item)
  show "row_of x (w_db w') = row_of x (w_db w)"
  proof (cases "to_model (w_now w) r")
    case (Inl e)
    with run show ?thesis by (simp add: add_with_hold_def prog_simps)
  next
    case (Inr m)
    then have "andThen (try_write (insert_reservation m)) (\<lambda>_.
        andThen (insert_items E (res_id r) (res_items r)) (hold_items E (res_id r))) w = (res, w')"
      using run by (simp add: add_with_hold_def andThen_def gets_def lift_sum_def)
    moreover have "keeps (\<lambda>w. row_of x (w_db w)) (andThen (try_write (insert_reservation m)) (\<lambda>_.
        andThen (insert_items E (res_id r) (res_items r)) (hold_items E (res_id r))))"
      using keeps_row_hold_items [OF x] by (intro keeps_intros row [OF Inr] items)
    ultimately show ?thesis by (rule keepsD [rotated])
  qed
qed

lemma belongs_items: "keys_ok d \<Longrightarrow> belongs d x a \<longleftrightarrow> (\<exists>i\<in>set (items_of x d). ri_id i = al_item a)"
  by (auto simp: belongs_def find_item_iff items_of_def)

lemma evolves_add:
  assumes inv: "shop_inv (w_db w)" and st: "start dr = Inr r" and run: "add_with_hold E r w = (Inr held, w')"
  shows "evolves (w_db w) (w_db w')"
  unfolding evolves_def less_eq_status_model_def
proof (intro allI impI)
  fix x y
  assume y: "find_reservation x (w_db w) = Some y"
  with add_with_hold_inv [OF inv st run] have "x \<noteq> res_id r" by auto
  from keepsD [OF keeps_row_add [OF this] run] have row: "row_of x (w_db w') = row_of x (w_db w)" .
  have same: "belongs (w_db w') x = belongs (w_db w) x"
    by (rule ext)
      (use row belongs_items [OF shop_invD(6)] add_with_hold_inv [OF inv st run] inv in \<open>simp add: row_of_def\<close>)
  have "filter (belongs (w_db w') x) (allocations (w_db w')) =
      filter (belongs (w_db w') x) (others (res_id r) (w_db w'))"
    unfolding others_def filter_filter by (rule filter_cong) (use \<open>x \<noteq> res_id r\<close> in \<open>auto simp: belongs_def\<close>)
  then have "holds_of x (w_db w') = holds_of x (w_db w)"
    using add_with_hold_inv [OF inv st run] same by (simp add: holds_of_def)
  with row y show "\<exists>r'. find_reservation x (w_db w') = Some r' \<and> same_request y r' \<and>
      may_become (r_status y) (r_status r') \<and> items_of x (w_db w') = items_of x (w_db w) \<and>
      holds_of x (w_db w') = holds_of x (w_db w)"
    by (simp add: row_of_def same_request_def)
qed

end
