(* ===== verification/Shop_System.thy ===== *)
theory Shop_System
  imports Frame
begin

section \<open>The running system\<close>

text \<open>
  What the database goes through while the service and its workers run: every committed operation
  of \<open>service/reservation.py\<close>, \<open>service/product.py\<close>,
  \<open>service/provider_management.py\<close> and \<open>service/inventory_management.py\<close>, in any
  order and number, with a concurrent creation's window open to any run of the others. Each
  operation starts from any state of the memory it does not share (circuits, clocks, request log),
  so a step covers every process of the deployment.
\<close>

subsection \<open>What a creation commits\<close>

lemma get_by_key_run:
  assumes "get_by_idempotency_key user key w = (x, w')"
  shows "w' = w"
  using assms
  by (auto simp: get_by_idempotency_key_def row_to_domain_def prog_simps split: option.splits prod.splits sum.splits)

lemma create_body_cases:
  assumes run: "create_body E other ttl user its key w = (res, w1)" and start: "w_saved w = w_db w"
  shows "case res of
      Inl e \<Rightarrow> w_saved w1 = w_db w \<or> w_saved w1 = other (w_db w)
    | Inr (Inl r) \<Rightarrow> w_db w1 = w_db w
    | Inr (Inr (r, held)) \<Rightarrow> \<exists>now rid v. start \<lparr>dr_id = rid, dr_user = user, dr_items = its, dr_key = key,
          dr_fingerprint = reservation_request_fingerprint its, dr_now = now, dr_ttl = ttl\<rparr> = Inr r \<and>
        w_db v = other (w_db w) \<and> add_with_hold E r v = (Inr held, w1)"
proof -
  obtain x w0 where get: "get_by_idempotency_key user key w = (x, w0)" by fastforce
  then have w0: "w0 = w" by (rule get_by_key_run)
  show ?thesis
  proof (cases x)
    case (Inl e)
    with run get w0 start show ?thesis by (auto simp: create_body_def Let_def andThen_def)
  next
    case (Inr existing)
    show ?thesis
    proof (cases existing)
      case (Some r)
      with run get w0 Inr start show ?thesis
        by (auto simp: create_body_def Let_def prog_simps split: sum.splits)
    next
      case None
      let ?rid = "e_uuid E (w_ids w)" and ?now = "e_utc E (w_ticks w)"
      let ?dr = "\<lparr>dr_id = ?rid, dr_user = user, dr_items = its, dr_key = key,
          dr_fingerprint = reservation_request_fingerprint its, dr_now = ?now, dr_ttl = ttl\<rparr>"
      let ?v = "w\<lparr>w_ids := Suc (w_ids w), w_ticks := Suc (w_ticks w),
          w_db := other (w_db w), w_saved := other (w_saved w)\<rparr>"
      show ?thesis
      proof (cases "start ?dr")
        case (Inl e)
        with run get w0 Inr None start show ?thesis
          by (auto simp: create_body_def Let_def andThen_def fresh_uuid_def read_clock_def lift_sum_def \<open>x = Inr existing\<close>)
      next
        case (Inr r)
        obtain y w2 where add: "add_with_hold E r ?v = (y, w2)" by fastforce
        have saved: "w_saved w2 = other (w_db w)" using keepsD [OF keeps_saved_add add] start by simp
        have "(res, w1) = (case y of Inl e \<Rightarrow> Inl e | Inr held \<Rightarrow> Inr (Inr (r, held)), w2)"
          using run get w0 \<open>x = Inr existing\<close> None Inr add
          by (auto simp: create_body_def Let_def andThen_def fresh_uuid_def read_clock_def lift_sum_def
              interfere_def ret_def split: sum.splits)
        with saved add Inr show ?thesis by (cases y) (auto intro!: exI [of _ ?v])
      qed
    qed
  qed
qed

lemma create_cases:
  assumes run: "create E other ttl user its key w = (res, w')"
  shows "w_db w' = w_db w \<or> w_db w' = other (w_db w) \<or>
    (\<exists>now rid r held v v'. start \<lparr>dr_id = rid, dr_user = user, dr_items = its, dr_key = key,
        dr_fingerprint = reservation_request_fingerprint its, dr_now = now, dr_ttl = ttl\<rparr> = Inr r \<and>
      w_db v = other (w_db w) \<and> add_with_hold E r v = (Inr held, v') \<and> w_db w' = w_db v' \<and>
      res = (if held then Inr r else Inl (InsufficientInventoryError its)))"
proof -
  let ?w = "begin_transaction E w"
  obtain x w1 where body: "create_body E other ttl user its key ?w = (x, w1)" by fastforce
  note cases = create_body_cases [OF body, simplified]
  have retry: "w_db v' = w_db v" if "reservation_transaction E (get_by_idempotency_key user key) v = (y, v')" for y v v'
    using that
    by (cases y) (auto simp: reservation_transaction_Inr dest: get_by_key_run
        reservation_transaction_rollback [OF keeps_saved_repo(3)])
  show ?thesis
  proof (cases x)
    case (Inl e)
    let ?w1 = "w1\<lparr>w_db := w_saved w1\<rparr>"
    have tr: "reservation_transaction E (create_body E other ttl user its key) w =
        (Inl (if e = IntegrityError idempotency_constraint then ConcurrentReservationCreationError else e), ?w1)"
      using body Inl by (simp add: reservation_transaction_cases transaction_def)
    have "w_db w' = w_saved w1"
    proof (cases "e = IntegrityError idempotency_constraint \<or> e = ConcurrentReservationCreationError")
      case True
      obtain y w2 where again: "reservation_transaction E (get_by_idempotency_key user key) ?w1 = (y, w2)" by fastforce
      have "w' = w2"
        using run tr again True
        by (auto simp: create_def andThen_def catch_def ret_def raise_def lift_sum_def split: sum.splits option.splits)
      with retry [OF again] show ?thesis by simp
    next
      case False
      then have "w' = ?w1"
        using run tr
        by (auto simp: create_def andThen_def catch_def ret_def raise_def split: exn.splits)
      then show ?thesis by simp
    qed
    with cases Inl show ?thesis by auto
  next
    case (Inr z)
    have tr: "reservation_transaction E (create_body E other ttl user its key) w = (Inr z, w1)"
      using body Inr by (simp add: reservation_transaction_Inr)
    have w': "w' = w1" and res: "res = (case z of Inl r \<Rightarrow> Inr r | Inr (r, held) \<Rightarrow>
        if held then Inr r else Inl (InsufficientInventoryError its))"
      using run tr
      by (auto simp: create_def andThen_def catch_def ret_def raise_def split: sum.splits prod.splits if_splits)
    show ?thesis
    proof (cases z)
      case (Inl r)
      with cases Inr w' show ?thesis by simp
    next
      fix b
      assume b: "z = Inr b"
      obtain r held where "b = (r, held)" by fastforce
      with b cases Inr obtain now rid v where "start \<lparr>dr_id = rid, dr_user = user, dr_items = its, dr_key = key,
          dr_fingerprint = reservation_request_fingerprint its, dr_now = now, dr_ttl = ttl\<rparr> = Inr r"
        "w_db v = other (w_db w)" "add_with_hold E r v = (Inr held, w1)"
        by auto
      moreover have "res = (if held then Inr r else Inl (InsufficientInventoryError its))" using res b \<open>b = (r, held)\<close> by simp
      ultimately show ?thesis using w' by blast
    qed
  qed
qed

lemma create_inv:
  assumes inv: "shop_inv (w_db w)" "shop_inv (other (w_db w))" "evolves (w_db w) (other (w_db w))"
    and run: "create E other ttl user its key w = (res, w')"
  shows "shop_inv (w_db w') \<and> evolves (w_db w) (w_db w')"
  using create_cases [OF run]
proof (elim disjE exE conjE)
  fix now rid r held v v'
  assume st: "start \<lparr>dr_id = rid, dr_user = user, dr_items = its, dr_key = key,
        dr_fingerprint = reservation_request_fingerprint its, dr_now = now, dr_ttl = ttl\<rparr> = Inr r"
    and v: "w_db v = other (w_db w)" and add: "add_with_hold E r v = (Inr held, v')" and "w_db w' = w_db v'"
  have "shop_inv (w_db v)" using inv(2) v by simp
  with add_with_hold_inv [OF _ st add] evolves_add [OF _ st add] inv(3) v \<open>w_db w' = w_db v'\<close>
  show ?thesis by (auto intro: evolves_trans)
qed (use inv in simp_all)

subsection \<open>The operations on reservations\<close>

lemma transaction_progress:
  assumes "\<And>x w1. m (begin_transaction E w) = (Inr x, w1) \<Longrightarrow> shop_inv (w_db w1) \<and> evolves (w_db w) (w_db w1)"
    and "shop_inv (w_db w)" and "keeps w_saved m" and "reservation_transaction E m w = (r, w')"
  shows "shop_inv (w_db w') \<and> evolves (w_db w) (w_db w')"
  using transaction_inv [where P = "\<lambda>d. shop_inv d \<and> evolves (w_db w) d" and m = m and E = E and w = w] assms
  by (metis evolves_refl)

lemma confirm_progress:
  assumes "shop_inv (w_db w)" and "confirm_guard rid user (w_db w)" and "confirm E rid user w = (r, w')"
  shows "shop_inv (w_db w') \<and> evolves (w_db w) (w_db w')"
proof (rule transaction_progress [OF _ assms(1) keeps_saved_repo(1) assms(3) [unfolded confirm_def]])
  fix x w1
  assume "repo_confirm E rid user (begin_transaction E w) = (Inr x, w1)"
  from repo_confirm_inv [OF _ _ this] assms(1,2) show "shop_inv (w_db w1) \<and> evolves (w_db w) (w_db w1)" by simp
qed

lemma cancel_progress:
  assumes "shop_inv (w_db w)" and "cancel_guard rid user (w_db w)" and "cancel E rid user w = (r, w')"
  shows "shop_inv (w_db w') \<and> evolves (w_db w) (w_db w')"
proof (rule transaction_progress [OF _ assms(1) keeps_saved_repo(2) assms(3) [unfolded cancel_def]])
  fix x w1
  assume "repo_cancel E rid user (begin_transaction E w) = (Inr x, w1)"
  from repo_cancel_inv [OF _ _ this] assms(1,2) show "shop_inv (w_db w1) \<and> evolves (w_db w) (w_db w1)" by simp
qed

lemma expire_progress:
  assumes "shop_inv (w_db w)" and "expire_once E n w = (r, w')"
  shows "shop_inv (w_db w') \<and> evolves (w_db w) (w_db w')"
proof (rule transaction_progress [OF _ assms(1) _ assms(2) [unfolded expire_once_def]])
  show "keeps w_saved (andThen (read_clock (e_utc E)) (\<lambda>now. expire_batch E now n))" by (intro keeps_intros)
  let ?v = "begin_transaction E w\<lparr>w_ticks := Suc (w_ticks (begin_transaction E w))\<rparr>"
  fix x w1
  assume "andThen (read_clock (e_utc E)) (\<lambda>now. expire_batch E now n) (begin_transaction E w) = (Inr x, w1)"
  then have "expire_batch E (e_utc E (w_ticks (begin_transaction E w))) n ?v = (Inr x, w1)" by (simp add: andThen_def read_clock_def)
  from expire_batch_inv [OF _ this] assms(1) show "shop_inv (w_db w1) \<and> evolves (w_db w) (w_db w1)" by simp
qed

lemma reconcile_progress:
  assumes "shop_inv (w_db w)" and "reconcile_once E n m delay w = (r, w')"
  shows "shop_inv (w_db w') \<and> evolves (w_db w) (w_db w')"
proof (rule transaction_progress [OF _ assms(1) _ assms(2) [unfolded reconcile_once_def]])
  show "keeps w_saved (andThen (read_clock (e_utc E)) (\<lambda>now. reconcile_batch E now n m delay))" by (intro keeps_intros)
  let ?v = "begin_transaction E w\<lparr>w_ticks := Suc (w_ticks (begin_transaction E w))\<rparr>"
  fix x w1
  assume "andThen (read_clock (e_utc E)) (\<lambda>now. reconcile_batch E now n m delay) (begin_transaction E w) = (Inr x, w1)"
  then have "reconcile_batch E (e_utc E (w_ticks (begin_transaction E w))) n m delay ?v = (Inr x, w1)" by (simp add: andThen_def read_clock_def)
  from reconcile_batch_inv [OF _ this] assms(1) show "shop_inv (w_db w1) \<and> evolves (w_db w) (w_db w1)" by simp
qed

subsection \<open>Management operations\<close>

text \<open>Products and credentials are outside the invariant.\<close>

definition core :: "database \<Rightarrow> database" where
  "core d = d\<lparr>products := [], credentials := []\<rparr>"

lemma core_simps [simp]: "core (d\<lparr>products := ps\<rparr>) = core d" "core (d\<lparr>credentials := cs\<rparr>) = core d"
  by (simp_all add: core_def)

lemma core_progress:
  assumes "core d' = core d" and "shop_inv d"
  shows "shop_inv d' \<and> evolves d d'"
proof
  have "shop_inv (core x) = shop_inv x" for x by (simp add: core_def)
  with assms show "shop_inv d'" by metis
  have "reservations (core x) = reservations x" "items (core x) = items x" "allocations (core x) = allocations x" for x
    by (simp_all add: core_def)
  with assms show "evolves d d'" by (metis evolves_same)
qed

text \<open>
  What the management operations commit: nothing, or what their one statement does. A predicate
  that holds before and after the statement holds after the operation.
\<close>

lemma product_commits:
  assumes "create_product E sku name w = (r, w')" and "P (w_db w)"
    and "\<And>p d'. insert_product p (w_db w) = Inr d' \<Longrightarrow> P d'"
  shows "P (w_db w')"
proof -
  have ins: "w_db v' = w_db v \<or> insert_product p (w_db v) = Inr (w_db v')"
    if run: "insert_product_io E p v = (x, v')" for p v x v'
  proof -
    obtain y u where tr: "transaction E (try_write (insert_product p)) v = (y, u)" by fastforce
    with run have "v' = u" by (auto simp: insert_product_io_def prog_simps split: sum.splits if_splits)
    with transaction_try_write [OF tr] show ?thesis by auto
  qed
  obtain x v where "insert_product_io E \<lparr>p_id = e_uuid E (w_ids w), p_sku = py_strip sku, p_name = py_strip name,
      p_active = True\<rparr> (w\<lparr>w_ids := Suc (w_ids w)\<rparr>) = (x, v)"
    by fastforce
  with ins [OF this] assms show ?thesis
    by (auto simp: create_product_def Let_def andThen_def fresh_uuid_def raise_def ret_def split: if_splits sum.splits)
qed

lemma credential_commits:
  assumes "set_provider_credentials E pid c w = (r, w')" and "P (w_db w)"
    and "\<And>x d'. upsert_credential x (w_db w) = Inr d' \<Longrightarrow> P d'"
  shows "P (w_db w')"
proof -
  obtain g w1 where get: "get_provider E pid w = (g, w1)" by fastforce
  then have w1: "w_db w1 = w_db w" by (rule keepsD [OF keeps_get_provider])
  show ?thesis
  proof (cases "\<exists>x. g = Inr x \<and> validate_credentials (v_kind x) c = Inr ()")
    case True
    obtain y w2 where tr: "transaction E (try_write (upsert_credential (stored_credential pid c))) w1 = (y, w2)"
      by fastforce
    with True get assms have "w' = w2"
      by (auto simp: set_provider_credentials_def andThen_def lift_sum_def ret_def split: sum.splits)
    with transaction_try_write [OF tr] assms(2,3) w1 show ?thesis by auto
  next
    case False
    with get assms w1 show ?thesis
      by (auto simp: set_provider_credentials_def andThen_def lift_sum_def split: sum.splits)
  qed
qed

lemma provider_commits:
  assumes op: "register_provider E f rg w = (a, w') \<or> update_provider E f pid up w = (b, w') \<or>
      enable_provider E f pid w = (c, w') \<or> disable_provider E pid w = (c, w')"
    and P: "P (w_db w)" "\<And>x d'. insert_provider x (w_db w) = Inr d' \<Longrightarrow> P d'"
      "\<And>x d'. update_provider_row x (w_db w) = Inr d' \<Longrightarrow> P d'"
      "\<And>e. P (map_provider pid (\<lambda>x. x\<lparr>v_enabled := e\<rparr>) (w_db w))"
  shows "P (w_db w')"
  using op
proof (elim disjE)
  assume "register_provider E f rg w = (a, w')"
  from register_provider_db [OF this] P show ?thesis by auto
next
  assume "update_provider E f pid up w = (b, w')"
  from update_provider_db [OF this] P show ?thesis by auto
next
  assume "enable_provider E f pid w = (c, w')"
  then obtain e where "w_db w' = w_db w \<or> w_db w' = map_provider pid (\<lambda>x. x\<lparr>v_enabled := e\<rparr>) (w_db w)"
    using enable_provider_db by blast
  with P show ?thesis by auto
next
  assume "disable_provider E pid w = (c, w')"
  then obtain e where "w_db w' = w_db w \<or> w_db w' = map_provider pid (\<lambda>x. x\<lparr>v_enabled := e\<rparr>) (w_db w)"
    using enable_provider_db by blast
  with P show ?thesis by auto
qed

lemma create_product_core: "create_product E sku name w = (r, w') \<Longrightarrow> core (w_db w') = core (w_db w)"
  by (erule product_commits [where P = "\<lambda>d. core d = core (w_db w)"])
    (auto simp: insert_product_def split: if_splits sum.splits)

lemma set_credentials_core: "set_provider_credentials E pid c w = (r, w') \<Longrightarrow> core (w_db w') = core (w_db w)"
  by (erule credential_commits [where P = "\<lambda>d. core d = core (w_db w)"])
    (auto simp: upsert_credential_def split: if_splits)

lemma provider_progress:
  assumes inv: "shop_inv (w_db w)"
    and op: "register_provider E f rg w = (a, w') \<or> update_provider E f pid up w = (b, w') \<or>
      enable_provider E f pid w = (c, w') \<or> disable_provider E pid w = (c, w')"
  shows "shop_inv (w_db w') \<and> evolves (w_db w) (w_db w')"
proof (rule provider_commits [where P = "\<lambda>d. shop_inv d \<and> evolves (w_db w) d", OF op])
  have mapped: "evolves d (map_provider q g d)" for q g d
    by (rule evolves_same) (simp_all add: map_provider_def)
  show "shop_inv d' \<and> evolves (w_db w) d'" if "insert_provider x (w_db w) = Inr d'" for x d'
    using insert_provider_inv [OF inv that] that
    by (auto simp: insert_provider_def intro!: evolves_same split: if_splits sum.splits)
  show "shop_inv d' \<and> evolves (w_db w) d'" if "update_provider_row x (w_db w) = Inr d'" for x d'
    using update_provider_row_inv [OF inv that] that mapped
    by (auto simp: update_provider_row_def split: option.splits if_splits sum.splits)
  show "shop_inv (map_provider pid (\<lambda>x. x\<lparr>v_enabled := e\<rparr>) (w_db w)) \<and>
      evolves (w_db w) (map_provider pid (\<lambda>x. x\<lparr>v_enabled := e\<rparr>) (w_db w))" for e
    using map_provider_inv [OF inv] mapped by simp
qed (use inv in simp)

lemma require_db: "require_product E p w = (x, w') \<Longrightarrow> w_db w' = w_db w"
    "require_provider E v w = (x, w') \<Longrightarrow> w_db w' = w_db w"
  by (auto simp: require_product_def require_provider_def product_exists_def provider_exists_def transaction_def
      prog_simps split: if_splits)

text \<open>The two level operations run their statement in a transaction after two lookups.\<close>

lemma level_operation:
  assumes "andThen (require_product E p) (\<lambda>_. andThen (require_provider E v) (\<lambda>_.
      andThen (transaction E m) k)) w = (r, w')"
    and "\<And>x u. keeps w_db (k x)" and "keeps w_saved m" and "P (w_db w)"
    and "\<And>u x u'. w_db u = w_db w \<Longrightarrow> m u = (Inr x, u') \<Longrightarrow> P (w_db u')"
  shows "P (w_db w')"
proof -
  obtain a w1 where a: "require_product E p w = (a, w1)" by fastforce
  obtain b w2 where b: "require_provider E v w1 = (b, w2)" by fastforce
  obtain c w3 where c: "transaction E m w2 = (c, w3)" by fastforce
  have db: "w_db w1 = w_db w" "w_db w2 = w_db w" using require_db(1) [OF a] require_db(2) [OF b] by simp_all
  have "P (w_db w3)"
    using transaction_db [OF c assms(3)] assms(4) assms(5) [of "begin_transaction E w2"] db
    by (elim disjE exE conjE) simp_all
  then show ?thesis
    using assms(1,4) a b c db keepsD [OF assms(2)]
    by (auto simp: andThen_def split: sum.splits)
qed

lemma ret_right: "andThen m ret = m"
  by (rule ext) (auto simp: andThen_def ret_def split: prod.split sum.split)

lemma set_level_rows:
  assumes "set_level p v n k g u = (x, u')"
  shows "reservations (w_db u') = reservations (w_db u) \<and> items (w_db u') = items (w_db u) \<and>
    allocations (w_db u') = allocations (w_db u)"
proof -
  have "reservations d' = reservations d \<and> items d' = items d \<and> allocations d' = allocations d" if "insert_offer row d = Inr d'" for row d d'
    using that by (auto simp: insert_offer_def split: sum.splits)
  with set_level_cases [OF assms] show ?thesis by (auto simp: map_offer_def)
qed

lemma remove_level_rows:
  "remove_level p v u = (x, u') \<Longrightarrow>
     reservations (w_db u') = reservations (w_db u) \<and> items (w_db u') = items (w_db u) \<and>
     allocations (w_db u') = allocations (w_db u)"
  by (auto simp: remove_level_def prog_simps split: option.splits if_splits)

lemma level_saved: "keeps w_saved (set_level p v n k g)" "keeps w_saved (remove_level p v)"
  unfolding set_level_def remove_level_def Let_def by (intro keeps_intros)+

lemma level_commits:
  assumes "set_inventory_level E p v n k g w = (a, w') \<or> remove_inventory_level E p v w = (b, w')"
    and P: "P (w_db w)" "\<And>u x u'. w_db u = w_db w \<Longrightarrow> set_level p v n k g u = (Inr x, u') \<Longrightarrow> P (w_db u')"
      "\<And>u x u'. w_db u = w_db w \<Longrightarrow> remove_level p v u = (Inr x, u') \<Longrightarrow> P (w_db u')"
  shows "P (w_db w')"
  using assms(1)
proof
  assume "set_inventory_level E p v n k g w = (a, w')"
  then have run: "andThen (require_product E p) (\<lambda>_. andThen (require_provider E v) (\<lambda>_.
      andThen (transaction E (set_level p v n k g)) ret)) w = (a, w')"
    by (simp add: set_inventory_level_def ret_right)
  show ?thesis by (rule level_operation [where P = P, OF run keeps_ret level_saved(1) P(1,2)])
next
  assume run: "remove_inventory_level E p v w = (b, w')"
  have "keeps w_db (if x then ret () else raise (InventoryLevelNotFoundError p v))" for x
    by (simp add: keeps_intros)
  then show ?thesis
    by (rule level_operation [where P = P, OF run [unfolded remove_inventory_level_def] _ level_saved(2) P(1,3)])
qed

lemma level_progress:
  assumes inv: "shop_inv (w_db w)"
    and op: "set_inventory_level E p v n k g w = (a, w') \<or> remove_inventory_level E p v w = (b, w')"
  shows "shop_inv (w_db w') \<and> evolves (w_db w) (w_db w')"
proof (rule level_commits [where P = "\<lambda>d. shop_inv d \<and> evolves (w_db w) d", OF op])
  show "shop_inv (w_db w) \<and> evolves (w_db w) (w_db w)" using inv by simp
  show "shop_inv (w_db u') \<and> evolves (w_db w) (w_db u')" if "w_db u = w_db w" "set_level p v n k g u = (Inr x, u')" for u x u'
    using set_level_inv [OF _ that(2)] evolves_same set_level_rows [OF that(2)] that(1) inv by metis
  show "shop_inv (w_db u') \<and> evolves (w_db w) (w_db u')" if "w_db u = w_db w" "remove_level p v u = (Inr x, u')" for u x u'
    using remove_level_inv [OF _ that(2)] evolves_same remove_level_rows [OF that(2)] that(1) inv by metis
qed

subsection \<open>Runs\<close>

text \<open>
  \<open>commits strict E d d'\<close>: some finite run of operations takes the database from \<open>d\<close> to
  \<open>d'\<close>. With \<open>strict\<close>, callers confirm only reservations that are not expired, failed or
  being released, and cancel only reservations that have not failed.
\<close>

inductive commits :: "bool \<Rightarrow> environment \<Rightarrow> database \<Rightarrow> database \<Rightarrow> bool" for strict E where
  idle: "commits strict E d d"
| in_turn: "commits strict E d d1 \<Longrightarrow> commits strict E d1 d2 \<Longrightarrow> commits strict E d d2"
| creating: "commits strict E (w_db w) d \<Longrightarrow> create E (\<lambda>_. d) ttl user its key w = (res, w') \<Longrightarrow>
    commits strict E (w_db w) (w_db w')"
| reading: "get E rid w = (found, w') \<Longrightarrow> commits strict E (w_db w) (w_db w')"
| confirming: "strict \<longrightarrow> confirm_guard rid user (w_db w) \<Longrightarrow> confirm E rid user w = (found, w') \<Longrightarrow>
    commits strict E (w_db w) (w_db w')"
| cancelling: "strict \<longrightarrow> cancel_guard rid user (w_db w) \<Longrightarrow> cancel E rid user w = (found, w') \<Longrightarrow>
    commits strict E (w_db w) (w_db w')"
| expiring: "expire_once E batch w = (rs, w') \<Longrightarrow> commits strict E (w_db w) (w_db w')"
| reconciling: "reconcile_once E batch attempts delay w = (rs, w') \<Longrightarrow> commits strict E (w_db w) (w_db w')"
| selling: "create_product E sku name w = (p, w') \<Longrightarrow> commits strict E (w_db w) (w_db w')"
| registering: "register_provider E netloc_ok rg w = (v, w') \<Longrightarrow> commits strict E (w_db w) (w_db w')"
| reconfiguring: "update_provider E netloc_ok pid up w = (v, w') \<Longrightarrow> commits strict E (w_db w) (w_db w')"
| enabling: "enable_provider E netloc_ok pid w = (v, w') \<Longrightarrow> commits strict E (w_db w) (w_db w')"
| disabling: "disable_provider E pid w = (v, w') \<Longrightarrow> commits strict E (w_db w) (w_db w')"
| authorizing: "set_provider_credentials E pid c w = (cred, w') \<Longrightarrow> commits strict E (w_db w) (w_db w')"
| stocking: "set_inventory_level E p pid n k g w = (level, w') \<Longrightarrow> commits strict E (w_db w) (w_db w')"
| delisting: "remove_inventory_level E p pid w = (u, w') \<Longrightarrow> commits strict E (w_db w) (w_db w')"

lemma get_db: "get E rid w = (x, w') \<Longrightarrow> w_db w' = w_db w"
  unfolding get_def
  by (cases x) (auto simp: reservation_transaction_Inr dest: keepsD [OF keeps_db_domain(5)]
      reservation_transaction_rollback [OF keeps_saved_repo(4)])

lemma commits_progress:
  "commits strict E d d' \<Longrightarrow> strict \<Longrightarrow> shop_inv d \<Longrightarrow> shop_inv d' \<and> evolves d d'"
proof (induction rule: commits.induct)
  case (in_turn d d1 d2)
  then show ?case by (auto intro: evolves_trans)
next
  case (creating w d ttl user its key res w')
  then show ?case using create_inv [of w "\<lambda>_. d"] by blast
next
  case (selling sku name w p w')
  then show ?case using core_progress [OF create_product_core] by blast
next
  case (authorizing pid c w cred w')
  then show ?case using core_progress [OF set_credentials_core] by blast
next
  case (stocking p pid n k g w level w')
  then show ?case using level_progress by blast
next
  case (delisting p pid w u w')
  then show ?case using level_progress by blast
next
  case (reading rid w found w')
  then show ?case by (simp add: get_db)
next
  case (confirming rid user w found w')
  then show ?case using confirm_progress by blast
next
  case (cancelling rid user w found w')
  then show ?case using cancel_progress by blast
next
  case (expiring batch w rs w')
  then show ?case using expire_progress by blast
next
  case (reconciling batch attempts delay w rs w')
  then show ?case using reconcile_progress by blast
next
  case (registering netloc_ok rg w v w')
  then show ?case using provider_progress by blast
next
  case (reconfiguring netloc_ok pid up w v w')
  then show ?case using provider_progress by blast
next
  case (enabling netloc_ok pid w v w')
  then show ?case using provider_progress by blast
next
  case (disabling pid w v w')
  then show ?case using provider_progress by blast
qed simp

interpretation shop: transition_system "\<lambda>d. d = empty_database" "commits True E" shop_inv for E
proof unfold_locales
  show "d = empty_database \<Longrightarrow> shop_inv d" for d by (simp add: shop_inv_empty)
  show "shop_inv d \<Longrightarrow> commits True E d d' \<Longrightarrow> shop_inv d'" for d d' by (simp add: commits_progress)
qed

end
