(* ===== verification/Http_Api.thy ===== *)
theory Http_Api
  imports Shop_System "HOL-Library.Monad_Syntax"
begin

section \<open>The HTTP interface\<close>

text \<open>
  The controllers of \<open>controller/\<close>: what each endpoint accepts, the service call it makes,
  what it answers, and the exception handlers \<open>create_app\<close> registers. Matching a URL with an
  endpoint is the framework's. How the framework reads a scalar from a path, a header or a JSON value,
  and how it prints a time, are the \<open>codec\<close>, a parameter; which members a body may and must
  have, and the bounds on their values, are the controllers' and are written out. A request that fails
  them is answered with status 422 before any handler runs.
\<close>

subsection \<open>Requests\<close>

record codec =
  k_text_uuid :: "string \<Rightarrow> uuid option"
  k_uuid :: "json \<Rightarrow> uuid option"
  k_int :: "json \<Rightarrow> int option"
  k_bool :: "json \<Rightarrow> bool option"
  k_time :: "instant \<Rightarrow> string"

text \<open>
  The members of an object, the last of a repeated one; a model with \<open>extra="forbid"\<close> accepts
  only an object with none but its own.
\<close>

definition member :: "(string \<times> json) list \<Rightarrow> string \<Rightarrow> json option" where
  "member kvs k = map_of (rev kvs) k"

definition closed_object :: "string list \<Rightarrow> json \<Rightarrow> (string \<times> json) list option" where
  "closed_object names j = (case j of
     JObj kvs \<Rightarrow> if list_all (\<lambda>(k, _). k \<in> set names) kvs then Some kvs else None
   | _ \<Rightarrow> None)"

definition required :: "(json \<Rightarrow> 'a option) \<Rightarrow> (string \<times> json) list \<Rightarrow> string \<Rightarrow> 'a option" where
  "required parse kvs k = Option.bind (member kvs k) parse"

text \<open>A member of type \<open>T | None\<close> with the default \<open>None\<close>.\<close>

definition nullable :: "(json \<Rightarrow> 'a option) \<Rightarrow> (string \<times> json) list \<Rightarrow> string \<Rightarrow> 'a option option" where
  "nullable parse kvs k = (case member kvs k of
     None \<Rightarrow> Some None
   | Some JNull \<Rightarrow> Some None
   | Some j \<Rightarrow> map_option Some (parse j))"

definition text_of :: "json \<Rightarrow> string option" where
  "text_of j = (case j of JStr s \<Rightarrow> Some s | _ \<Rightarrow> None)"

definition at_least :: "int \<Rightarrow> int \<Rightarrow> int option" where
  "at_least low n = (if low \<le> n then Some n else None)"

definition kind_of :: "json \<Rightarrow> provider_kind option" where
  "kind_of j = Option.bind (text_of j) (\<lambda>s. find (\<lambda>k. kind_value k = s) [Internal, External])"

definition auth_of :: "json \<Rightarrow> auth_type option" where
  "auth_of j = Option.bind (text_of j) (\<lambda>s. find (\<lambda>a. auth_value a = s)
     [Auth_None, Auth_Api_Key, Auth_Bearer, Auth_Basic, Auth_OAuth2])"

definition object_of :: "json \<Rightarrow> (string \<times> json) list option" where
  "object_of j = (case j of JObj kvs \<Rightarrow> Some kvs | _ \<Rightarrow> None)"

definition parse_item_request :: "codec \<Rightarrow> json \<Rightarrow> (uuid \<times> uuid \<times> int) option" where
  "parse_item_request c j = do {
     kvs \<leftarrow> closed_object [''product_id'', ''provider_id'', ''quantity''] j;
     product \<leftarrow> required (k_uuid c) kvs ''product_id'';
     provider \<leftarrow> required (k_uuid c) kvs ''provider_id'';
     quantity \<leftarrow> required (k_int c) kvs ''quantity'';
     quantity \<leftarrow> at_least 1 quantity;
     Some (product, provider, quantity) }"

definition list_of :: "json \<Rightarrow> json list option" where
  "list_of j = (case j of JList xs \<Rightarrow> Some xs | _ \<Rightarrow> None)"

definition parse_create_request :: "codec \<Rightarrow> json \<Rightarrow> (uuid \<times> uuid \<times> int) list option" where
  "parse_create_request c j = do {
     kvs \<leftarrow> closed_object [''items''] j;
     xs \<leftarrow> required list_of kvs ''items'';
     its \<leftarrow> those (map (parse_item_request c) xs);
     (if its = [] then None else Some its) }"

definition parse_key :: "string \<Rightarrow> string option" where
  "parse_key key = (if 1 \<le> length key \<and> length key \<le> 128 then Some key else None)"

definition parse_level_request :: "codec \<Rightarrow> json \<Rightarrow> (int \<times> int \<times> uuid option) option" where
  "parse_level_request c j = do {
     kvs \<leftarrow> closed_object [''on_hand'', ''allocation_priority'', ''routing_group''] j;
     on_hand \<leftarrow> required (k_int c) kvs ''on_hand'';
     on_hand \<leftarrow> at_least 0 on_hand;
     priority \<leftarrow> required (k_int c) kvs ''allocation_priority'';
     priority \<leftarrow> at_least 0 priority;
     group \<leftarrow> nullable (k_uuid c) kvs ''routing_group'';
     Some (on_hand, priority, group) }"

definition parse_product_request :: "json \<Rightarrow> (string \<times> string) option" where
  "parse_product_request j = do {
     kvs \<leftarrow> closed_object [''sku'', ''name''] j;
     sku \<leftarrow> required text_of kvs ''sku'';
     name \<leftarrow> required text_of kvs ''name'';
     Some (sku, name) }"

definition parse_capabilities :: "codec \<Rightarrow> json \<Rightarrow> capabilities option" where
  "parse_capabilities c j = do {
     kvs \<leftarrow> closed_object [''availability'', ''hold'', ''confirm'', ''release''] j;
     availability \<leftarrow> required (k_bool c) kvs ''availability'';
     hold \<leftarrow> required (k_bool c) kvs ''hold'';
     confirm \<leftarrow> required (k_bool c) kvs ''confirm'';
     release \<leftarrow> required (k_bool c) kvs ''release'';
     Some \<lparr>cp_availability = availability, cp_hold = hold, cp_confirm = confirm, cp_release = release\<rparr> }"

definition parse_register_request :: "codec \<Rightarrow> json \<Rightarrow> register_command option" where
  "parse_register_request c j = do {
     kvs \<leftarrow> closed_object [''name'', ''kind'', ''driver'', ''base_url'', ''request_timeout_ms'', ''capabilities''] j;
     name \<leftarrow> required text_of kvs ''name'';
     kind \<leftarrow> required kind_of kvs ''kind'';
     driver \<leftarrow> required text_of kvs ''driver'';
     base_url \<leftarrow> nullable text_of kvs ''base_url'';
     timeout \<leftarrow> required (k_int c) kvs ''request_timeout_ms'';
     cap \<leftarrow> required (parse_capabilities c) kvs ''capabilities'';
     Some \<lparr>rg_name = name, rg_kind = kind, rg_driver = driver, rg_base_url = base_url, rg_timeout_ms = timeout,
       rg_availability = cp_availability cap, rg_hold = cp_hold cap, rg_confirm = cp_confirm cap,
       rg_release = cp_release cap\<rparr> }"

definition parse_update_request :: "codec \<Rightarrow> json \<Rightarrow> update_command option" where
  "parse_update_request c j = do {
     kvs \<leftarrow> closed_object [''name'', ''base_url'', ''request_timeout_ms'', ''capabilities''] j;
     name \<leftarrow> nullable text_of kvs ''name'';
     base_url \<leftarrow> nullable text_of kvs ''base_url'';
     timeout \<leftarrow> nullable (k_int c) kvs ''request_timeout_ms'';
     cap \<leftarrow> nullable (parse_capabilities c) kvs ''capabilities'';
     Some \<lparr>up_name = name, up_base_url = base_url, up_timeout_ms = timeout, up_capabilities = cap\<rparr> }"

definition parse_credentials_request :: "json \<Rightarrow> credentials_command option" where
  "parse_credentials_request j = do {
     kvs \<leftarrow> closed_object [''auth_type'', ''secret_ref'', ''public_config''] j;
     auth \<leftarrow> required auth_of kvs ''auth_type'';
     secret \<leftarrow> nullable text_of kvs ''secret_ref'';
     config \<leftarrow> (case member kvs ''public_config'' of None \<Rightarrow> Some [] | Some x \<Rightarrow> object_of x);
     Some \<lparr>cr_auth = auth, cr_secret_ref = secret, cr_config = config\<rparr> }"

subsection \<open>Responses\<close>

datatype body = No_Body | Json json | Validation_Detail | Text string

record http_response =
  hr_status :: nat
  hr_body :: body

definition json_response :: "nat \<Rightarrow> json \<Rightarrow> http_response" where
  "json_response status j = \<lparr>hr_status = status, hr_body = Json j\<rparr>"

definition unprocessable :: http_response where
  "unprocessable = \<lparr>hr_status = 422, hr_body = Validation_Detail\<rparr>"

definition json_uuid :: "uuid \<Rightarrow> json" where
  "json_uuid u = JStr (uuid_str u)"

definition or_null :: "('a \<Rightarrow> json) \<Rightarrow> 'a option \<Rightarrow> json" where
  "or_null f x = (case x of None \<Rightarrow> JNull | Some y \<Rightarrow> f y)"

definition item_response :: "item \<Rightarrow> json" where
  "item_response i = JObj [(''product_id'', json_uuid (it_product i)), (''provider_id'', json_uuid (it_provider i)),
     (''quantity'', JNum (it_quantity i))]"

definition reservation_response :: "codec \<Rightarrow> reservation \<Rightarrow> json" where
  "reservation_response c r = JObj [(''id'', json_uuid (res_id r)), (''user_id'', json_uuid (res_user r)),
     (''status'', JStr (status_value (res_status r))), (''items'', JList (map item_response (res_items r))),
     (''created_at'', JStr (k_time c (res_created r))), (''expires_at'', JStr (k_time c (res_expires r)))]"

text \<open>The level endpoints leave out a missing routing group.\<close>

definition level_response :: "offer_row \<Rightarrow> json" where
  "level_response r = JObj ([(''product_id'', json_uuid (o_product r)), (''provider_id'', json_uuid (o_provider r)),
     (''on_hand'', JNum (o_on_hand r)), (''reserved'', JNum (o_reserved r)),
     (''available'', JNum (o_on_hand r - o_reserved r)), (''allocation_priority'', JNum (o_priority r)),
     (''version'', JNum (o_version r))] @
     (case o_group r of None \<Rightarrow> [] | Some g \<Rightarrow> [(''routing_group'', json_uuid g)]))"

definition product_response :: "product_row \<Rightarrow> json" where
  "product_response p = JObj [(''id'', json_uuid (p_id p)), (''sku'', JStr (p_sku p)), (''name'', JStr (p_name p)),
     (''is_active'', JBool (p_active p))]"

definition capabilities_response :: "provider_row \<Rightarrow> json" where
  "capabilities_response r = JObj [(''availability'', JBool (v_availability r)), (''hold'', JBool (v_hold r)),
     (''confirm'', JBool (v_confirm r)), (''release'', JBool (v_release r))]"

definition provider_response :: "provider_row \<Rightarrow> json" where
  "provider_response r = JObj [(''id'', json_uuid (v_id r)), (''name'', JStr (v_name r)),
     (''kind'', JStr (kind_value (v_kind r))), (''driver'', JStr (v_driver r)),
     (''base_url'', or_null JStr (v_base_url r)), (''request_timeout_ms'', JNum (v_timeout_ms r)),
     (''capabilities'', capabilities_response r), (''is_enabled'', JBool (v_enabled r))]"

definition credentials_response :: "credential_row \<Rightarrow> json" where
  "credentials_response r = JObj [(''provider_id'', json_uuid (c_provider r)),
     (''auth_type'', JStr (auth_value (c_auth r))), (''secret_ref'', or_null JStr (c_secret_ref r)),
     (''public_config'', JObj (c_config r))]"

subsection \<open>Errors\<close>

text \<open>\<open>ErrorResponse\<close> and its relatives, without the members that are \<open>None\<close>.\<close>

definition error_body :: "nat \<Rightarrow> string \<Rightarrow> string \<Rightarrow> (string \<times> json) list \<Rightarrow> http_response" where
  "error_body status error_code message details = json_response status
     (JObj [(''error'', JObj ([(''code'', JStr error_code), (''message'', JStr message)] @ details))])"

definition handle_idempotency_conflict :: "uuid \<Rightarrow> http_response" where
  "handle_idempotency_conflict rid = error_body 409 ''idempotency_conflict''
     ''Idempotency key is already associated with a different request.'' [(''reservation_id'', json_uuid rid)]"

definition handle_insufficient_inventory :: http_response where
  "handle_insufficient_inventory =
     error_body 409 ''insufficient_inventory'' ''Requested inventory is not available.'' []"

definition handle_reservation_not_found :: "uuid \<Rightarrow> http_response" where
  "handle_reservation_not_found rid = error_body 404 ''reservation_not_found'' ''Reservation was not found.''
     [(''reservation_id'', json_uuid rid)]"

definition handle_reservation_not_cancellable :: "uuid \<Rightarrow> http_response" where
  "handle_reservation_not_cancellable rid = error_body 409 ''reservation_not_cancellable''
     ''Confirmed reservation cannot be cancelled.'' [(''reservation_id'', json_uuid rid)]"

definition handle_reservation_not_confirmable :: "uuid \<Rightarrow> http_response" where
  "handle_reservation_not_confirmable rid = error_body 409 ''reservation_not_confirmable''
     ''Cancelled reservation cannot be confirmed.'' [(''reservation_id'', json_uuid rid)]"

definition handle_reconciliation_required :: "uuid \<Rightarrow> http_response" where
  "handle_reconciliation_required rid = error_body 409 ''reservation_reconciliation_required''
     ''Reservation has an unknown provider outcome and requires reconciliation.'' [(''reservation_id'', json_uuid rid)]"

definition handle_inventory_below_reserved :: "uuid \<Rightarrow> uuid \<Rightarrow> int \<Rightarrow> http_response" where
  "handle_inventory_below_reserved p v n = error_body 409 ''inventory_below_reserved''
     ''On-hand inventory cannot be lower than reserved inventory.''
     [(''product_id'', json_uuid p), (''provider_id'', json_uuid v), (''reserved'', JNum n)]"

definition handle_inventory_has_active_reservations :: "uuid \<Rightarrow> uuid \<Rightarrow> int \<Rightarrow> http_response" where
  "handle_inventory_has_active_reservations p v n = error_body 409 ''inventory_has_active_reservations''
     ''Inventory with active reservations cannot be unassigned.''
     [(''product_id'', json_uuid p), (''provider_id'', json_uuid v), (''reserved'', JNum n)]"

definition handle_inventory_level_not_found :: "uuid \<Rightarrow> uuid \<Rightarrow> http_response" where
  "handle_inventory_level_not_found p v = error_body 404 ''inventory_level_not_found''
     ''Inventory level was not found.'' [(''product_id'', json_uuid p), (''provider_id'', json_uuid v)]"

definition handle_invalid_product_configuration :: "string \<Rightarrow> http_response" where
  "handle_invalid_product_configuration message = error_body 422 ''invalid_product_configuration'' message []"

definition handle_product_sku_conflict :: "string \<Rightarrow> http_response" where
  "handle_product_sku_conflict sku = error_body 409 ''product_sku_conflict'' ''Product SKU is already in use.''
     [(''sku'', JStr sku)]"

definition handle_product_not_found :: "uuid \<Rightarrow> http_response" where
  "handle_product_not_found pid = error_body 404 ''product_not_found'' ''Product was not found.''
     [(''product_id'', json_uuid pid)]"

definition handle_invalid_provider_configuration :: "string \<Rightarrow> http_response" where
  "handle_invalid_provider_configuration message = error_body 422 ''invalid_provider_configuration'' message []"

definition handle_provider_not_found :: "uuid \<Rightarrow> http_response" where
  "handle_provider_not_found pid = error_body 404 ''provider_not_found'' ''Provider was not found.''
     [(''provider_id'', json_uuid pid)]"

definition handle_provider_name_conflict :: "string \<Rightarrow> http_response" where
  "handle_provider_name_conflict name = error_body 409 ''provider_name_conflict''
     ''Provider name is already in use.'' [(''provider_name'', JStr name)]"

text \<open>\<open>create_app\<close>: the exceptions with a handler.\<close>

definition exception_handler :: "exn \<Rightarrow> http_response option" where
  "exception_handler e = (case e of
     InventoryBelowReservedError p v n \<Rightarrow> Some (handle_inventory_below_reserved p v n)
   | InventoryHasActiveReservationsError p v n \<Rightarrow> Some (handle_inventory_has_active_reservations p v n)
   | InventoryLevelNotFoundError p v \<Rightarrow> Some (handle_inventory_level_not_found p v)
   | InvalidProductConfigurationError message \<Rightarrow> Some (handle_invalid_product_configuration message)
   | ProductSkuConflictError sku \<Rightarrow> Some (handle_product_sku_conflict sku)
   | ProductNotFoundError pid \<Rightarrow> Some (handle_product_not_found pid)
   | ProviderNotFoundError pid \<Rightarrow> Some (handle_provider_not_found pid)
   | InvalidProviderConfigurationError message \<Rightarrow> Some (handle_invalid_provider_configuration message)
   | ProviderNameConflictError name \<Rightarrow> Some (handle_provider_name_conflict name)
   | IdempotencyConflictError key rid \<Rightarrow> Some (handle_idempotency_conflict rid)
   | InsufficientInventoryError its \<Rightarrow> Some handle_insufficient_inventory
   | ReservationNotFoundError rid \<Rightarrow> Some (handle_reservation_not_found rid)
   | ReservationNotCancellableError rid \<Rightarrow> Some (handle_reservation_not_cancellable rid)
   | ReservationNotConfirmableError rid \<Rightarrow> Some (handle_reservation_not_confirmable rid)
   | ReservationReconciliationRequiredError rid \<Rightarrow> Some (handle_reconciliation_required rid)
   | _ \<Rightarrow> None)"

text \<open>An exception without a handler is the framework's \<open>500 Internal Server Error\<close>.\<close>

definition error_response :: "exn \<Rightarrow> http_response" where
  "error_response e = (case exception_handler e of
     Some r \<Rightarrow> r | None \<Rightarrow> \<lparr>hr_status = 500, hr_body = Text ''Internal Server Error''\<rparr>)"

definition answer :: "'a io \<Rightarrow> ('a \<Rightarrow> http_response) \<Rightarrow> world \<Rightarrow> http_response \<times> world" where
  "answer m f w = (case m w of (Inl e, w') \<Rightarrow> (error_response e, w') | (Inr x, w') \<Rightarrow> (f x, w'))"

text \<open>A handler runs when every parameter of its endpoint is valid.\<close>

definition with_valid :: "'a option \<Rightarrow> ('a \<Rightarrow> world \<Rightarrow> http_response \<times> world) \<Rightarrow> world \<Rightarrow> http_response \<times> world" where
  "with_valid x f w = (case x of None \<Rightarrow> (unprocessable, w) | Some y \<Rightarrow> f y w)"

definition both :: "'a option \<Rightarrow> 'b option \<Rightarrow> ('a \<times> 'b) option" where
  "both x y = (case (x, y) of (Some a, Some b) \<Rightarrow> Some (a, b) | _ \<Rightarrow> None)"

subsection \<open>Reservations\<close>

definition post_reservation :: "environment \<Rightarrow> codec \<Rightarrow> (database \<Rightarrow> database) \<Rightarrow> duration \<Rightarrow> string option \<Rightarrow>
    string option \<Rightarrow> json option \<Rightarrow> world \<Rightarrow> http_response \<times> world" where
  "post_reservation E c other ttl user_header key_header body =
     with_valid (both (Option.bind user_header (k_text_uuid c))
         (both (Option.bind key_header parse_key) (Option.bind body (parse_create_request c))))
       (\<lambda>(user, key, requested).
         answer (andThen (lift_sum (sum_map (\<lambda>(product, provider, quantity). mk_item product provider quantity) requested))
             (\<lambda>its. create E other ttl user its key))
           (\<lambda>r. json_response 201 (reservation_response c r)))"

definition found_or_404 :: "uuid \<Rightarrow> reservation option \<Rightarrow> reservation io" where
  "found_or_404 rid found = (case found of None \<Rightarrow> raise (ReservationNotFoundError rid) | Some r \<Rightarrow> ret r)"

definition get_reservation :: "environment \<Rightarrow> codec \<Rightarrow> string \<Rightarrow> string option \<Rightarrow> world \<Rightarrow> http_response \<times> world" where
  "get_reservation E c rid_text user_header =
     with_valid (both (k_text_uuid c rid_text) (Option.bind user_header (k_text_uuid c))) (\<lambda>(rid, user).
       answer (andThen (get E rid) (\<lambda>found.
           if found = None \<or> res_user (the found) \<noteq> user then raise (ReservationNotFoundError rid)
           else ret (the found)))
         (\<lambda>r. json_response 200 (reservation_response c r)))"

definition post_confirm :: "environment \<Rightarrow> codec \<Rightarrow> string \<Rightarrow> string option \<Rightarrow> world \<Rightarrow> http_response \<times> world" where
  "post_confirm E c rid_text user_header =
     with_valid (both (k_text_uuid c rid_text) (Option.bind user_header (k_text_uuid c))) (\<lambda>(rid, user).
       answer (andThen (confirm E rid user) (found_or_404 rid))
         (\<lambda>r. json_response 200 (reservation_response c r)))"

definition post_cancel :: "environment \<Rightarrow> codec \<Rightarrow> string \<Rightarrow> string option \<Rightarrow> world \<Rightarrow> http_response \<times> world" where
  "post_cancel E c rid_text user_header =
     with_valid (both (k_text_uuid c rid_text) (Option.bind user_header (k_text_uuid c))) (\<lambda>(rid, user).
       answer (andThen (cancel E rid user) (found_or_404 rid))
         (\<lambda>r. json_response 200 (reservation_response c r)))"

subsection \<open>Products and levels\<close>

definition post_product :: "environment \<Rightarrow> json option \<Rightarrow> world \<Rightarrow> http_response \<times> world" where
  "post_product E body = with_valid (Option.bind body parse_product_request) (\<lambda>(sku, name).
     answer (create_product E sku name) (\<lambda>p. json_response 201 (product_response p)))"

definition get_product_by_id :: "environment \<Rightarrow> codec \<Rightarrow> string \<Rightarrow> world \<Rightarrow> http_response \<times> world" where
  "get_product_by_id E c pid_text = with_valid (k_text_uuid c pid_text) (\<lambda>pid.
     answer (get_product E pid) (\<lambda>p. json_response 200 (product_response p)))"

definition get_products :: "environment \<Rightarrow> (string \<Rightarrow> nat) \<Rightarrow> world \<Rightarrow> http_response \<times> world" where
  "get_products E collation =
     answer (list_products E collation) (\<lambda>ps. json_response 200 (JList (map product_response ps)))"

definition get_levels :: "environment \<Rightarrow> codec \<Rightarrow> string \<Rightarrow> world \<Rightarrow> http_response \<times> world" where
  "get_levels E c pid_text = with_valid (k_text_uuid c pid_text) (\<lambda>pid.
     answer (list_product_inventory E pid) (\<lambda>rs. json_response 200 (JList (map level_response rs))))"

definition get_level :: "environment \<Rightarrow> codec \<Rightarrow> string \<Rightarrow> string \<Rightarrow> world \<Rightarrow> http_response \<times> world" where
  "get_level E c product_text provider_text =
     with_valid (both (k_text_uuid c product_text) (k_text_uuid c provider_text)) (\<lambda>(p, v).
       answer (get_inventory_level E p v) (\<lambda>r. json_response 200 (level_response r)))"

definition delete_level :: "environment \<Rightarrow> codec \<Rightarrow> string \<Rightarrow> string \<Rightarrow> world \<Rightarrow> http_response \<times> world" where
  "delete_level E c product_text provider_text =
     with_valid (both (k_text_uuid c product_text) (k_text_uuid c provider_text)) (\<lambda>(p, v).
       answer (remove_inventory_level E p v) (\<lambda>_. \<lparr>hr_status = 204, hr_body = No_Body\<rparr>))"

definition put_level :: "environment \<Rightarrow> codec \<Rightarrow> string \<Rightarrow> string \<Rightarrow> json option \<Rightarrow> world \<Rightarrow> http_response \<times> world" where
  "put_level E c product_text provider_text body =
     with_valid (both (both (k_text_uuid c product_text) (k_text_uuid c provider_text))
         (Option.bind body (parse_level_request c))) (\<lambda>((p, v), on_hand, priority, group).
       answer (set_inventory_level E p v on_hand priority group) (\<lambda>r. json_response 200 (level_response r)))"

subsection \<open>Providers\<close>

definition get_providers :: "environment \<Rightarrow> (string \<Rightarrow> nat) \<Rightarrow> world \<Rightarrow> http_response \<times> world" where
  "get_providers E collation =
     answer (list_providers E collation) (\<lambda>rs. json_response 200 (JList (map provider_response rs)))"

definition post_provider :: "environment \<Rightarrow> (string \<Rightarrow> bool) \<Rightarrow> codec \<Rightarrow> json option \<Rightarrow> world \<Rightarrow> http_response \<times> world" where
  "post_provider E netloc_ok c body = with_valid (Option.bind body (parse_register_request c)) (\<lambda>command.
     answer (register_provider E netloc_ok command) (\<lambda>r. json_response 201 (provider_response r)))"

definition get_provider_by_id :: "environment \<Rightarrow> codec \<Rightarrow> string \<Rightarrow> world \<Rightarrow> http_response \<times> world" where
  "get_provider_by_id E c pid_text = with_valid (k_text_uuid c pid_text) (\<lambda>pid.
     answer (get_provider E pid) (\<lambda>r. json_response 200 (provider_response r)))"

definition patch_provider ::
  "environment \<Rightarrow> (string \<Rightarrow> bool) \<Rightarrow> codec \<Rightarrow> string \<Rightarrow> json option \<Rightarrow> world \<Rightarrow> http_response \<times> world" where
  "patch_provider E netloc_ok c pid_text body =
     with_valid (both (k_text_uuid c pid_text) (Option.bind body (parse_update_request c))) (\<lambda>(pid, command).
       answer (update_provider E netloc_ok pid command) (\<lambda>r. json_response 200 (provider_response r)))"

definition post_enable :: "environment \<Rightarrow> (string \<Rightarrow> bool) \<Rightarrow> codec \<Rightarrow> string \<Rightarrow> world \<Rightarrow> http_response \<times> world" where
  "post_enable E netloc_ok c pid_text = with_valid (k_text_uuid c pid_text) (\<lambda>pid.
     answer (enable_provider E netloc_ok pid) (\<lambda>r. json_response 200 (provider_response r)))"

definition post_disable :: "environment \<Rightarrow> codec \<Rightarrow> string \<Rightarrow> world \<Rightarrow> http_response \<times> world" where
  "post_disable E c pid_text = with_valid (k_text_uuid c pid_text) (\<lambda>pid.
     answer (disable_provider E pid) (\<lambda>r. json_response 200 (provider_response r)))"

definition put_credentials :: "environment \<Rightarrow> codec \<Rightarrow> string \<Rightarrow> json option \<Rightarrow> world \<Rightarrow> http_response \<times> world" where
  "put_credentials E c pid_text body =
     with_valid (both (k_text_uuid c pid_text) (Option.bind body parse_credentials_request)) (\<lambda>(pid, command).
       answer (set_provider_credentials E pid command) (\<lambda>r. json_response 200 (credentials_response r)))"

subsection \<open>Operations\<close>

text \<open>\<open>database_is_ready\<close> is absent, or what \<open>Database.is_ready\<close> answered.\<close>

definition get_liveness :: http_response where
  "get_liveness = json_response 200 (JObj [(''status'', JStr ''ok'')])"

definition get_readiness :: "bool option \<Rightarrow> http_response" where
  "get_readiness database_is_ready =
     (let database_ready = (case database_is_ready of None \<Rightarrow> False | Some b \<Rightarrow> b) in
      if database_ready
      then json_response 200 (JObj [(''status'', JStr ''ready''), (''checks'', JObj [(''database'', JStr ''up'')])])
      else json_response 503 (JObj [(''status'', JStr ''not_ready''), (''checks'', JObj [(''database'', JStr ''down'')])]))"

end
