(* ===== verification/Sample_Run.thy ===== *)
theory Sample_Run
  imports Shop_System
begin

section \<open>A run of the system\<close>

text \<open>
  From the empty database: a product, an internal seller with five pieces of it, a reservation of
  two. The states are computed from the model's operations; the witnesses of the system's
  properties start from them.
\<close>

definition seller :: provider_row where
  "seller = \<lparr>v_id = 1000, v_name = ''own'', v_kind = Internal, v_driver = ''internal'', v_base_url = None,
     v_timeout_ms = 2000, v_availability = False, v_hold = True, v_confirm = True, v_release = True, v_enabled = True\<rparr>"

definition stocked_database :: database where
  "stocked_database = empty_database\<lparr>
     products := [\<lparr>p_id = 1000, p_sku = ''A'', p_name = ''B'', p_active = True\<rparr>],
     providers := [seller], offers := [level_row 1000 1000 5 1 None]\<rparr>"

definition offline :: environment where
  "offline = sample_environment Timed_Out"

lemmas text_simps = py_strip_def py_space_def code_def char_of_def bit_Suc_0_iff

lemma selling_step:
  "create_product offline ''A'' ''B'' (world_of empty_database) =
     (Inr \<lparr>p_id = 1000, p_sku = ''A'', p_name = ''B'', p_active = True\<rparr>,
      (begin_transaction offline ((world_of empty_database)\<lparr>w_ids := 1\<rparr>))
        \<lparr>w_db := empty_database\<lparr>products := [\<lparr>p_id = 1000, p_sku = ''A'', p_name = ''B'', p_active = True\<rparr>]\<rparr>\<rparr>)"
  by (simp add: Let_def create_product_def insert_product_io_def insert_product_def transaction_def prog_simps offline_def
      begin_transaction_def sample_simps empty_database_def find_product_def text_simps)

abbreviation listed_database :: database where
  "listed_database \<equiv> empty_database\<lparr>products := [\<lparr>p_id = 1000, p_sku = ''A'', p_name = ''B'', p_active = True\<rparr>]\<rparr>"

definition register_own :: register_command where
  "register_own = \<lparr>rg_name = ''own'', rg_kind = Internal, rg_driver = ''internal'', rg_base_url = None,
     rg_timeout_ms = 2000, rg_availability = False, rg_hold = True, rg_confirm = True, rg_release = True\<rparr>"

lemma registering_step:
  "\<exists>w'. register_provider offline (\<lambda>_. True) register_own (world_of listed_database) =
     (Inr (seller\<lparr>v_enabled := False\<rparr>), w') \<and>
   w_db w' = listed_database\<lparr>providers := [seller\<lparr>v_enabled := False\<rparr>]\<rparr>"
  by (simp add: register_provider_def registered_row_def validate_provider_def add_provider_def insert_provider_def
      provider_columns_fit_def provider_checks_def int4_def register_own_def seller_def
      transaction_def prog_simps offline_def begin_transaction_def sample_simps empty_database_def
      find_provider_def text_simps)

lemma enabling_step:
  "\<exists>w'. enable_provider offline (\<lambda>_. True) 1000
      (world_of (listed_database\<lparr>providers := [seller\<lparr>v_enabled := False\<rparr>]\<rparr>)) = (Inr seller, w') \<and>
   w_db w' = listed_database\<lparr>providers := [seller]\<rparr>"
  by (simp add: enable_provider_def get_provider_def set_enabled_def map_provider_def validate_provider_def
      seller_def transaction_def prog_simps offline_def begin_transaction_def sample_simps empty_database_def
      find_provider_def text_simps)

lemma stocking_step:
  "\<exists>w'. set_inventory_level offline 1000 1000 5 1 None (world_of (listed_database\<lparr>providers := [seller]\<rparr>)) =
     (Inr (level_row 1000 1000 5 1 None), w') \<and> w_db w' = stocked_database"
  by (simp add: set_inventory_level_def require_product_def require_provider_def product_exists_def
      provider_exists_def set_level_def int4_def offer_checks_def level_row_def insert_offer_def Let_def
      stocked_database_def seller_def transaction_def prog_simps offline_def begin_transaction_def sample_simps
      empty_database_def find_provider_def find_product_def find_offer_def)

lemma world_of_db [simp]: "w_db (world_of d) = d"
  by (simp add: world_of_def)

lemma commits_from:
  "commits strict E (w_db (world_of d)) (w_db w') \<Longrightarrow> w_db w' = d' \<Longrightarrow> commits strict E d d'"
  by simp

abbreviation open_database :: database where
  "open_database \<equiv> listed_database\<lparr>providers := [seller]\<rparr>"

lemma opened: "commits strict offline empty_database open_database"
proof -
  have "commits strict offline empty_database listed_database"
    by (rule commits_from [OF commits.selling [OF selling_step]]) simp
  moreover obtain w1 where reg: "register_provider offline (\<lambda>_. True) register_own (world_of listed_database) =
      (Inr (seller\<lparr>v_enabled := False\<rparr>), w1)" "w_db w1 = listed_database\<lparr>providers := [seller\<lparr>v_enabled := False\<rparr>]\<rparr>"
    using registering_step by blast
  note commits_from [OF commits.registering [OF reg(1)] reg(2), of strict]
  moreover obtain w2 where en: "enable_provider offline (\<lambda>_. True) 1000
      (world_of (listed_database\<lparr>providers := [seller\<lparr>v_enabled := False\<rparr>]\<rparr>)) = (Inr seller, w2)"
    "w_db w2 = open_database"
    using enabling_step by blast
  note commits_from [OF commits.enabling [OF en(1)] en(2), of strict]
  ultimately show ?thesis by (blast intro: commits.in_turn)
qed

lemma stocked: "commits strict offline empty_database stocked_database"
proof -
  obtain w3 where st: "set_inventory_level offline 1000 1000 5 1 None (world_of open_database) =
      (Inr (level_row 1000 1000 5 1 None), w3)" "w_db w3 = stocked_database"
    using stocking_step by blast
  note commits_from [OF commits.stocking [OF st(1)] st(2), of strict]
  with opened show ?thesis by (blast intro: commits.in_turn)
qed

text \<open>A reservation of two pieces, for ten minutes.\<close>

definition two_pieces :: "item list" where
  "two_pieces = [\<lparr>it_product = 1000, it_provider = 1000, it_quantity = 2\<rparr>]"

definition reserved_row :: reservation_row where
  "reserved_row = \<lparr>r_id = 1000, r_user = 7, r_key = ''k'',
     r_fingerprint = reservation_request_fingerprint two_pieces, r_status = M_Pending,
     r_expires = 601, r_created = 1, r_updated = 0, r_target = None, r_failure_code = None, r_failure_reason = None\<rparr>"

definition reserved_item :: item_row where
  "reserved_item = \<lparr>ri_id = 1001, ri_reservation = 1000, ri_product = 1000, ri_provider = 1000, ri_quantity = 2\<rparr>"

definition reserved_allocation :: allocation_row where
  "reserved_allocation = \<lparr>al_id = 1002, al_item = 1001, al_provider = 1000, al_quantity = 2, al_status = A_Held,
     al_hold_key = hold_idempotency_key 1000 1000 1000, al_reference = None\<rparr>"

definition reserved_database :: database where
  "reserved_database = stocked_database\<lparr>
     offers := [hold_stock 2 (level_row 1000 1000 5 1 None)],
     reservations := [reserved_row], items := [reserved_item], allocations := [reserved_allocation]\<rparr>"

lemma length_fingerprint [simp]: "length (reservation_request_fingerprint its) = 64"
  by (simp add: reservation_request_fingerprint_def length_sha256_hex)

lemma length_hold_key [simp]: "length (hold_idempotency_key a b c) = 144"
  by (simp add: hold_idempotency_key_def)

lemmas find_simps = find_product_def find_provider_def find_credential_def find_offer_def find_reservation_def
  find_item_def find_operation_def find_order_def

lemma own_candidates:
  assumes "offers d = [level_row 1000 1000 5 1 None]" "providers d = [seller]" "credentials d = []"
  shows "routing_candidates 1000 1000 d = [(seller, None)]"
  using assms
  by (simp add: routing_candidates_def find_simps in_selected_group_def level_row_def seller_def Let_def)

lemma own_configured: "configure E [(seller, None)] w = (Inr [(seller, internal_port 1000)], w)"
  by (simp add: configure_def hold_provider_def prog_simps seller_def map_filter_simps)

lemma own_try_hold:
  assumes "offers (w_db w) = [level_row 1000 1000 5 1 None]"
  shows "try_hold 1000 1000 2 w = (Inr (Some (snapshot_of (hold_stock 2 (level_row 1000 1000 5 1 None)))),
    w\<lparr>w_db := (w_db w)\<lparr>offers := [hold_stock 2 (level_row 1000 1000 5 1 None)]\<rparr>\<rparr>)"
proof -
  have "find_offer 1000 1000 (w_db w) = Some (level_row 1000 1000 5 1 None)"
    using assms by (simp add: find_offer_def level_row_def)
  moreover have "offer_ok (hold_stock 2 (level_row 1000 1000 5 1 None))"
    by (simp add: offer_ok_iff hold_stock_def level_row_def)
  ultimately show ?thesis
    using assms by (simp add: try_hold_def update_offer_run map_offer_def offer_at_def level_row_def)
qed

lemma own_hold:
  assumes "offers (w_db w) = [level_row 1000 1000 5 1 None]" "providers (w_db w) = [seller]"
    "credentials (w_db w) = []"
  shows "try_hold_selected E 1000 1000 2 key w = (Inr (Some \<lparr>ph_provider = 1000, ph_reference = None\<rparr>),
    w\<lparr>w_db := (w_db w)\<lparr>offers := [hold_stock 2 (level_row 1000 1000 5 1 None)]\<rparr>\<rparr>)"
proof -
  have "checks_availability [(seller, internal_port 1000)] v = False" for v
    by (simp add: checks_availability_def seller_def)
  with own_try_hold [OF assms(1)] show ?thesis
    by (simp add: try_hold_selected_def andThen_def db_query_def own_candidates [OF assms] own_configured
        check_candidate_def internal_port_def ret_def hold_held_def)
qed

lemma own_rows:
  assumes "w_db w = stocked_database" "w_ids w = 1" "w_now w = 0"
  shows "add_with_hold offline \<lparr>res_id = 1000, res_user = 7, res_items = two_pieces, res_key = ''k'',
      res_fingerprint = reservation_request_fingerprint two_pieces, res_created = 1, res_expires = 601,
      res_status = Pending, res_target = None\<rparr> w =
    (Inr True, w\<lparr>w_ids := 3, w_db := reserved_database\<rparr>)"
proof -
  let ?fp = "reservation_request_fingerprint two_pieces"
  have row: "insert_reservation reserved_row stocked_database = Inr (stocked_database\<lparr>reservations := [reserved_row]\<rparr>)"
    by (simp add: insert_reservation_def reserved_row_def stocked_database_def empty_database_def find_simps)
  have item: "insert_item reserved_item (stocked_database\<lparr>reservations := [reserved_row]\<rparr>) =
      Inr (stocked_database\<lparr>reservations := [reserved_row], items := [reserved_item]\<rparr>)"
    by (simp add: insert_item_def int4_def reserved_item_def reserved_row_def stocked_database_def seller_def
        empty_database_def find_simps)
  let ?d = "stocked_database\<lparr>reservations := [reserved_row], items := [reserved_item],
      offers := [hold_stock 2 (level_row 1000 1000 5 1 None)]\<rparr>"
  have alloc: "insert_allocation reserved_allocation ?d = Inr (?d\<lparr>allocations := [reserved_allocation]\<rparr>)"
    by (simp add: insert_allocation_def reserved_allocation_def reserved_item_def stocked_database_def seller_def
        empty_database_def find_simps)
  have model: "to_model 0 \<lparr>res_id = 1000, res_user = 7, res_items = two_pieces, res_key = ''k'',
      res_fingerprint = ?fp, res_created = 1, res_expires = 601, res_status = Pending, res_target = None\<rparr> = Inr reserved_row"
    by (simp add: to_model_def optional_status_def reserved_row_def)
  have items: "new_item 1001 1000 \<lparr>it_product = 1000, it_provider = 1000, it_quantity = 2\<rparr> = reserved_item"
    by (simp add: new_item_def reserved_item_def)
  have aid: "new_allocation 1002 reserved_item \<lparr>ph_provider = 1000, ph_reference = None\<rparr>
      (hold_idempotency_key 1000 1000 1000) = reserved_allocation"
    by (simp add: new_allocation_def reserved_item_def reserved_allocation_def)
  have d: "?d\<lparr>allocations := [reserved_allocation]\<rparr> = reserved_database"
    by (simp add: reserved_database_def stocked_database_def empty_database_def)
  have uuids: "e_uuid offline (Suc 0) = 1001" "e_uuid offline 2 = 1002"
    by (simp_all add: offline_def sample_environment_def)
  let ?v = "w\<lparr>w_ids := 2, w_db := stocked_database\<lparr>reservations := [reserved_row], items := [reserved_item]\<rparr>\<rparr>"
  have "insert_items offline 1000 two_pieces (w\<lparr>w_db := stocked_database\<lparr>reservations := [reserved_row]\<rparr>\<rparr>) =
      (Inr [reserved_item], ?v)"
    using assms(2) by (simp add: insert_items_def two_pieces_def prog_simps uuids items item)
  moreover have "offers (w_db ?v) = [level_row 1000 1000 5 1 None]" "providers (w_db ?v) = [seller]"
    "credentials (w_db ?v) = []"
    by (simp_all add: stocked_database_def empty_database_def)
  note own_hold [OF this]
  moreover have "ri_product reserved_item = 1000" "ri_provider reserved_item = 1000" "ri_quantity reserved_item = 2"
    by (simp_all add: reserved_item_def)
  ultimately show ?thesis
    using assms by (simp add: add_with_hold_def prog_simps model row Let_def uuids aid alloc d)
qed

lemma reserving_step:
  "\<exists>w' r. create offline (\<lambda>_. stocked_database) 600 7 two_pieces ''k'' (world_of stocked_database) = (Inr r, w') \<and>
     w_db w' = reserved_database \<and> res_id r = 1000 \<and> res_status r = Pending"
proof -
  have none: "get_by_idempotency_key 7 ''k'' (begin_transaction offline (world_of stocked_database)) =
      (Inr None, begin_transaction offline (world_of stocked_database))"
    by (simp add: get_by_idempotency_key_def row_to_domain_def prog_simps stocked_database_def empty_database_def)
  have nonempty: "two_pieces \<noteq> []" by (simp add: two_pieces_def)
  have env: "e_uuid offline 0 = 1000" "e_utc offline (Suc 0) = 1" by (simp_all add: offline_def sample_environment_def)
  have w: "w_ids (world_of stocked_database) = 0" "w_ticks (begin_transaction offline (world_of stocked_database)) = 1"
    "w_now (begin_transaction offline (world_of stocked_database)) = 0"
    by (simp_all add: world_of_def begin_transaction_def offline_def sample_environment_def)
  show ?thesis
    by (simp add: create_def create_body_def reservation_transaction_cases transaction_def Let_def prog_simps none env w
        start_Inr start_def mk_reservation_def nonempty own_rows)
qed

lemma reserving: "commits strict offline stocked_database reserved_database"
proof -
  obtain w' r where "create offline (\<lambda>_. stocked_database) 600 7 two_pieces ''k'' (world_of stocked_database) = (Inr r, w')"
    "w_db w' = reserved_database"
    using reserving_step by blast
  then show ?thesis using commits_from [OF commits.creating] commits.idle by (metis world_of_db)
qed

lemma reserved: "commits strict offline empty_database reserved_database"
  by (rule commits.in_turn [OF stocked reserving])

end
