(* ===== verification/Sample_Closing.thy ===== *)
theory Sample_Closing
  imports Sample_Run
begin

section \<open>Closing the sample reservation\<close>

text \<open>The sample run continued: the reservation cancelled, or confirmed with its order.\<close>

definition reserved_join :: allocation_join where
  "reserved_join = \<lparr>aj_allocation = reserved_allocation, aj_product = 1000, aj_provider = seller,
     aj_credential = None\<rparr>"

definition with_row :: "(reservation_row \<Rightarrow> reservation_row) \<Rightarrow> offer_row \<Rightarrow> allocation_status \<Rightarrow> database" where
  "with_row f level st = stocked_database\<lparr>offers := [level], reservations := [f reserved_row], items := [reserved_item],
     allocations := [reserved_allocation\<lparr>al_status := st\<rparr>]\<rparr>"

abbreviation held_level :: offer_row where
  "held_level \<equiv> hold_stock 2 (level_row 1000 1000 5 1 None)"

lemma reserved_with_row: "reserved_database = with_row (\<lambda>r. r) held_level A_Held"
  by (simp add: with_row_def reserved_database_def stocked_database_def reserved_allocation_def)

lemma with_row_find:
  assumes "r_id (f reserved_row) = 1000"
  shows "find_reservation 1000 (with_row f level st) = Some (f reserved_row)"
    and "find_item 1001 (with_row f level st) = Some reserved_item"
    and "find_provider 1000 (with_row f level st) = Some seller"
    and "find_product 1000 (with_row f level st) = Some \<lparr>p_id = 1000, p_sku = ''A'', p_name = ''B'', p_active = True\<rparr>"
    and "items_of 1000 (with_row f level st) = [reserved_item]"
    and "find_order x (with_row f level st) = None"
    and "credentials (with_row f level st) = []"
    and "find_credential v (with_row f level st) = None"
  using assms by (simp_all add: with_row_def find_simps reserved_item_def stocked_database_def empty_database_def seller_def
      items_of_def)

lemma joined: "allocations_of 1000 reserved_database = [reserved_join]"
proof -
  have "join_allocation 1000 reserved_database reserved_allocation = Some reserved_join"
    unfolding reserved_with_row join_allocation_def
    by (simp add: with_row_find reserved_allocation_def reserved_row_def reserved_join_def)
       (simp add: reserved_item_def seller_def with_row_find reserved_row_def)
  moreover have "allocations reserved_database = [reserved_allocation]" by (simp add: reserved_database_def)
  ultimately show ?thesis by (simp add: allocations_of_def map_filter_simps)
qed

lemma with_row_update:
  "update_reservation 1000 g w = (Inr (), w\<lparr>w_db := with_row (\<lambda>r. touch (w_now w) (f r) (g (f r))) level st\<rparr>)"
  if "w_db w = with_row f level st" "r_id (f reserved_row) = 1000"
  using that by (simp add: update_reservation_def prog_simps map_reservation_def with_row_def stocked_database_def)

lemma with_row_allocation:
  "set_allocation_status 1002 st' w = (Inr (), w\<lparr>w_db := with_row f level st'\<rparr>)"
  if "w_db w = with_row f level st"
  using that by (simp add: set_allocation_status_def prog_simps map_allocation_def with_row_def stocked_database_def
      reserved_allocation_def)

lemma with_row_offer:
  assumes "w_db w = with_row f level st" "o_product level = 1000" "o_provider level = 1000" "cond level" "offer_ok (g level)"
  shows "update_offer 1000 1000 cond g w = (Inr (Some (snapshot_of (g level))), w\<lparr>w_db := with_row f (g level) st\<rparr>)"
proof -
  have "find_offer 1000 1000 (w_db w) = Some level" using assms(1-3) by (simp add: find_offer_def with_row_def)
  moreover have "map_offer 1000 1000 g (w_db w) = with_row f (g level) st"
    using assms(1-3) by (simp add: map_offer_def offer_at_def with_row_def stocked_database_def)
  ultimately show ?thesis using assms(4,5) by (simp add: update_offer_run)
qed


definition cancelled_database :: database where
  "cancelled_database = with_row (\<lambda>r. r\<lparr>r_status := M_Cancelled\<rparr>) (release_stock 2 held_level) A_Released"

definition confirmed_order :: order_row where
  "confirmed_order = \<lparr>od_id = 1000, od_reservation = 1000, od_user = 7\<rparr>"

definition confirmed_database :: database where
  "confirmed_database = (with_row (set_status M_Confirmed) (confirm_stock 2 held_level) A_Confirmed)
     \<lparr>orders := [confirmed_order],
      order_items := [\<lparr>oi_id = 1001, oi_order = 1000, oi_product = 1000, oi_quantity = 2\<rparr>]\<rparr>"

lemma row_simps: "r_id reserved_row = 1000" "r_user reserved_row = 7" "r_status reserved_row = M_Pending"
    "r_target reserved_row = None" "r_updated reserved_row = 0" "r_created reserved_row = 1" "r_expires reserved_row = 601"
  by (simp_all add: reserved_row_def)

lemma owned: "owned_reservation 1000 7 reserved_database = Some reserved_row"
  by (simp add: owned_reservation_def reserved_database_def reserved_row_def)

definition sample_domain :: "reservation_status \<Rightarrow> reservation" where
  "sample_domain st = \<lparr>res_id = 1000, res_user = 7, res_items = two_pieces, res_key = ''k'',
     res_fingerprint = reservation_request_fingerprint two_pieces, res_created = 1, res_expires = 601,
     res_status = st, res_target = None\<rparr>"

lemma row_domain:
  assumes "find_reservation 1000 (w_db w) = Some r" "items_of 1000 (w_db w) = [reserved_item]"
    and "r = reserved_row\<lparr>r_status := st\<rparr>" and "status_of_model st = Inr st'"
  shows "reload_domain 1000 w = (Inr (Some (sample_domain st')), w)"
proof -
  have "to_domain r (w_db w) = Inr (sample_domain st')"
    using assms(2,3,4)
    by (simp add: to_domain_def reserved_row_def item_of_row_def reserved_item_def mk_item_def optional_status_def
        mk_reservation_def Let_def sample_domain_def two_pieces_def)
  then show ?thesis using assms(1) by (simp add: reload_domain_def row_to_domain_def prog_simps)
qed

lemma cancelling_step:
  "\<exists>w'. cancel offline 1000 7 (world_of reserved_database) = (Inr (Some (sample_domain Cancelled)), w') \<and>
     w_db w' = cancelled_database"
proof -
  let ?w = "begin_transaction offline (world_of reserved_database)"
  have now: "w_now ?w = 0" by (simp add: begin_transaction_def world_of_def offline_def sample_environment_def)
  let ?f1 = "\<lambda>r. touch 0 r (set_target M_Cancelled r)"
  let ?f2 = "\<lambda>r. touch 0 (?f1 r) (finish_release False M_Cancelled (?f1 r))"
  let ?w1 = "?w\<lparr>w_db := with_row ?f1 held_level A_Held\<rparr>"
  let ?w2 = "?w\<lparr>w_db := with_row ?f1 (release_stock 2 held_level) A_Held\<rparr>"
  let ?w3 = "?w\<lparr>w_db := with_row ?f1 (release_stock 2 held_level) A_Released\<rparr>"
  have "update_reservation 1000 (set_target M_Cancelled) ?w = (Inr (), ?w1)"
    using with_row_update [of ?w "\<lambda>r. r" held_level A_Held] now
    by (simp add: row_simps reserved_with_row [symmetric])
  moreover have "release_hold 1000 1000 2 ?w1 = (Inr (Some (snapshot_of (release_stock 2 held_level))), ?w2)"
    unfolding release_hold_def
    by (subst with_row_offer [where level = held_level and f = ?f1 and st = A_Held])
      (simp_all add: level_row_def hold_stock_def release_stock_def offer_ok_iff)
  then have "release_allocation offline (first_attempt 1000) reserved_join ?w1 = (Inr R_Released, ?w2)"
    by (simp add: release_allocation_def reserved_join_def reserved_allocation_def seller_def prog_simps)
  moreover have "set_allocation_status 1002 A_Released ?w2 = (Inr (), ?w3)"
    by (subst with_row_allocation [where st = A_Held and f = ?f1]) simp_all
  moreover have "al_id (aj_allocation reserved_join) = 1002" by (simp add: reserved_join_def reserved_allocation_def)
  moreover have "update_reservation 1000 (finish_release False M_Cancelled) ?w3 =
      (Inr (), ?w\<lparr>w_db := with_row ?f2 (release_stock 2 held_level) A_Released\<rparr>)"
    using with_row_update [of ?w3 ?f1 "release_stock 2 held_level" A_Released] now
    by (simp add: row_simps touch_def set_target_def)
  moreover have "?f2 reserved_row = reserved_row\<lparr>r_status := M_Cancelled\<rparr>"
    by (simp add: reserved_row_def touch_def set_target_def finish_release_def)
  then have "with_row ?f2 level st = with_row (\<lambda>r. r\<lparr>r_status := M_Cancelled\<rparr>) level st" for level st
    by (simp add: with_row_def)
  ultimately have rel: "release_reservation offline 1000 M_Cancelled None ?w = (Inr (), ?w\<lparr>w_db := cancelled_database\<rparr>)"
    by (simp add: release_reservation_def release_step_def prog_simps joined cancelled_database_def)
  have "reload_domain 1000 (?w\<lparr>w_db := cancelled_database\<rparr>) =
      (Inr (Some (sample_domain Cancelled)), ?w\<lparr>w_db := cancelled_database\<rparr>)"
    by (rule row_domain [where st = M_Cancelled]) (simp_all add: cancelled_database_def with_row_find row_simps
        stored_status)
  with rel show ?thesis
    by (simp add: cancel_def reservation_transaction_cases transaction_def repo_cancel_def prog_simps owned row_simps)
qed

lemma ordering_step:
  assumes "w_db w = with_row (set_status M_Confirmed) (confirm_stock 2 held_level) A_Confirmed" "w_ids w = 0"
  shows "ensure_order offline reserved_row w = (Inr (), w\<lparr>w_ids := 2, w_db := confirmed_database\<rparr>)"
proof -
  let ?d = "with_row (set_status M_Confirmed) (confirm_stock 2 held_level) A_Confirmed"
  let ?d1 = "?d\<lparr>orders := [confirmed_order]\<rparr>"
  have uuids: "e_uuid offline 0 = 1000" "e_uuid offline (Suc 0) = 1001"
    by (simp_all add: offline_def sample_environment_def)
  have found: "find_reservation 1000 ?d = Some (set_status M_Confirmed reserved_row)"
    by (simp add: with_row_find set_status_def row_simps)
  have "insert_order confirmed_order ?d = Inr ?d1"
    using found by (simp add: insert_order_def confirmed_order_def with_row_find set_status_def row_simps with_row_def
        stocked_database_def empty_database_def find_order_def find_reservation_def)
  moreover have "insert_order_item \<lparr>oi_id = 1001, oi_order = 1000, oi_product = 1000, oi_quantity = 2\<rparr> ?d1 =
      Inr confirmed_database"
    by (simp add: insert_order_item_def confirmed_order_def confirmed_database_def with_row_def
        stocked_database_def empty_database_def find_simps)
  moreover have "ri_product reserved_item = 1000" "ri_quantity reserved_item = 2" by (simp_all add: reserved_item_def)
  moreover have "items_of 1000 ?d1 = [reserved_item]"
    by (simp add: items_of_def with_row_def reserved_item_def)
  moreover have "\<lparr>od_id = 1000, od_reservation = 1000, od_user = 7\<rparr> = confirmed_order" by (simp add: confirmed_order_def)
  ultimately show ?thesis
    using assms found by (simp add: ensure_order_def prog_simps row_simps with_row_find set_status_def insert_line_def uuids)
qed

lemma confirming_step:
  "\<exists>w'. confirm offline 1000 7 (world_of reserved_database) = (Inr (Some (sample_domain Confirmed)), w') \<and>
     w_db w' = confirmed_database"
proof -
  let ?w = "begin_transaction offline (world_of reserved_database)"
  have now: "w_now ?w = 0" "w_ids ?w = 0"
    by (simp_all add: begin_transaction_def world_of_def offline_def sample_environment_def)
  let ?w1 = "?w\<lparr>w_db := with_row (\<lambda>r. r) (confirm_stock 2 held_level) A_Held\<rparr>"
  let ?w2 = "?w\<lparr>w_db := with_row (\<lambda>r. r) (confirm_stock 2 held_level) A_Confirmed\<rparr>"
  let ?w3 = "?w\<lparr>w_db := with_row (set_status M_Confirmed) (confirm_stock 2 held_level) A_Confirmed\<rparr>"
  have "confirm_hold 1000 1000 2 ?w = (Inr (Some (snapshot_of (confirm_stock 2 held_level))), ?w1)"
    unfolding confirm_hold_def
    by (rule with_row_offer)
      (simp_all add: reserved_with_row, simp_all add: level_row_def hold_stock_def confirm_stock_def offer_ok_iff)
  then have "confirm_allocation offline (first_attempt 1000) reserved_join ?w = (Inr C_Confirmed, ?w1)"
    by (simp add: confirm_allocation_def reserved_join_def reserved_allocation_def seller_def prog_simps)
  moreover have "set_allocation_status 1002 A_Confirmed ?w1 = (Inr (), ?w2)"
    by (subst with_row_allocation [where st = A_Held and f = "\<lambda>r. r"]) simp_all
  moreover have "al_id (aj_allocation reserved_join) = 1002" by (simp add: reserved_join_def reserved_allocation_def)
  ultimately have step: "confirm_step offline (first_attempt 1000) reserved_join ?w = (Inr C_Confirmed, ?w2)"
    by (simp add: confirm_step_def prog_simps)
  have same: "with_row (\<lambda>r. touch 0 r (set_status M_Confirmed r)) level st = with_row (set_status M_Confirmed) level st"
    for level st
    by (simp add: with_row_def touch_def reserved_row_def set_status_def)
  have "update_reservation 1000 (set_status M_Confirmed) ?w2 = (Inr (), ?w3)"
    using with_row_update [of ?w2 "\<lambda>r. r" "confirm_stock 2 held_level" A_Confirmed] now by (simp add: row_simps same)
  note step this ordering_step [of ?w3]
  moreover have "reload_domain 1000 (?w\<lparr>w_ids := 2, w_db := confirmed_database\<rparr>) =
      (Inr (Some (sample_domain Confirmed)), ?w\<lparr>w_ids := 2, w_db := confirmed_database\<rparr>)"
    by (rule row_domain [where st = M_Confirmed]) (simp_all add: confirmed_database_def with_row_def find_reservation_def items_of_def
        set_status_def row_simps reserved_item_def stored_status)
  ultimately have "confirm_reservation offline reserved_row (first_attempt 1000) ?w =
      (Inr (Some (sample_domain Confirmed)), ?w\<lparr>w_ids := 2, w_db := confirmed_database\<rparr>)"
    using now by (simp add: confirm_reservation_def prog_simps joined row_simps confirm_result_def)
  then show ?thesis
    by (simp add: confirm_def reservation_transaction_cases transaction_def repo_confirm_def prog_simps owned row_simps)
qed

lemma cancelled: "commits strict offline reserved_database cancelled_database"
proof -
  obtain w' where "cancel offline 1000 7 (world_of reserved_database) = (Inr (Some (sample_domain Cancelled)), w')"
    "w_db w' = cancelled_database"
    using cancelling_step by blast
  moreover have "cancel_guard 1000 7 reserved_database" by (simp add: cancel_guard_def owned row_simps)
  ultimately show ?thesis using commits_from [OF commits.cancelling] by (metis world_of_db)
qed

lemma confirmed: "commits strict offline reserved_database confirmed_database"
proof -
  obtain w' where "confirm offline 1000 7 (world_of reserved_database) = (Inr (Some (sample_domain Confirmed)), w')"
    "w_db w' = confirmed_database"
    using confirming_step by blast
  moreover have "confirm_guard 1000 7 reserved_database" by (simp add: confirm_guard_def owned row_simps)
  ultimately show ?thesis using commits_from [OF commits.confirming] by (metis world_of_db)
qed

end
