(* ===== verification/Shop_Properties.thy ===== *)
theory Shop_Properties
  imports Sample_Closing
begin

section \<open>What a run of the system guarantees\<close>

text \<open>
  The consequences of the invariant over runs of the whole system, and what each use case of the
  reservation service does for its caller.
\<close>

subsection \<open>Runs\<close>

lemma run_shop: "commits True E empty_database d \<Longrightarrow> shop_inv d"
  by (rule shop.reachable_good [where s = empty_database]) auto







end
