(* ===== verification/Closed_Reservations.thy ===== *)
theory Closed_Reservations
  imports Shop_Properties
begin

section \<open>What holds whatever callers do\<close>

text \<open>
  No guard and no invariant is assumed here: identifiers and idempotency keys stay unique, and a
  reservation that is confirmed or cancelled is never touched again.
\<close>

definition identities :: "database \<Rightarrow> (uuid \<times> uuid \<times> string) list" where
  "identities d = map (\<lambda>r. (r_id r, r_user r, r_key r)) (reservations d)"

definition unique_requests :: "database \<Rightarrow> bool" where
  "unique_requests d \<longleftrightarrow> distinct (map r_id (reservations d)) \<and>
     distinct (map (\<lambda>r. (r_user r, r_key r)) (reservations d))"

lemma unique_requests_identities:
  "unique_requests d \<longleftrightarrow> distinct (map fst (identities d)) \<and> distinct (map snd (identities d))"
  by (simp add: unique_requests_def identities_def comp_def)

lemma unique_requests_cong: "identities d' = identities d \<Longrightarrow> unique_requests d' = unique_requests d"
  by (simp add: unique_requests_identities)

lemma keeps_identities: "keeps (\<lambda>w. rest_of (w_db w)) m \<Longrightarrow> keeps (\<lambda>w. identities (w_db w)) m"
  using keeps_comp [of "\<lambda>w. rest_of (w_db w)" m identities] by (simp add: identities_def rest_of_def)

lemma keeps_identities_update [keeps_intros]:
  assumes "\<And>r. r_id (f r) = r_id r \<and> r_user (f r) = r_user r \<and> r_key (f r) = r_key r"
  shows "keeps (\<lambda>w. identities (w_db w)) (update_reservation rid f)"
  by (rule keepsI)
    (use assms in \<open>auto simp: update_reservation_run identities_def map_reservation_def intro!: map_update_where\<close>)

lemma keeps_identities_try_write:
  "(\<And>d d'. h d = Inr d' \<Longrightarrow> identities d' = identities d) \<Longrightarrow> keeps (\<lambda>w. identities (w_db w)) (try_write h)"
  by (rule keepsI) (auto simp: try_write_def split: sum.splits)

lemma keeps_identities_rows [keeps_intros]:
  "keeps (\<lambda>w. identities (w_db w)) (try_write (insert_order od))"
  "keeps (\<lambda>w. identities (w_db w)) (try_write (insert_order_item l))"
  "keeps (\<lambda>w. identities (w_db w)) (try_write (insert_item i))"
  by (rule keeps_identities_try_write,
      force dest!: insert_order_Inr insert_order_item_Inr insert_item_Inr simp: identities_def)+

lemma keeps_identities_basic [keeps_intros]:
  "keeps (\<lambda>w. identities (w_db w)) (fresh_uuid E)" "keeps (\<lambda>w. identities (w_db w)) (read_clock cl)"
  "keeps (\<lambda>w. identities (w_db w)) (release_step E ctx j)" "keeps (\<lambda>w. identities (w_db w)) (confirm_step E ctx j)"
  "keeps (\<lambda>w. identities (w_db w)) (try_hold_selected E p v q key)"
  "keeps (\<lambda>w. identities (w_db w)) (try_write (insert_allocation a))"
  by (rule keeps_identities, rule keeps_intros)+

lemma keeps_identities_domain [keeps_intros]: "keeps (\<lambda>w. identities (w_db w)) (reload_domain rid)"
    "keeps (\<lambda>w. identities (w_db w)) (reload_all rows)"
  by (rule keeps_comp, intro keeps_intros)+

lemma keeps_identities_operations [keeps_intros]:
  "keeps (\<lambda>w. identities (w_db w)) (release_reservation E rid t ctx)"
  "keeps (\<lambda>w. identities (w_db w)) (ensure_order E r)"
  "keeps (\<lambda>w. identities (w_db w)) (confirm_reservation E r cx)"
  unfolding release_reservation_def confirm_reservation_def ensure_order_def insert_line_def [abs_def]
  by (intro keeps_intros; simp add: set_target_def finish_release_def set_status_def)+

lemma keeps_identities_repo [keeps_intros]:
  "keeps (\<lambda>w. identities (w_db w)) (repo_confirm E rid user)" "keeps (\<lambda>w. identities (w_db w)) (repo_cancel E rid user)"
  "keeps (\<lambda>w. identities (w_db w)) (expire_batch E now lim)"
  "keeps (\<lambda>w. identities (w_db w)) (reconcile_batch E now lim n delay)"
  unfolding repo_confirm_def repo_cancel_def expire_batch_def reconcile_batch_def reconcile_one_def Let_def
  by (intro keeps_intros)+

lemma keeps_identities_hold_items: "keeps (\<lambda>w. identities (w_db w)) (hold_items E rid its)"
  by (induction its) (auto simp: Let_def set_failure_def intro!: keeps_intros)

lemma add_with_hold_unique:
  assumes "unique_requests (w_db w)" and "add_with_hold E r w = (Inr held, w')"
  shows "unique_requests (w_db w') \<and> find_reservation (res_id r) (w_db w) = None"
proof -
  from assms(2) obtain row d1 rows w2 where row: "to_model (w_now w) r = Inr row"
    and ins: "insert_reservation row (w_db w) = Inr d1"
    and its: "insert_items E (res_id r) (res_items r) (w\<lparr>w_db := d1\<rparr>) = (Inr rows, w2)"
    and loop: "hold_items E (res_id r) rows w2 = (Inr held, w')"
    by (auto simp: add_with_hold_def prog_simps split: prod.splits sum.splits)
  note one = insert_reservation_Inr [OF ins]
  have id: "r_id row = res_id r" using row by (auto simp: to_model_def split: sum.splits)
  have "keeps (\<lambda>w. identities (w_db w)) (insert_items E (res_id r) (res_items r))"
    unfolding insert_items_def by (intro keeps_intros)
  from keepsD [OF this its] keepsD [OF keeps_identities_hold_items loop]
  have "identities (w_db w') = identities d1" by simp
  moreover have "unique_requests d1"
    using assms(1) one by (auto simp: unique_requests_def find_reservation_def find_None_iff_all)
  ultimately show ?thesis using one id unique_requests_cong by metis
qed

subsection \<open>Closed reservations\<close>

definition closed :: "reservation_row \<Rightarrow> bool" where
  "closed r \<longleftrightarrow> r_status r = M_Confirmed \<or> r_status r = M_Cancelled"

definition keeps_closed :: "database \<Rightarrow> database \<Rightarrow> bool" where
  "keeps_closed d d' \<longleftrightarrow> unique_requests d' \<and>
     (\<forall>x r. find_reservation x d = Some r \<longrightarrow> closed r \<longrightarrow> row_of x d' = row_of x d)"

lemma keeps_closed_refl: "unique_requests d \<Longrightarrow> keeps_closed d d"
  by (simp add: keeps_closed_def)

lemma keeps_closed_trans: "keeps_closed d d' \<Longrightarrow> keeps_closed d' d'' \<Longrightarrow> keeps_closed d d''"
  by (simp add: keeps_closed_def row_of_def)

text \<open>Management touches none of the tables of requests.\<close>

definition same_requests :: "database \<Rightarrow> database \<Rightarrow> bool" where
  "same_requests d d' \<longleftrightarrow> reservations d' = reservations d \<and> items d' = items d \<and> allocations d' = allocations d"

lemma keeps_closed_same:
  "unique_requests d \<Longrightarrow> same_requests d d' \<Longrightarrow> keeps_closed d d'"
  by (simp add: same_requests_def keeps_closed_def unique_requests_def row_of_def find_reservation_def items_of_def)

lemma owned_unique:
  assumes "unique_requests d" and "owned_reservation rid user d = Some r"
  shows "find_reservation rid d = Some r \<and> r_id r = rid"
proof -
  note own = owned_reservation_Some [OF assms(2)]
  with assms(1) show ?thesis
    using find_Some_iff_mem [of r_id "reservations d" rid r]
    by (simp add: unique_requests_def find_reservation_def)
qed

lemma repo_confirm_closed:
  assumes "unique_requests (w_db w)" and x: "find_reservation x (w_db w) = Some y" "closed y"
    and run: "repo_confirm E rid user w = (Inr res, w')"
  shows "row_of x (w_db w') = row_of x (w_db w)"
proof (cases "owned_reservation rid user (w_db w)")
  case None
  with run show ?thesis by (simp add: repo_confirm_def prog_simps)
next
  case (Some r)
  note own = owned_unique [OF assms(1) Some]
  show ?thesis
  proof (cases "r_status r = M_Confirmed")
    case True
    then have "andThen (ensure_order E r) (\<lambda>_. reload_domain (r_id r)) w = (Inr res, w')"
      using run Some by (simp add: repo_confirm_def andThen_def db_query_def)
    then show ?thesis by (rule keepsD [rotated]) (intro keeps_intros)
  next
    case False
    then have "x \<noteq> r_id r" and "confirm_reservation E r (first_attempt (r_id r)) w = (Inr res, w')"
      using run Some x own by (auto simp: repo_confirm_def andThen_def db_query_def raise_def closed_def split: if_splits)
    then show ?thesis by (metis keepsD keeps_row_confirm)
  qed
qed

lemma repo_cancel_closed:
  assumes "unique_requests (w_db w)" and x: "find_reservation x (w_db w) = Some y" "closed y"
    and run: "repo_cancel E rid user w = (Inr res, w')"
  shows "row_of x (w_db w') = row_of x (w_db w)"
proof (cases "owned_reservation rid user (w_db w)")
  case None
  with run show ?thesis by (simp add: repo_cancel_def prog_simps)
next
  case (Some r)
  note own = owned_unique [OF assms(1) Some]
  show ?thesis
  proof (cases "r_status r = M_Cancelled")
    case True
    then have "reload_domain (r_id r) w = (Inr res, w')"
      using run Some by (simp add: repo_cancel_def andThen_def db_query_def)
    then show ?thesis by (rule keepsD [rotated]) (intro keeps_intros)
  next
    case False
    then have ne: "x \<noteq> r_id r"
      and "andThen (release_reservation E (r_id r) M_Cancelled None) (\<lambda>_. reload_domain (r_id r)) w = (Inr res, w')"
      using run Some x own by (auto simp: repo_cancel_def andThen_def db_query_def raise_def closed_def split: if_splits)
    from this(2) show ?thesis by (rule keepsD [rotated]) (intro keeps_intros ne)
  qed
qed

lemma batch_ids:
  assumes "unique_requests d" and "find_reservation x d = Some y" and "\<not> P y"
    and "r \<in> set (take n (sort_key k (filter P (reservations d))))"
  shows "x \<noteq> r_id r"
proof
  assume "x = r_id r"
  moreover have "r \<in> set (reservations d)" "P r" using assms(4) by (auto dest: in_set_takeD)
  ultimately show False
    using assms(1-3) find_Some_iff_mem [of r_id "reservations d" "r_id r" r]
    by (simp add: unique_requests_def find_reservation_def)
qed

lemma expire_batch_closed:
  assumes "unique_requests (w_db w)" and x: "find_reservation x (w_db w) = Some y" "closed y"
    and run: "expire_batch E now lim w = (Inr res, w')"
  shows "row_of x (w_db w') = row_of x (w_db w)"
proof -
  let ?rows = "expired_batch now lim (w_db w)"
  have "\<not> overdue now y" using x(2) by (auto simp: closed_def overdue_def)
  then have ne: "x \<noteq> r_id r" if "r \<in> set ?rows" for r
    using batch_ids [OF assms(1) x(1)] that by (simp add: expired_batch_def)
  have "andThen (for_each (\<lambda>r. release_reservation E (r_id r) M_Expired None) ?rows) (\<lambda>_. reload_all ?rows) w = (Inr res, w')"
    using run by (simp add: expire_batch_def andThen_def db_query_def)
  then show ?thesis by (rule keepsD [rotated]) (intro keeps_intros ne)
qed

lemma reconcile_batch_closed:
  assumes "unique_requests (w_db w)" and x: "find_reservation x (w_db w) = Some y" "closed y"
    and run: "reconcile_batch E now lim n delay w = (Inr res, w')"
  shows "row_of x (w_db w') = row_of x (w_db w)"
proof -
  let ?rows = "reconcile_rows now lim n (w_db w)"
  have "\<not> reconcilable now n (w_db w) y" using x(2) by (auto simp: closed_def reconcilable_def)
  then have ne: "x \<noteq> r_id r" if "r \<in> set ?rows" for r
    using batch_ids [OF assms(1) x(1)] that by (simp add: reconcile_rows_def)
  have "keeps (\<lambda>w. row_of x (w_db w)) (reconcile_one E now n delay r)" if "x \<noteq> r_id r" for r
    unfolding reconcile_one_def Let_def using that by (intro keeps_intros)
  note this [OF ne]
  moreover have "andThen (for_each (reconcile_one E now n delay) ?rows) (\<lambda>_. reload_all ?rows) w = (Inr res, w')"
    using run by (simp add: reconcile_batch_def andThen_def db_query_def)
  ultimately show ?thesis by - (erule keepsD [rotated], intro keeps_intros)
qed

subsection \<open>Over the whole system\<close>

lemma transaction_closed:
  assumes "\<And>x w1. m (begin_transaction E w) = (Inr x, w1) \<Longrightarrow> keeps_closed (w_db w) (w_db w1)"
    and "unique_requests (w_db w)" and "keeps w_saved m" and "reservation_transaction E m w = (r, w')"
  shows "keeps_closed (w_db w) (w_db w')"
  using transaction_inv [where P = "keeps_closed (w_db w)" and m = m and E = E and w = w] assms keeps_closed_refl
  by blast

lemma body_closed:
  assumes "unique_requests (w_db v)" and "keeps (\<lambda>w. identities (w_db w)) m" and run: "m v = (Inr x, w1)"
    and "\<And>y r. find_reservation y (w_db v) = Some r \<Longrightarrow> closed r \<Longrightarrow> row_of y (w_db w1) = row_of y (w_db v)"
  shows "keeps_closed (w_db v) (w_db w1)"
  using assms(4) unique_requests_cong [OF keepsD [OF assms(2) run]] assms(1) by (simp add: keeps_closed_def)

lemma create_closed:
  assumes "keeps_closed (w_db w) (other (w_db w))" and "unique_requests (w_db w)"
    and run: "create E other ttl user its key w = (res, w')"
  shows "keeps_closed (w_db w) (w_db w')"
  using create_cases [OF run]
proof (elim disjE exE conjE)
  fix now rid r held v v'
  assume v: "w_db v = other (w_db w)" and add: "add_with_hold E r v = (Inr held, v')" and eq: "w_db w' = w_db v'"
  have "unique_requests (w_db v)" using assms(1) v by (simp add: keeps_closed_def)
  note new = add_with_hold_unique [OF this add]
  have "keeps_closed (w_db v) (w_db v')"
    unfolding keeps_closed_def
  proof (intro conjI allI impI)
    show "unique_requests (w_db v')" using new by simp
    fix x y
    assume "find_reservation x (w_db v) = Some y"
    with new have "x \<noteq> res_id r" by auto
    from keepsD [OF keeps_row_add [OF this] add] show "row_of x (w_db v') = row_of x (w_db v)" .
  qed
  with assms(1) v eq show ?thesis by (metis keeps_closed_trans)
qed (use assms keeps_closed_refl in simp_all)

lemma confirm_closed: "unique_requests (w_db w) \<Longrightarrow> confirm E rid user w = (r, w') \<Longrightarrow> keeps_closed (w_db w) (w_db w')"
  unfolding confirm_def
proof (erule transaction_closed [rotated 3])
  fix x w1
  assume "unique_requests (w_db w)" and "repo_confirm E rid user (begin_transaction E w) = (Inr x, w1)"
  then show "keeps_closed (w_db w) (w_db w1)"
    using body_closed [OF _ keeps_identities_repo(1), of "begin_transaction E w"] repo_confirm_closed
    by (metis begin_transaction_simps(1))
qed (simp, intro keeps_intros)

lemma cancel_closed: "unique_requests (w_db w) \<Longrightarrow> cancel E rid user w = (r, w') \<Longrightarrow> keeps_closed (w_db w) (w_db w')"
  unfolding cancel_def
proof (erule transaction_closed [rotated 3])
  fix x w1
  assume "unique_requests (w_db w)" and "repo_cancel E rid user (begin_transaction E w) = (Inr x, w1)"
  then show "keeps_closed (w_db w) (w_db w1)"
    using body_closed [OF _ keeps_identities_repo(2), of "begin_transaction E w"] repo_cancel_closed
    by (metis begin_transaction_simps(1))
qed (simp, intro keeps_intros)

lemma expire_closed: "unique_requests (w_db w) \<Longrightarrow> expire_once E n w = (r, w') \<Longrightarrow> keeps_closed (w_db w) (w_db w')"
  unfolding expire_once_def
proof (erule transaction_closed [rotated 3])
  let ?v = "begin_transaction E w\<lparr>w_ticks := Suc (w_ticks (begin_transaction E w))\<rparr>"
  fix x w1
  assume "unique_requests (w_db w)"
    and "andThen (read_clock (e_utc E)) (\<lambda>now. expire_batch E now n) (begin_transaction E w) = (Inr x, w1)"
  then have u: "unique_requests (w_db ?v)"
    and run: "expire_batch E (e_utc E (w_ticks (begin_transaction E w))) n ?v = (Inr x, w1)"
    by (simp_all add: andThen_def read_clock_def)
  have "keeps_closed (w_db ?v) (w_db w1)"
    by (rule body_closed [OF u keeps_identities_repo(3) run]) (rule expire_batch_closed [OF u _ _ run])
  then show "keeps_closed (w_db w) (w_db w1)" by simp
qed (simp, intro keeps_intros)

lemma reconcile_closed:
  "unique_requests (w_db w) \<Longrightarrow> reconcile_once E n m delay w = (r, w') \<Longrightarrow> keeps_closed (w_db w) (w_db w')"
  unfolding reconcile_once_def
proof (erule transaction_closed [rotated 3])
  let ?v = "begin_transaction E w\<lparr>w_ticks := Suc (w_ticks (begin_transaction E w))\<rparr>"
  fix x w1
  assume "unique_requests (w_db w)"
    and "andThen (read_clock (e_utc E)) (\<lambda>now. reconcile_batch E now n m delay) (begin_transaction E w) = (Inr x, w1)"
  then have u: "unique_requests (w_db ?v)"
    and run: "reconcile_batch E (e_utc E (w_ticks (begin_transaction E w))) n m delay ?v = (Inr x, w1)"
    by (simp_all add: andThen_def read_clock_def)
  have "keeps_closed (w_db ?v) (w_db w1)"
    by (rule body_closed [OF u keeps_identities_repo(4) run]) (rule reconcile_batch_closed [OF u _ _ run])
  then show "keeps_closed (w_db w) (w_db w1)" by simp
qed (simp, intro keeps_intros)

lemma management_rows:
  "create_product E sku name w = (a, w') \<Longrightarrow> same_requests (w_db w) (w_db w')"
  "set_provider_credentials E pid c w = (b, w') \<Longrightarrow> same_requests (w_db w) (w_db w')"
proof -
  have same: "same_requests d d'" if "core d' = core d" for d d'
    using arg_cong [OF that, of reservations] arg_cong [OF that, of items] arg_cong [OF that, of allocations]
    by (simp add: core_def same_requests_def)
  show "create_product E sku name w = (a, w') \<Longrightarrow> same_requests (w_db w) (w_db w')"
    by (rule same [OF create_product_core])
  show "set_provider_credentials E pid c w = (b, w') \<Longrightarrow> same_requests (w_db w) (w_db w')"
    by (rule same [OF set_credentials_core])
qed

lemma provider_rows:
  assumes "register_provider E f rg w = (a, w') \<or> update_provider E f pid up w = (b, w') \<or>
      enable_provider E f pid w = (c, w') \<or> disable_provider E pid w = (c, w')"
  shows "same_requests (w_db w) (w_db w')"
  by (rule provider_commits [where P = "same_requests (w_db w)", OF assms])
    (auto simp: insert_provider_def update_provider_row_def map_provider_def same_requests_def
      split: option.splits if_splits sum.splits)

lemma level_rows:
  assumes "set_inventory_level E p v n k g w = (a, w') \<or> remove_inventory_level E p v w = (b, w')"
  shows "same_requests (w_db w) (w_db w')"
  by (rule level_commits [where P = "\<lambda>d. same_requests (w_db w) d", OF assms])
    (auto dest!: set_level_rows remove_level_rows simp: same_requests_def)

lemma commits_closed: "commits strict E d d' \<Longrightarrow> unique_requests d \<Longrightarrow> keeps_closed d d'"
proof (induction rule: commits.induct)
  case (in_turn d d1 d2)
  then have first: "keeps_closed d d1" by blast
  then have "unique_requests d1" by (simp add: keeps_closed_def)
  with in_turn have "keeps_closed d1 d2" by blast
  with first show ?case by (rule keeps_closed_trans)
next
  case (creating w d ttl user its key res w')
  then show ?case using create_closed [of w "\<lambda>_. d"] by blast
next
  case (reading rid w found w')
  then show ?case by (simp add: get_db keeps_closed_refl)
next
  case (selling sku name w p w')
  then show ?case using management_rows(1) keeps_closed_same by blast
next
  case (authorizing pid c w cred w')
  then show ?case using management_rows(2) keeps_closed_same by blast
next
  case (registering netloc_ok rg w v w')
  then show ?case using provider_rows keeps_closed_same by blast
next
  case (reconfiguring netloc_ok pid up w v w')
  then show ?case using provider_rows keeps_closed_same by blast
next
  case (enabling netloc_ok pid w v w')
  then show ?case using provider_rows keeps_closed_same by blast
next
  case (disabling pid w v w')
  then show ?case using provider_rows keeps_closed_same by blast
next
  case (stocking p pid n k g w level w')
  then show ?case using level_rows keeps_closed_same by blast
next
  case (delisting p pid w u w')
  then show ?case using level_rows keeps_closed_same by blast
qed (auto intro: keeps_closed_refl confirm_closed cancel_closed expire_closed reconcile_closed)

lemma unique_empty: "unique_requests empty_database"
  by (simp add: unique_requests_def empty_database_def)

text \<open>
  C5. One reservation per idempotency key. Whatever callers do, guarded or not, and however
  creations race: after any run from the empty database no user has two reservations under one
  key, and no two reservations have the same identifier.
\<close>

theorem one_reservation_per_key:
  assumes "commits strict E empty_database d"
  shows "distinct (map (\<lambda>r. (r_user r, r_key r)) (reservations d)) \<and> distinct (map r_id (reservations d))"
  using commits_closed [OF assms unique_empty] by (simp add: keeps_closed_def unique_requests_def)

theorem one_reservation_per_key_witness: "distinct (map r_id (reservations reserved_database))"
  using one_reservation_per_key [OF reserved] by blast

text \<open>
  C4. Confirmed and cancelled are final, whatever callers do. Even without the guards the workflow
  provides for, no later operation of a run changes a confirmed or a cancelled reservation: its
  row and its items stay exactly as they are.
\<close>

theorem closed_reservations_stay_closed:
  assumes "commits strict E empty_database d" and "commits strict E d d'"
    and "find_reservation rid d = Some r" and "r_status r = M_Confirmed \<or> r_status r = M_Cancelled"
  shows "find_reservation rid d' = Some r \<and> items_of rid d' = items_of rid d"
proof -
  have "keeps_closed d d'"
    using commits_closed [OF assms(1) unique_empty] commits_closed [OF assms(2)] by (simp add: keeps_closed_def)
  with assms(3,4) show ?thesis unfolding keeps_closed_def closed_def row_of_def by (metis prod.inject)
qed

theorem closed_reservations_stay_closed_witness:
  "find_reservation 1000 (w_db (snd (cancel offline 1000 7 (world_of confirmed_database)))) =
     Some (set_status M_Confirmed reserved_row)"
proof -
  let ?run = "cancel offline 1000 7 (world_of confirmed_database)"
  have row: "find_reservation 1000 confirmed_database = Some (set_status M_Confirmed reserved_row)"
    "r_status (set_status M_Confirmed reserved_row) = M_Confirmed"
    by (simp_all add: confirmed_database_def with_row_def find_reservation_def set_status_def row_simps)
  have "cancel offline 1000 7 (world_of confirmed_database) = (fst ?run, snd ?run)" by simp
  from commits.cancelling [OF _ this, of False] have "commits False offline confirmed_database (w_db (snd ?run))"
    by simp
  with closed_reservations_stay_closed [OF commits.in_turn [OF reserved confirmed] _ row(1)] row(2)
  show ?thesis by blast
qed

end
