(* ===== verification/Aggregates.thy ===== *)
theory Aggregates
  imports Closed_Reservations
begin

section \<open>Rows and the domain's aggregates\<close>

text \<open>
  The repository works on rows, the domain model of \<open>service/reservation.py\<close> on aggregates.
  \<open>loaded\<close> is the aggregate a stored reservation stands for; the first part shows that
  \<open>_to_domain\<close> always finds it, the second that the repository's confirmation and
  cancellation refine \<open>Reservation.confirm\<close> and \<open>Reservation.cancel\<close>.
\<close>

subsection \<open>Every stored reservation loads\<close>

fun domain_status :: "status_model \<Rightarrow> reservation_status" where
  "domain_status M_Pending = Pending"
| "domain_status M_Confirming = Confirming"
| "domain_status M_Confirmed = Confirmed"
| "domain_status M_Releasing = Releasing"
| "domain_status M_Cancelled = Cancelled"
| "domain_status M_Expired = Expired"
| "domain_status M_Failed = Failed"
| "domain_status M_Reserving = Pending"
| "domain_status M_Active = Pending"

definition domain_item :: "item_row \<Rightarrow> item" where
  "domain_item i = \<lparr>it_product = ri_product i, it_provider = ri_provider i, it_quantity = ri_quantity i\<rparr>"

definition loaded :: "database \<Rightarrow> reservation_row \<Rightarrow> reservation" where
  "loaded d r = \<lparr>res_id = r_id r, res_user = r_user r,
     res_items = map domain_item (sort_key ri_product (items_of (r_id r) d)), res_key = r_key r,
     res_fingerprint = r_fingerprint r, res_created = r_created r, res_expires = r_expires r,
     res_status = domain_status (r_status r), res_target = map_option domain_status (r_target r)\<rparr>"

lemma sum_map_Inr: "(\<And>x. x \<in> set xs \<Longrightarrow> f x = Inr (g x)) \<Longrightarrow> sum_map f xs = Inr (map g xs)"
  by (induction xs) simp_all

lemma domain_status: "st \<noteq> M_Reserving \<Longrightarrow> st \<noteq> M_Active \<Longrightarrow> status_of_model st = Inr (domain_status st)"
  by (cases st) (simp_all add: stored_status)

lemma to_domain_row:
  assumes ok: "row_ok d r" and "\<forall>i\<in>set (items_of (r_id r) d). 0 < ri_quantity i"
  shows "to_domain r d = Inr (loaded d r)" and "valid_reservation (loaded d r)"
proof -
  from assms(2) have items: "sum_map item_of_row (sort_key ri_product (items_of (r_id r) d)) =
      Inr (map domain_item (sort_key ri_product (items_of (r_id r) d)))"
    by (intro sum_map_Inr) (auto simp: item_of_row_def mk_item_def domain_item_def not_le)
  have st: "status_of_model (r_status r) = Inr (domain_status (r_status r))"
    using ok by (simp add: row_ok_def status_ok_def domain_status)
  have target: "optional_status status_of_model (r_target r) = Inr (map_option domain_status (r_target r))"
    using ok by (auto simp: row_ok_def status_ok_def optional_status_def stored_status split: if_splits)
  show valid: "valid_reservation (loaded d r)"
    using ok by (simp add: valid_reservation_def loaded_def row_ok_def sort_key_Nil)
  from items st target mk_reservation_valid [OF valid] show "to_domain r d = Inr (loaded d r)"
    by (simp add: to_domain_def loaded_def)
qed

lemma positive_items: "shop_inv d \<Longrightarrow> \<forall>i\<in>set (items_of rid d). 0 < ri_quantity i"
  using shop_invD(7) by (auto simp: rows_ok_def list_all_iff items_of_def)

lemma to_domain_loaded:
  assumes "shop_inv d" and "r \<in> set (reservations d)"
  shows "to_domain r d = Inr (loaded d r)" and "valid_reservation (loaded d r)"
  using to_domain_row [OF shop_invD(3) [OF assms]] positive_items [OF assms(1)] by blast+

lemma reload_loaded:
  assumes "shop_inv (w_db w)"
  shows "reload_domain rid w = (Inr (map_option (loaded (w_db w)) (find_reservation rid (w_db w))), w)"
proof (cases "find_reservation rid (w_db w)")
  case (Some r)
  then have "r \<in> set (reservations (w_db w))" using shop_invD(6) [OF assms] by (simp add: find_reservation_iff)
  with Some to_domain_loaded(1) [OF assms] show ?thesis
    by (simp add: reload_domain_def row_to_domain_def prog_simps)
qed (simp add: reload_domain_def row_to_domain_def prog_simps)



subsection \<open>Confirmation and cancellation refine the domain's transitions\<close>

lemma reload_run: "reload_domain rid w = (x, w') \<Longrightarrow> w' = w"
  by (auto simp: reload_domain_def row_to_domain_def prog_simps split: option.splits prod.splits sum.splits)

lemma reload_result:
  assumes "shop_inv (w_db w')" and "reload_domain rid w = (Inr x, w')"
  shows "x = map_option (loaded (w_db w')) (find_reservation rid (w_db w'))"
  using reload_run [OF assms(2)] reload_loaded [of w rid] assms by simp

lemma loaded_after:
  assumes id: "keeps_identity f" and "items_of (r_id r) d' = items_of (r_id r) d"
  shows "loaded d' (f r) = (loaded d r)\<lparr>res_status := domain_status (r_status (f r)),
    res_target := map_option domain_status (r_target (f r))\<rparr>"
  using assms by (simp add: loaded_def keeps_identity_def)

lemma confirm_result_loaded:
  assumes inv: "shop_inv (w_db w)" and r: "r \<in> set (reservations (w_db w))"
    and st: "r_status r = M_Pending \<or> r_status r = M_Confirming"
    and run: "confirm_reservation E r ctx w = (Inr x, w')"
  shows "\<exists>st'. x = Some ((loaded (w_db w) r)\<lparr>res_status := domain_status st'\<rparr>) \<and>
    st' \<in> {M_Failed, M_Confirming, M_Confirmed}"
proof -
  obtain os f w1 where id: "keeps_identity f" and f: "\<forall>y. r_status (f y) = confirm_result os \<and> r_target (f y) = r_target y"
    and mv: "moved (r_id r) f (loop_map (allocations_of (r_id r) (w_db w)) confirmed_status os) (w_db w) (w_db w1)"
    and ord: "if confirm_result os = M_Confirmed then \<exists>w2. ensure_order E r w1 = (Inr (), w2) \<and> w_db w' = w_db w2
       else w_db w' = w_db w1"
    using confirm_reservation_effect [OF assms] by blast
  have none: "find_order (r_id r) (w_db w1) = None"
    using no_order [OF shop_invD(4,6) [OF inv] r] st by (auto simp: moved_simps [OF mv])
  have same: "reservations (w_db w') = reservations (w_db w1) \<and> items (w_db w') = items (w_db w1)"
    using ord ensure_order_effect [OF none] by (fastforce split: if_splits)
  have "find_reservation (r_id r) (w_db w) = Some r"
    using r shop_invD(6) [OF inv] by (simp add: find_reservation_iff)
  then have row: "find_reservation (r_id r) (w_db w') = Some (f r)"
    using same find_reservation_moved [OF mv id, of "r_id r"] by (simp add: find_reservation_def)
  have "items_of (r_id r) (w_db w') = items_of (r_id r) (w_db w)"
    using same moved_simps(1) [OF mv] by (simp add: items_of_def)
  note loaded = loaded_after [OF id this]
  have "shop_inv (w_db w')" by (rule confirm_keeps_inv [OF assms])
  moreover obtain v where "reload_domain (r_id r) v = (Inr x, w')"
    using run by (auto simp: confirm_reservation_def andThen_def split: prod.splits sum.splits)
  ultimately have "x = Some (loaded (w_db w') (f r))" using reload_result row by fastforce
  moreover have "map_option domain_status (r_target (f r)) = res_target (loaded (w_db w) r)"
    using f by (simp add: loaded_def)
  ultimately have "x = Some ((loaded (w_db w) r)\<lparr>res_status := domain_status (confirm_result os)\<rparr>)"
    using f loaded by simp
  then show ?thesis using confirm_result_cases by blast
qed

lemma pending_target:
  assumes "shop_inv d" and "r \<in> set (reservations d)" and "r_status r \<noteq> M_Releasing"
  shows "r_target r = None"
  using shop_invD(3) [OF assms(1,2)] assms(3) by (simp add: row_ok_def status_ok_def)

lemma confirm_loaded:
  assumes inv: "shop_inv d" and r: "r \<in> set (reservations d)"
    and st: "r_status r = M_Pending \<or> r_status r = M_Confirming"
  shows "confirm_domain (loaded d r) = Inr ((loaded d r)\<lparr>res_status := Confirmed\<rparr>)"
proof -
  have "r_target r = None" by (rule pending_target [OF inv r]) (use st in auto)
  then have "(loaded d r)\<lparr>res_status := Confirmed, res_target := None\<rparr> = (loaded d r)\<lparr>res_status := Confirmed\<rparr>"
    by (simp add: loaded_def)
  moreover have "valid_reservation ((loaded d r)\<lparr>res_status := Confirmed\<rparr>)"
    using to_domain_loaded(2) [OF inv r] by (simp add: valid_reservation_def)
  moreover have "res_status (loaded d r) \<noteq> Confirmed" "res_status (loaded d r) \<noteq> Cancelled"
    using st by (auto simp: loaded_def)
  ultimately show ?thesis by (simp add: confirm_domain_def mk_reservation_valid)
qed



lemma release_result_loaded:
  assumes inv: "shop_inv (w_db w)" and run: "release_reservation E (r_id r) terminal ctx w = (Inr u, w')"
    and r: "r \<in> set (reservations (w_db w))" "r_status r \<in> {M_Pending, M_Releasing, M_Expired}"
    and terminal: "terminal \<in> {M_Cancelled, M_Expired, M_Failed}"
  shows "\<exists>r'. find_reservation (r_id r) (w_db w') = Some r' \<and>
    (loaded (w_db w') r' = (loaded (w_db w) r)\<lparr>res_status := domain_status terminal, res_target := None\<rparr> \<or>
     loaded (w_db w') r' = (loaded (w_db w) r)\<lparr>res_status := Releasing, res_target := Some (domain_status terminal)\<rparr>)"
proof -
  note fit = settled_releasable [OF inv r]
  obtain os f where f: "after_release os terminal f"
    and mv: "moved (r_id r) f (loop_map (allocations_of (r_id r) (w_db w)) released_status os) (w_db w) (w_db w')"
    using release_reservation_effect [OF shop_invD(1) [OF inv] run fit] by blast
  have id: "keeps_identity f" using f by (simp add: after_release_def)
  have "find_reservation (r_id r) (w_db w) = Some r"
    using r(1) shop_invD(6) [OF inv] by (simp add: find_reservation_iff)
  then have "find_reservation (r_id r) (w_db w') = Some (f r)" by (simp add: find_reservation_moved [OF mv id])
  moreover have "items_of (r_id r) (w_db w') = items_of (r_id r) (w_db w)" by (simp add: moved_simps [OF mv])
  note loaded_after [OF id this]
  moreover have "(r_status (f r) = terminal \<and> r_target (f r) = None) \<or>
      (r_status (f r) = M_Releasing \<and> r_target (f r) = Some terminal)"
    using f by (cases "list_all (\<lambda>x. x = R_Released) os") (auto simp: after_release_def)
  ultimately show ?thesis by auto
qed

lemma cancel_loaded:
  assumes inv: "shop_inv d" and r: "r \<in> set (reservations d)"
    and st: "r_status r \<in> {M_Pending, M_Releasing, M_Expired}"
  shows "cancel_domain (loaded d r) = Inr ((loaded d r)\<lparr>res_status := Cancelled, res_target := None\<rparr>)"
proof -
  have "valid_reservation ((loaded d r)\<lparr>res_status := Cancelled, res_target := None\<rparr>)"
    using to_domain_loaded(2) [OF inv r] by (simp add: valid_reservation_def)
  moreover have "res_status (loaded d r) \<notin> {Confirmed, Cancelled, Confirming}"
    using st by (auto simp: loaded_def)
  ultimately show ?thesis by (simp add: cancel_domain_def mk_reservation_valid)
qed



end
