(* ===== verification/Coverage.thy ===== *)
theory Coverage
  imports Aggregates
begin

section \<open>What is promised was taken\<close>

text \<open>
  The invariant of the database says nothing of a reservation without allocations. Here: while a
  reservation is pending, confirming or confirmed, its allocations are its items, one by one and
  with their quantities. With it a confirmed reservation, and so every order, stands for stock that
  some seller confirmed.
\<close>

definition item_line :: "item_row \<Rightarrow> uuid \<times> int" where
  "item_line i = (ri_id i, ri_quantity i)"

definition hold_line :: "uuid \<times> uuid \<times> uuid \<times> int \<Rightarrow> uuid \<times> int" where
  "hold_line h = (case h of (_, i, _, q) \<Rightarrow> (i, q))"

definition covered :: "database \<Rightarrow> uuid \<Rightarrow> bool" where
  "covered d rid \<longleftrightarrow> map hold_line (holds_of rid d) = map item_line (items_of rid d)"

definition promised :: "status_model \<Rightarrow> bool" where
  "promised st \<longleftrightarrow> st = M_Pending \<or> st = M_Confirming \<or> st = M_Confirmed"

definition fulfilled :: "database \<Rightarrow> bool" where
  "fulfilled d \<longleftrightarrow> (\<forall>rid r. find_reservation rid d = Some r \<longrightarrow> promised (r_status r) \<longrightarrow> covered d rid)"

lemma promised_before: "may_become st st' \<Longrightarrow> promised st' \<Longrightarrow> promised st"
  by (cases st) (auto simp: promised_def)

text \<open>A step that evolves the old reservations has only the new ones to answer for.\<close>

lemma fulfilled_evolves:
  assumes ful: "fulfilled d" and ev: "evolves d d'"
    and new: "\<And>rid r. find_reservation rid d = None \<Longrightarrow> find_reservation rid d' = Some r \<Longrightarrow>
      promised (r_status r) \<Longrightarrow> covered d' rid"
  shows "fulfilled d'"
  unfolding fulfilled_def
proof (intro allI impI)
  fix rid r
  assume r: "find_reservation rid d' = Some r" "promised (r_status r)"
  show "covered d' rid"
  proof (cases "find_reservation rid d")
    case None
    with r show ?thesis by (rule new [rotated])
  next
    case (Some x)
    from evolvesD [OF ev this] obtain r' where r': "find_reservation rid d' = Some r'"
      "may_become (r_status x) (r_status r')" "items_of rid d' = items_of rid d" "holds_of rid d' = holds_of rid d" by metis
    with r have "promised (r_status x)" by (auto dest: promised_before)
    with ful Some have "covered d rid" by (simp add: fulfilled_def)
    with r' show ?thesis by (simp add: covered_def)
  qed
qed

lemma fulfilled_no_new:
  assumes "fulfilled d" and "evolves d d'" and "identities d' = identities d"
  shows "fulfilled d'"
proof (rule fulfilled_evolves [OF assms(1,2)])
  have ids: "map r_id (reservations d') = map r_id (reservations d)"
    using arg_cong [OF assms(3), of "map fst"] by (simp add: identities_def comp_def)
  fix rid r
  assume none: "find_reservation rid d = None" and some: "find_reservation rid d' = Some r"
  have "rid \<in> set (map r_id (reservations d'))"
    using find_SomeD [OF some [unfolded find_reservation_def]] by auto
  moreover have "rid \<notin> set (map r_id (reservations d))"
    using none by (auto simp: find_reservation_def find_None_iff_all)
  ultimately show "covered d' rid" unfolding ids by contradiction
qed

lemma filter_key_single: "distinct (map k xs) \<Longrightarrow> x \<in> set xs \<Longrightarrow> filter (\<lambda>y. k y = k x) xs = [x]"
proof (induction xs)
  case (Cons z zs)
  show ?case
  proof (cases "z = x")
    case True
    then have "k x \<notin> k ` set zs" using Cons.prems by simp
    then have "filter (\<lambda>y. k y = k x) zs = []" by (auto simp: filter_empty_conv) (metis imageI)
    with True show ?thesis by simp
  next
    case False
    with Cons.prems have "k z \<noteq> k x" by force
    with False Cons show ?thesis by simp
  qed
qed simp

subsection \<open>Creation\<close>

lemma hold_items_covers:
  "shop_inv (w_db w) \<Longrightarrow> find_reservation rid (w_db w) = Some r \<Longrightarrow> r_status r = M_Pending \<Longrightarrow>
   \<forall>i\<in>set its. i \<in> set (items (w_db w)) \<and> ri_reservation i = rid \<Longrightarrow>
   hold_items E rid its w = (Inr True, w') \<Longrightarrow>
   items_of rid (w_db w') = items_of rid (w_db w) \<and>
   map hold_line (holds_of rid (w_db w')) = map hold_line (holds_of rid (w_db w)) @ map item_line its"
proof (induction its arbitrary: w)
  case Nil
  then show ?case by (simp add: ret_def)
next
  case (Cons i its)
  let ?key = "hold_idempotency_key rid (ri_product i) (ri_provider i)"
  note base = shop_invD [OF Cons.prems(1)]
  from Cons.prems(5) obtain h w1 d2 where
    hold: "try_hold_selected E (ri_product i) (ri_provider i) (ri_quantity i) ?key w = (Inr (Some h), w1)"
    and ins: "insert_allocation (new_allocation (e_uuid E (w_ids w1)) i h ?key) (w_db w1) = Inr d2"
    and rest: "hold_items E rid its (w1\<lparr>w_ids := Suc (w_ids w1), w_db := d2\<rparr>) = (Inr True, w')"
    by (auto simp: Let_def prog_simps split: prod.splits sum.splits option.splits)
  let ?a = "new_allocation (e_uuid E (w_ids w1)) i h ?key"
  have d1: "w_db w1 = (w_db w)\<lparr>offers := offers (w_db w1)\<rparr>" using hold_effect [OF base(8) hold] by blast
  have d2: "d2 = (w_db w1)\<lparr>allocations := allocations (w_db w1) @ [?a]\<rparr>" using insert_allocation_Inr [OF ins] by blast
  have i: "i \<in> set (items (w_db w))" "ri_reservation i = rid" using Cons.prems(4) by auto
  note one = held_item_inv [OF Cons.prems(1-3) i hold ins]
  have bel: "belongs d2 rid = belongs (w_db w) rid"
    by (rule ext) (simp add: belongs_def d2, subst d1, simp)
  have "belongs (w_db w) rid ?a"
    using i base(6) by (auto simp: belongs_def new_allocation_def find_item_iff)
  then have "holds_of rid d2 = holds_of rid (w_db w) @ [holding ?a]"
    unfolding holds_of_def bel by (simp add: d2, subst d1, simp)
  moreover have "hold_line (holding ?a) = item_line i"
    by (simp add: hold_line_def holding_def item_line_def new_allocation_def)
  moreover have "items_of rid d2 = items_of rid (w_db w)" by (simp add: items_of_def d2, subst d1, simp)
  moreover have "find_reservation rid d2 = Some r" using Cons.prems(2) one by (simp add: find_reservation_def)
  ultimately show ?case using Cons.IH [OF _ _ Cons.prems(3) _ rest] one Cons.prems(4) by simp
qed

lemma add_covers:
  assumes inv: "shop_inv (w_db w)" and st: "start dr = Inr r" and run: "add_with_hold E r w = (Inr held, w')"
    and ful: "fulfilled (w_db w)"
  shows "fulfilled (w_db w')"
proof (rule fulfilled_evolves [OF ful evolves_add [OF inv st run]])
  fix rid x
  assume none: "find_reservation rid (w_db w) = None" and some: "find_reservation rid (w_db w') = Some x"
    and promised: "promised (r_status x)"
  show "covered (w_db w') rid"
  proof (cases "rid = res_id r")
    case False
    then have "row_of rid (w_db w') = row_of rid (w_db w)" using keepsD [OF keeps_row_add run] by blast
    with none some show ?thesis by (simp add: row_of_def)
  next
    case True
    with add_with_hold_inv [OF inv st run] some promised have held: "held" by (auto simp: promised_def split: if_splits)
    show ?thesis
    proof (rule added_rows [OF inv st run])
      fix row rows w2
      assume loop: "hold_items E (res_id r) rows w2 = (Inr held, w')" and "shop_inv (w_db w2)"
        and "r_status row = M_Pending"
        and w2: "w_db w2 = (w_db w)\<lparr>reservations := reservations (w_db w) @ [row], items := items (w_db w) @ rows\<rparr>"
        and "find_reservation (res_id r) (w_db w2) = Some row"
        and "\<forall>i\<in>set rows. i \<in> set (items (w_db w2)) \<and> ri_reservation i = res_id r"
        and own: "items_of (res_id r) (w_db w2) = rows" and oth: "others (res_id r) (w_db w2) = allocations (w_db w)"
      with hold_items_covers [of w2 "res_id r" row rows E w'] held
      have "items_of rid (w_db w') = rows \<and> map hold_line (holds_of rid (w_db w')) =
          map hold_line (holds_of rid (w_db w2)) @ map item_line rows"
        by (simp add: True)
      moreover have "filter (\<lambda>a. \<not> belongs (w_db w2) (res_id r) a) (allocations (w_db w2)) = allocations (w_db w2)"
        using oth by (simp add: others_def w2)
      then have "holds_of rid (w_db w2) = []"
        by (simp add: holds_of_def True filter_empty_conv) (metis (mono_tags) mem_Collect_eq set_filter)
      ultimately show ?thesis by (simp add: covered_def)
    qed
  qed
qed

subsection \<open>Over the whole system\<close>

lemma transaction_identities:
  assumes "keeps w_saved m" and "keeps (\<lambda>w. identities (w_db w)) m" and "reservation_transaction E m w = (r, w')"
  shows "identities (w_db w') = identities (w_db w)"
  using transaction_inv [where P = "\<lambda>d. identities d = identities (w_db w)" and m = m and E = E and w = w] assms
    keepsD [OF assms(2)] by (metis begin_transaction_simps(1))

lemma service_identities:
  "confirm E rid user w = (x, w') \<Longrightarrow> identities (w_db w') = identities (w_db w)"
  "cancel E rid user w = (x, w') \<Longrightarrow> identities (w_db w') = identities (w_db w)"
  "expire_once E batch w = (rs, w') \<Longrightarrow> identities (w_db w') = identities (w_db w)"
  "reconcile_once E batch attempts delay w = (rs, w') \<Longrightarrow> identities (w_db w') = identities (w_db w)"
  unfolding confirm_def cancel_def expire_once_def reconcile_once_def
  by (erule transaction_identities [rotated 2], intro keeps_intros, intro keeps_intros keeps_identities_repo)+

lemma create_fulfilled:
  assumes inv: "shop_inv (w_db w)" "shop_inv (other (w_db w))" "fulfilled (other (w_db w))"
    and run: "create E other ttl user its key w = (res, w')" and "fulfilled (w_db w)"
  shows "fulfilled (w_db w')"
  using create_cases [OF run]
proof (elim disjE exE conjE)
  fix now rid r held v v'
  assume "w_db v = other (w_db w)" and add: "add_with_hold E r v = (Inr held, v')" and "w_db w' = w_db v'"
    and st: "start \<lparr>dr_id = rid, dr_user = user, dr_items = its, dr_key = key,
        dr_fingerprint = reservation_request_fingerprint its, dr_now = now, dr_ttl = ttl\<rparr> = Inr r"
  with add_covers [OF _ st add] inv show ?thesis by simp
qed (use assms in simp_all)

lemma fulfilled_same: "fulfilled d \<Longrightarrow> shop_inv d \<Longrightarrow> same_requests d d' \<Longrightarrow> fulfilled d'"
  by (rule fulfilled_no_new [OF _ evolves_same]) (simp_all add: same_requests_def identities_def)

lemma commits_fulfilled: "commits strict E d d' \<Longrightarrow> strict \<Longrightarrow> shop_inv d \<Longrightarrow> fulfilled d \<Longrightarrow> fulfilled d'"
proof (induction rule: commits.induct)
  case (in_turn d d1 d2)
  then show ?case using commits_progress by blast
next
  case (creating w d ttl user its key res w')
  then show ?case using create_fulfilled [of w "\<lambda>_. d"] commits_progress by blast
next
  case (reading rid w found w')
  then show ?case by (simp add: get_db)
next
  case (confirming rid user w found w')
  then show ?case using fulfilled_no_new confirm_progress service_identities(1) by blast
next
  case (cancelling rid user w found w')
  then show ?case using fulfilled_no_new cancel_progress service_identities(2) by blast
next
  case (expiring batch w rs w')
  then show ?case using fulfilled_no_new expire_progress service_identities(3) by blast
next
  case (reconciling batch attempts delay w rs w')
  then show ?case using fulfilled_no_new reconcile_progress service_identities(4) by blast
next
  case (selling sku name w p w')
  then show ?case using management_rows(1) fulfilled_same by blast
next
  case (authorizing pid c w cred w')
  then show ?case using management_rows(2) fulfilled_same by blast
next
  case (registering netloc_ok rg w v w')
  then show ?case using provider_rows fulfilled_same by blast
next
  case (reconfiguring netloc_ok pid up w v w')
  then show ?case using provider_rows fulfilled_same by blast
next
  case (enabling netloc_ok pid w v w')
  then show ?case using provider_rows fulfilled_same by blast
next
  case (disabling pid w v w')
  then show ?case using provider_rows fulfilled_same by blast
next
  case (stocking p pid n k g w level w')
  then show ?case using level_rows fulfilled_same by blast
next
  case (delisting p pid w u w')
  then show ?case using level_rows fulfilled_same by blast
qed simp

lemma fulfilled_empty: "fulfilled empty_database"
  by (simp add: fulfilled_def empty_database_def find_reservation_def)

text \<open>
  C18. What is ordered was obtained. After any run, every item of a confirmed reservation has exactly
  one allocation, of the item's quantity, and it is confirmed, whether its seller is internal or
  external; the items of a reservation that is still pending have theirs too, held wherever the
  seller is internal.
\<close>

theorem ordered_stock_was_obtained:
  assumes "commits True E empty_database d" and "r \<in> set (reservations d)" and "i \<in> set (items_of (r_id r) d)"
    and "r_status r = M_Confirmed \<or> r_status r = M_Pending"
  shows "\<exists>a. filter (\<lambda>a. al_item a = ri_id i) (allocations d) = [a] \<and> al_quantity a = ri_quantity i \<and>
    (r_status r = M_Confirmed \<longrightarrow> al_status a = A_Confirmed) \<and>
    (r_status r = M_Pending \<longrightarrow> is_internal d (al_provider a) \<longrightarrow> al_status a = A_Held)"
proof -
  have inv: "shop_inv d" and ful: "fulfilled d"
    using run_shop [OF assms(1)] commits_fulfilled [OF assms(1) _ shop_inv_empty fulfilled_empty] by simp_all
  note base = shop_invD [OF inv]
  let ?mine = "filter (belongs d (r_id r)) (allocations d)"
  have i: "find_item (ri_id i) d = Some i" "ri_reservation i = r_id r"
    using assms(3) base(6) by (auto simp: items_of_def find_item_iff)
  have "covered d (r_id r)"
    using ful assms(2,4) base(6) by (auto simp: fulfilled_def promised_def find_reservation_iff)
  then have lines: "map (\<lambda>a. (al_item a, al_quantity a)) ?mine = map item_line (items_of (r_id r) d)"
    by (simp add: covered_def holds_of_def comp_def hold_line_def holding_def)
  have "distinct (map ri_id (items_of (r_id r) d))"
    using base(6) unfolding items_of_def keys_ok_def by (blast intro: distinct_map_filter)
  moreover have "map al_item ?mine = map ri_id (items_of (r_id r) d)"
    using arg_cong [OF lines, of "map fst"] by (simp add: comp_def item_line_def)
  ultimately have dist: "distinct (map al_item ?mine)" by simp
  have "(ri_id i, ri_quantity i) \<in> set (map (\<lambda>a. (al_item a, al_quantity a)) ?mine)"
    unfolding lines using assms(3) by (auto simp: item_line_def)
  then obtain a where a: "a \<in> set (allocations d)" "belongs d (r_id r) a" "al_item a = ri_id i" "al_quantity a = ri_quantity i"
    by auto
  have "filter (\<lambda>a. al_item a = ri_id i) (allocations d) = filter (\<lambda>x. al_item x = al_item a) ?mine"
    unfolding filter_filter by (rule filter_cong) (use i a(3) in \<open>auto simp: belongs_def\<close>)
  also have "\<dots> = [a]" using dist a(1,2) by (intro filter_key_single) simp_all
  finally have one: "filter (\<lambda>a. al_item a = ri_id i) (allocations d) = [a]" .
  moreover have "settled d (r_id r) (r_status r)" using base(2) assms(2) by (simp add: coherent_def)
  ultimately show ?thesis using a by (intro exI [of _ a]) (auto simp: settled_def)
qed

theorem ordered_stock_was_obtained_witness:
  "\<exists>a. filter (\<lambda>a. al_item a = 1001) (allocations confirmed_database) = [a] \<and> al_quantity a = 2 \<and> al_status a = A_Confirmed"
proof -
  let ?r = "set_status M_Confirmed reserved_row"
  have "?r \<in> set (reservations confirmed_database)" "r_status ?r = M_Confirmed" "r_id ?r = 1000"
    by (simp_all add: confirmed_database_def with_row_def set_status_def row_simps)
  moreover have "items_of 1000 confirmed_database = [reserved_item]"
    by (simp add: confirmed_database_def with_row_def items_of_def reserved_item_def)
  moreover have "ri_id reserved_item = 1001" "ri_quantity reserved_item = 2" by (simp_all add: reserved_item_def)
  ultimately show ?thesis
    using ordered_stock_was_obtained [OF commits.in_turn [OF reserved confirmed], of ?r reserved_item] by auto
qed

end
