(* ===== verification/Own_Stock.thy ===== *)
theory Own_Stock
  imports Coverage
begin

section \<open>Reservations of internal stock\<close>

text \<open>
  A reservation whose sellers are all internal depends on no call: cancelling, expiring and
  confirming it always succeed, because what its allocations hold is really there.
\<close>

definition own_stock :: "uuid \<Rightarrow> database \<Rightarrow> bool" where
  "own_stock rid d \<longleftrightarrow> (\<forall>a\<in>set (allocations d). belongs d rid a \<longrightarrow> is_internal d (al_provider a))"

lemma own_stock_joins: "own_stock rid d \<Longrightarrow> j \<in> set (allocations_of rid d) \<Longrightarrow> v_kind (aj_provider j) = Internal"
  using join_belongs [of j rid d] joinedD(2,5) [of rid d "aj_allocation j" j] by (simp add: own_stock_def)

lemma keeps_log_internal:
  assumes "v_kind (aj_provider j) = Internal"
  shows "keeps w_log (release_step E ctx j)" and "keeps w_log (confirm_step E ctx j)"
proof -
  have "keeps w_log (release_allocation E ctx j)" "keeps w_log (confirm_allocation E ctx j)"
    using assms unfolding release_allocation_def confirm_allocation_def release_hold_def confirm_hold_def
    by (auto simp: Let_def intro!: keeps_intros)
  then show "keeps w_log (release_step E ctx j)" "keeps w_log (confirm_step E ctx j)"
    unfolding release_step_def confirm_step_def set_allocation_status_def by (auto intro!: keeps_intros)
qed

text \<open>Once every allocation was released, the reservation reaches its terminal status.\<close>

lemma release_finish:
  assumes inv: "shop_inv (w_db w)" and r: "r \<in> set (reservations (w_db w))"
    and loop: "for_each (release_step E (case ctx of None \<Rightarrow> first_attempt (r_id r) | Some c \<Rightarrow> c))
      (allocations_of (r_id r) (w_db w))
      (w\<lparr>w_db := map_reservation (r_id r) (\<lambda>x. touch (w_now w) x (set_target terminal x)) (w_db w)\<rparr>) =
      (Inr (map (\<lambda>_. R_Released) (allocations_of (r_id r) (w_db w))), w2)"
  shows "\<exists>w' f. release_reservation E (r_id r) terminal ctx w = (Inr (), w') \<and> w_log w' = w_log w2 \<and>
    find_reservation (r_id r) (w_db w') = Some (f r) \<and> after_release [] terminal f"
proof -
  let ?rid = "r_id r" and ?js = "allocations_of (r_id r) (w_db w)"
  define f1 where "f1 x = touch (w_now w) x (set_target terminal x)" for x
  define f2 where "f2 x = touch (w_now w2) x (finish_release False terminal x)" for x
  let ?w' = "w2\<lparr>w_db := map_reservation ?rid f2 (w_db w2)\<rparr>"
  have "\<not> list_ex (\<lambda>x. x \<noteq> R_Released) (map (\<lambda>_. R_Released) ?js)" by (simp add: list_ex_iff)
  then have run: "release_reservation E ?rid terminal ctx w = (Inr (), ?w')"
    using loop by (simp add: release_reservation_def prog_simps update_reservation_run f2_def [abs_def])
  have stored: "find_reservation ?rid (w_db w) = Some r" using r shop_invD(6) [OF inv] by (simp add: find_reservation_iff)
  have id: "r_id (f1 x) = r_id x" "r_id (f2 x) = r_id x" for x by (simp_all add: f1_def f2_def set_target_def finish_release_def)
  have "keeps (\<lambda>w. row_of ?rid (w_db w)) (release_step E (case ctx of None \<Rightarrow> first_attempt ?rid | Some c \<Rightarrow> c) j)" for j
    by (rule keeps_row_of, rule keeps_intros)
  from keepsD [OF keeps_for_each, OF this loop]
  have "find_reservation ?rid (w_db w2) = find_reservation ?rid (map_reservation ?rid f1 (w_db w))"
    by (simp add: row_of_def f1_def [abs_def])
  then have row: "find_reservation ?rid (w_db ?w') = Some (f2 (f1 r))"
    using stored by (simp add: find_reservation_map id)
  have "after_release [] terminal (\<lambda>x. f2 (f1 x))"
    by (simp add: after_release_def keeps_identity_def f1_def f2_def set_target_def finish_release_def)
  then show ?thesis using run row
    by (intro exI [of _ ?w'] exI [of _ "\<lambda>x. f2 (f1 x)"]) simp
qed

lemma release_total:
  assumes inv: "shop_inv (w_db w)" and r: "r \<in> set (reservations (w_db w))" "r_status r \<in> {M_Pending, M_Releasing, M_Expired}"
    and own: "own_stock (r_id r) (w_db w)"
  shows "\<exists>w' f. release_reservation E (r_id r) terminal ctx w = (Inr (), w') \<and> w_log w' = w_log w \<and>
    find_reservation (r_id r) (w_db w') = Some (f r) \<and> after_release [] terminal f"
proof -
  let ?rid = "r_id r" and ?js = "allocations_of (r_id r) (w_db w)"
  let ?ctx = "case ctx of None \<Rightarrow> first_attempt (r_id r) | Some c \<Rightarrow> c"
  let ?w1 = "w\<lparr>w_db := map_reservation ?rid (\<lambda>x. touch (w_now w) x (set_target terminal x)) (w_db w)\<rparr>"
  have internal: "\<forall>j\<in>set ?js. v_kind (aj_provider j) = Internal" using own_stock_joins [OF own] by blast
  have "release_loop.ready ?rid ?js (w_db ?w1)"
    using ready_release [of "w_db ?w1" ?rid] shop_invD(1) [OF inv] settled_releasable [OF inv r]
    by (simp add: balanced_map_reservation set_target_def)
  from release_loop.loop_total [OF this internal] obtain w2 where
    loop: "for_each (release_step E ?ctx) ?js ?w1 = (Inr (map (\<lambda>_. R_Released) ?js), w2)" by blast
  have "w_log w2 = w_log w"
    using keepsD [OF keeps_for_each [where xs = ?js and f = w_log and g = "release_step E ?ctx"] loop]
      keeps_log_internal(1) internal by simp
  with release_finish [OF inv r(1) loop] show ?thesis by metis
qed



subsection \<open>Confirming\<close>

text \<open>Items name products that exist: the two tables, and the operations that leave them alone.\<close>

definition wares :: "database \<Rightarrow> item_row list \<times> product_row list" where
  "wares d = (items d, products d)"

definition listed :: "database \<Rightarrow> bool" where
  "listed d \<longleftrightarrow> (\<forall>i\<in>set (items d). find_product (ri_product i) d \<noteq> None)"

lemma listed_wares: "wares d' = wares d \<Longrightarrow> listed d' = listed d"
  by (simp add: wares_def listed_def find_product_def)

lemma keeps_wares: "keeps (\<lambda>w. rest_of (w_db w)) m \<Longrightarrow> keeps (\<lambda>w. wares (w_db w)) m"
  using keeps_comp [of "\<lambda>w. rest_of (w_db w)" m wares] by (simp add: wares_def rest_of_def)

lemma keeps_wares_try_write:
  "(\<And>d d'. h d = Inr d' \<Longrightarrow> wares d' = wares d) \<Longrightarrow> keeps (\<lambda>w. wares (w_db w)) (try_write h)"
  by (rule keepsI) (auto simp: try_write_def split: sum.splits)

lemma keeps_wares_rows [keeps_intros]:
  "keeps (\<lambda>w. wares (w_db w)) (try_write (insert_order od))"
  "keeps (\<lambda>w. wares (w_db w)) (try_write (insert_order_item l))"
  "keeps (\<lambda>w. wares (w_db w)) (try_write (insert_reservation row))"
  by (rule keeps_wares_try_write,
      force dest!: insert_order_Inr insert_order_item_Inr insert_reservation_Inr simp: wares_def)+

lemma keeps_wares_update [keeps_intros]: "keeps (\<lambda>w. wares (w_db w)) (update_reservation rid f)"
  by (rule keepsI) (auto simp: update_reservation_run wares_def map_reservation_def)

lemma keeps_wares_basic [keeps_intros]:
  "keeps (\<lambda>w. wares (w_db w)) (fresh_uuid E)" "keeps (\<lambda>w. wares (w_db w)) (read_clock cl)"
  "keeps (\<lambda>w. wares (w_db w)) (release_step E ctx j)" "keeps (\<lambda>w. wares (w_db w)) (confirm_step E ctx j)"
  "keeps (\<lambda>w. wares (w_db w)) (try_hold_selected E p v q key)"
  "keeps (\<lambda>w. wares (w_db w)) (try_write (insert_allocation a))"
  by (rule keeps_wares, rule keeps_intros)+

lemma keeps_wares_domain [keeps_intros]: "keeps (\<lambda>w. wares (w_db w)) (reload_domain rid)"
    "keeps (\<lambda>w. wares (w_db w)) (reload_all rows)"
  by (rule keeps_comp, intro keeps_intros)+

lemma keeps_wares_operations [keeps_intros]:
  "keeps (\<lambda>w. wares (w_db w)) (release_reservation E rid t ctx)"
  "keeps (\<lambda>w. wares (w_db w)) (confirm_reservation E r cx)"
  unfolding release_reservation_def confirm_reservation_def ensure_order_def insert_line_def [abs_def]
  by (intro keeps_intros)+

lemma keeps_wares_repo:
  "keeps (\<lambda>w. wares (w_db w)) (repo_confirm E rid user)" "keeps (\<lambda>w. wares (w_db w)) (repo_cancel E rid user)"
  "keeps (\<lambda>w. wares (w_db w)) (expire_batch E now lim)"
  "keeps (\<lambda>w. wares (w_db w)) (reconcile_batch E now lim n delay)"
  unfolding repo_confirm_def repo_cancel_def expire_batch_def reconcile_batch_def reconcile_one_def Let_def
    ensure_order_def insert_line_def [abs_def]
  by (intro keeps_intros)+

lemma keeps_wares_hold_items: "keeps (\<lambda>w. wares (w_db w)) (hold_items E rid its)"
  by (induction its) (auto simp: Let_def intro!: keeps_intros)

lemma add_listed:
  assumes "listed (w_db w)" and "add_with_hold E r w = (Inr held, w')"
  shows "listed (w_db w')"
proof -
  from assms(2) obtain row d1 rows w2 where ins: "insert_reservation row (w_db w) = Inr d1"
    and its: "insert_items E (res_id r) (res_items r) (w\<lparr>w_db := d1\<rparr>) = (Inr rows, w2)"
    and loop: "hold_items E (res_id r) rows w2 = (Inr held, w')"
    by (auto simp: add_with_hold_def prog_simps split: prod.splits sum.splits)
  have "wares d1 = wares (w_db w)" using insert_reservation_Inr [OF ins] by (simp add: wares_def)
  with assms(1) have "listed d1" by (metis listed_wares)
  moreover have "listed (w_db u')" if "insert_items E rid xs u = (Inr ys, u')" "listed (w_db u)" for rid xs u ys u'
    using that
  proof (induction xs arbitrary: u ys)
    case Nil
    then show ?case by (simp add: insert_items_def ret_def)
  next
    case (Cons i xs)
    from insert_items_Cons [OF Cons.prems(1)] obtain d2 zs where
      one: "insert_item (new_item (e_uuid E (w_ids u)) rid i) (w_db u) = Inr d2"
      and rest: "insert_items E rid xs (u\<lparr>w_ids := Suc (w_ids u), w_db := d2\<rparr>) = (Inr zs, u')" by blast
    have "listed d2" using insert_item_Inr [OF one] Cons.prems(2) by (auto simp: listed_def find_product_def)
    with Cons.IH [OF rest] show ?case by simp
  qed
  ultimately have "listed (w_db w2)" using its by simp
  with keepsD [OF keeps_wares_hold_items loop] show ?thesis by (metis listed_wares)
qed

lemma transaction_listed:
  assumes "keeps w_saved m" and "keeps (\<lambda>w. wares (w_db w)) m" and "reservation_transaction E m w = (r, w')"
    and "listed (w_db w)"
  shows "listed (w_db w')"
  using transaction_inv [where P = listed and m = m and E = E and w = w] assms keepsD [OF assms(2)]
  by (metis begin_transaction_simps(1) listed_wares)

lemma service_listed:
  "confirm E rid user w = (x, w') \<Longrightarrow> listed (w_db w) \<Longrightarrow> listed (w_db w')"
  "cancel E rid user w = (x, w') \<Longrightarrow> listed (w_db w) \<Longrightarrow> listed (w_db w')"
  "expire_once E batch w = (rs, w') \<Longrightarrow> listed (w_db w) \<Longrightarrow> listed (w_db w')"
  "reconcile_once E batch attempts delay w = (rs, w') \<Longrightarrow> listed (w_db w) \<Longrightarrow> listed (w_db w')"
  unfolding confirm_def cancel_def expire_once_def reconcile_once_def
  by (erule transaction_listed [rotated 2], assumption, intro keeps_intros, intro keeps_intros keeps_wares_repo)+

lemma listed_product: "listed d \<Longrightarrow> insert_product p d = Inr d' \<Longrightarrow> listed d'"
  by (auto simp: insert_product_def listed_def find_product_def find_append split: if_splits sum.splits option.splits)

lemma management_listed:
  "create_product E sku name w = (a, w') \<Longrightarrow> listed (w_db w) \<Longrightarrow> listed (w_db w')"
  "set_provider_credentials E pid c w = (b, w') \<Longrightarrow> listed (w_db w) \<Longrightarrow> listed (w_db w')"
  "register_provider E f rg w = (v, w') \<or> update_provider E f pid up w = (v, w') \<or>
      enable_provider E f pid w = (v, w') \<or> disable_provider E pid w = (v, w') \<Longrightarrow> listed (w_db w) \<Longrightarrow> listed (w_db w')"
proof -
  show "create_product E sku name w = (a, w') \<Longrightarrow> listed (w_db w) \<Longrightarrow> listed (w_db w')"
    by (rule product_commits) (auto intro: listed_product)
  show "set_provider_credentials E pid c w = (b, w') \<Longrightarrow> listed (w_db w) \<Longrightarrow> listed (w_db w')"
    by (erule credential_commits) (auto simp: upsert_credential_def listed_def find_product_def split: if_splits)
  assume op: "register_provider E f rg w = (v, w') \<or> update_provider E f pid up w = (v, w') \<or>
      enable_provider E f pid w = (v, w') \<or> disable_provider E pid w = (v, w')" and l: "listed (w_db w)"
  show "listed (w_db w')"
    by (rule provider_commits [where P = listed, OF op l])
      (use l in \<open>auto simp: insert_provider_def update_provider_row_def map_provider_def listed_def find_product_def
        split: option.splits if_splits sum.splits\<close>)
qed

lemma level_wares: "set_level p v n k g u = (x, u') \<Longrightarrow> wares (w_db u') = wares (w_db u)"
    "remove_level p v u = (y, u') \<Longrightarrow> wares (w_db u') = wares (w_db u)"
proof -
  have "wares d' = wares d" if "insert_offer row d = Inr d'" for row d d'
    using that by (auto simp: insert_offer_def wares_def split: sum.splits)
  then show "set_level p v n k g u = (x, u') \<Longrightarrow> wares (w_db u') = wares (w_db u)"
    by (auto simp: map_offer_def wares_def dest!: set_level_cases)
  show "remove_level p v u = (y, u') \<Longrightarrow> wares (w_db u') = wares (w_db u)"
    by (auto simp: remove_level_def prog_simps wares_def split: option.splits if_splits)
qed

lemma level_listed:
  assumes "set_inventory_level E p v n k g w = (a, w') \<or> remove_inventory_level E p v w = (b, w')" and "listed (w_db w)"
  shows "listed (w_db w')"
  by (rule level_commits [where P = listed, OF assms]) (metis assms(2) level_wares listed_wares)+

lemma commits_listed: "commits strict E d d' \<Longrightarrow> listed d \<Longrightarrow> listed d'"
proof (induction rule: commits.induct)
  case (creating w d ttl user its key res w')
  from create_cases [OF creating.hyps(2)] creating show ?case by (auto dest: add_listed)
next
  case (reading rid w found w')
  then show ?case by (simp add: get_db)
qed (auto intro: service_listed management_listed level_listed)

text \<open>The next \<open>k\<close> identifiers the factory will draw differ and are not in use.\<close>

definition fresh_ids :: "environment \<Rightarrow> nat \<Rightarrow> nat \<Rightarrow> uuid set \<Rightarrow> bool" where
  "fresh_ids E n k used \<longleftrightarrow>
     (let ids = map (e_uuid E) [n..<n + k] in distinct ids \<and> list_all (\<lambda>i. i \<notin> used) ids)"

lemma fresh_ids_Suc: "fresh_ids E n (Suc k) used \<longleftrightarrow>
    e_uuid E n \<notin> used \<and> fresh_ids E (Suc n) k (insert (e_uuid E n) used)"
proof -
  define ids where "ids = map (e_uuid E) [Suc n..<Suc n + k]"
  have "[n..<n + Suc k] = n # [Suc n..<Suc n + k]" by (simp add: upt_conv_Cons)
  then have "map (e_uuid E) [n..<n + Suc k] = e_uuid E n # ids" by (simp add: ids_def)
  then have "fresh_ids E n (Suc k) used \<longleftrightarrow> distinct (e_uuid E n # ids) \<and> list_all (\<lambda>i. i \<notin> used) (e_uuid E n # ids)"
    by (simp only: fresh_ids_def Let_def)
  moreover have "fresh_ids E (Suc n) k (insert (e_uuid E n) used) \<longleftrightarrow>
      distinct ids \<and> list_all (\<lambda>i. i \<notin> insert (e_uuid E n) used) ids"
    by (simp only: fresh_ids_def Let_def ids_def)
  ultimately show ?thesis by (auto simp: list_all_iff)
qed

lemma fresh_ids_mono: "fresh_ids E n k used \<Longrightarrow> used' \<subseteq> used \<Longrightarrow> fresh_ids E n k used'"
  by (auto simp: fresh_ids_def list_all_iff Let_def)

lemma insert_lines_total:
  "fresh_ids E (w_ids w) (length its) (oi_id ` set (order_items (w_db w))) \<Longrightarrow>
   oid \<in> od_id ` set (orders (w_db w)) \<Longrightarrow> distinct (map ri_product its) \<Longrightarrow>
   (\<forall>i\<in>set its. 0 < ri_quantity i \<and> find_product (ri_product i) (w_db w) \<noteq> None \<and>
      (\<forall>l\<in>set (order_items (w_db w)). oi_order l = oid \<longrightarrow> oi_product l \<noteq> ri_product i)) \<Longrightarrow>
   \<exists>us w'. for_each (insert_line E oid) its w = (Inr us, w') \<and> w_log w' = w_log w"
proof (induction its arbitrary: w)
  case Nil
  then show ?case by (simp add: ret_def)
next
  case (Cons i its)
  let ?l = "\<lparr>oi_id = e_uuid E (w_ids w), oi_order = oid, oi_product = ri_product i, oi_quantity = ri_quantity i\<rparr>"
  let ?w1 = "w\<lparr>w_ids := Suc (w_ids w), w_db := (w_db w)\<lparr>order_items := order_items (w_db w) @ [?l]\<rparr>\<rparr>"
  have fresh: "e_uuid E (w_ids w) \<notin> oi_id ` set (order_items (w_db w))"
    "fresh_ids E (w_ids ?w1) (length its) (oi_id ` set (order_items (w_db ?w1)))"
    using Cons.prems(1) by (simp_all add: fresh_ids_Suc)
  then have "\<forall>l\<in>set (order_items (w_db w)). oi_id l \<noteq> e_uuid E (w_ids w)" by force
  then have "insert_order_item ?l (w_db w) = Inr ((w_db w)\<lparr>order_items := order_items (w_db w) @ [?l]\<rparr>)"
    using Cons.prems(2,4) by (auto simp: insert_order_item_def list_all_iff list_ex_iff)
  then have one: "insert_line E oid i w = (Inr (), ?w1)" by (simp add: insert_line_def prog_simps)
  have "\<exists>us w'. for_each (insert_line E oid) its ?w1 = (Inr us, w') \<and> w_log w' = w_log ?w1"
  proof (rule Cons.IH [OF fresh(2)])
    show "oid \<in> od_id ` set (orders (w_db ?w1))" "distinct (map ri_product its)" using Cons.prems by simp_all
    show "\<forall>j\<in>set its. 0 < ri_quantity j \<and> find_product (ri_product j) (w_db ?w1) \<noteq> None \<and>
        (\<forall>l\<in>set (order_items (w_db ?w1)). oi_order l = oid \<longrightarrow> oi_product l \<noteq> ri_product j)"
      using Cons.prems(3,4) by (auto simp: find_product_def)
  qed
  with one show ?case by (auto simp: prog_simps)
qed

lemma keeps_ids_internal:
  assumes "v_kind (aj_provider j) = Internal"
  shows "keeps w_ids (confirm_step E ctx j)"
proof -
  have "keeps w_ids (update_offer p v c f)" for p v c f
    unfolding update_offer_def by (intro keeps_intros keeps_write) simp
  then have "keeps w_ids (confirm_allocation E ctx j)"
    using assms unfolding confirm_allocation_def confirm_hold_def by (auto simp: Let_def intro!: keeps_intros)
  moreover have "keeps w_ids (set_allocation_status aid st)" for aid st
    unfolding set_allocation_status_def by (rule keeps_write) simp
  ultimately show ?thesis unfolding confirm_step_def by (intro keeps_intros)
qed

lemma ensure_order_total:
  assumes fresh: "fresh_ids E (w_ids w) (Suc (length (items_of (r_id r) (w_db w))))
      (od_id ` set (orders (w_db w)) \<union> oi_id ` set (order_items (w_db w)))"
    and none: "find_order (r_id r) (w_db w) = None" and row: "find_reservation (r_id r) (w_db w) \<noteq> None"
    and "distinct (map ri_product (items_of (r_id r) (w_db w)))"
    and "\<forall>i\<in>set (items_of (r_id r) (w_db w)). 0 < ri_quantity i \<and> find_product (ri_product i) (w_db w) \<noteq> None"
    and old: "\<forall>l\<in>set (order_items (w_db w)). oi_order l \<in> od_id ` set (orders (w_db w))"
  shows "\<exists>w'. ensure_order E r w = (Inr (), w') \<and> w_log w' = w_log w"
proof -
  let ?oid = "e_uuid E (w_ids w)"
  let ?od = "\<lparr>od_id = ?oid, od_reservation = r_id r, od_user = r_user r\<rparr>"
  let ?w1 = "w\<lparr>w_ids := Suc (w_ids w), w_db := (w_db w)\<lparr>orders := orders (w_db w) @ [?od]\<rparr>\<rparr>"
  have same: "items_of (r_id r) (w_db ?w1) = items_of (r_id r) (w_db w)" by (simp add: items_of_def)
  have new: "?oid \<notin> od_id ` set (orders (w_db w))" using fresh by (simp add: fresh_ids_Suc)
  then have "\<forall>x\<in>set (orders (w_db w)). od_id x \<noteq> ?oid" by force
  then have unused: "\<forall>l\<in>set (order_items (w_db w)). oi_order l \<noteq> ?oid" using old new by auto
  from \<open>\<forall>x\<in>set (orders (w_db w)). od_id x \<noteq> ?oid\<close> have ins: "insert_order ?od (w_db w) = Inr ((w_db w)\<lparr>orders := orders (w_db w) @ [?od]\<rparr>)"
    using none row by (auto simp: insert_order_def list_all_iff)
  have "\<exists>us w'. for_each (insert_line E ?oid) (items_of (r_id r) (w_db ?w1)) ?w1 = (Inr us, w') \<and>
      w_log w' = w_log ?w1"
  proof (rule insert_lines_total)
    show "fresh_ids E (w_ids ?w1) (length (items_of (r_id r) (w_db ?w1))) (oi_id ` set (order_items (w_db ?w1)))"
      unfolding same using fresh by (auto simp: fresh_ids_Suc intro: fresh_ids_mono)
    show "\<forall>i\<in>set (items_of (r_id r) (w_db ?w1)). 0 < ri_quantity i \<and> find_product (ri_product i) (w_db ?w1) \<noteq> None \<and>
        (\<forall>l\<in>set (order_items (w_db ?w1)). oi_order l = ?oid \<longrightarrow> oi_product l \<noteq> ri_product i)"
      unfolding same using assms(5) unused by (auto simp: find_product_def)
  qed (use assms(4) same in simp_all)
  with ins none show ?thesis by (auto simp: ensure_order_def prog_simps)
qed

text \<open>Once every allocation was confirmed, the order is created and the reservation is confirmed.\<close>

lemma confirm_finish:
  assumes inv: "shop_inv (w_db w)" and wares: "listed (w_db w)" and mem: "r \<in> set (reservations (w_db w))"
    and st: "r_status r = M_Pending \<or> r_status r = M_Confirming"
    and loop: "for_each (confirm_step E ctx) (allocations_of (r_id r) (w_db w)) w =
      (Inr (map (\<lambda>_. C_Confirmed) (allocations_of (r_id r) (w_db w))), w0)"
    and ids: "w_ids w0 = w_ids w"
    and fresh: "fresh_ids E (w_ids w) (Suc (length (items_of (r_id r) (w_db w))))
      (od_id ` set (orders (w_db w)) \<union> oi_id ` set (order_items (w_db w)))"
  shows "\<exists>x w'. confirm_reservation E r ctx w = (Inr (Some x), w') \<and> res_id x = r_id r \<and> res_status x = Confirmed \<and>
    w_log w' = w_log w0 \<and> find_order (r_id r) (w_db w') \<noteq> None"
proof -
  let ?js = "allocations_of (r_id r) (w_db w)" and ?f = "\<lambda>x. touch (w_now w0) x (set_status M_Confirmed x)"
  let ?w1 = "w0\<lparr>w_db := map_reservation (r_id r) ?f (w_db w0)\<rparr>"
  note base = shop_invD [OF inv]
  have res: "confirm_result (map (\<lambda>_. C_Confirmed) ?js) = M_Confirmed" by (auto simp: confirm_result_def list_ex_iff)
  obtain ofs ops where post: "w_db w0 = (w_db w)\<lparr>allocations := restatus (map_of (zip (map aj_id ?js)
      (map confirmed_status (map (\<lambda>_. C_Confirmed) ?js)))) (allocations (w_db w)), offers := ofs, operations := ops\<rparr>"
    using confirm_loop.loop [OF ready_confirm [OF inv mem st] loop] by auto
  have tables: "orders (w_db ?w1) = orders (w_db w)" "order_items (w_db ?w1) = order_items (w_db w)"
    "items (w_db ?w1) = items (w_db w)" "products (w_db ?w1) = products (w_db w)"
    by (simp_all add: post map_reservation_def)
  have stored: "find_reservation (r_id r) (w_db w0) = Some r" using mem base(6) by (simp add: post find_reservation_iff)
  have none: "find_order (r_id r) (w_db ?w1) = None"
    using no_order [OF base(4,6) mem] st tables by (auto simp: find_order_def)
  have "\<exists>w2. ensure_order E r ?w1 = (Inr (), w2) \<and> w_log w2 = w_log ?w1"
  proof (rule ensure_order_total [OF _ none])
    show "fresh_ids E (w_ids ?w1) (Suc (length (items_of (r_id r) (w_db ?w1))))
        (od_id ` set (orders (w_db ?w1)) \<union> oi_id ` set (order_items (w_db ?w1)))"
      using fresh ids tables by (simp add: items_of_def)
    show "find_reservation (r_id r) (w_db ?w1) \<noteq> None" using stored by (simp add: find_reservation_map set_status_def)
    have same: "items_of (r_id r) (w_db ?w1) = items_of (r_id r) (w_db w)" using tables by (simp add: items_of_def)
    then show "distinct (map ri_product (items_of (r_id r) (w_db ?w1)))"
      using base(3) [OF mem] by (simp add: row_ok_def)
    show "\<forall>i\<in>set (items_of (r_id r) (w_db ?w1)). 0 < ri_quantity i \<and> find_product (ri_product i) (w_db ?w1) \<noteq> None"
      unfolding same using base(7) wares tables by (auto simp: listed_def rows_ok_def list_all_iff items_of_def find_product_def)
    show "\<forall>l\<in>set (order_items (w_db ?w1)). oi_order l \<in> od_id ` set (orders (w_db ?w1))"
      using base(4) tables by (simp add: orders_sound_def list_all_iff)
  qed
  then obtain w2 where ord: "ensure_order E r ?w1 = (Inr (), w2)" "w_log w2 = w_log ?w1" by blast
  from ensure_order_effect [OF none ord(1)] obtain od ls where
    w2: "w_db w2 = (w_db ?w1)\<lparr>orders := orders (w_db ?w1) @ [od], order_items := order_items (w_db ?w1) @ ls\<rparr>"
      "od_reservation od = r_id r" by blast
  have row: "find_reservation (r_id r) (w_db w2) = Some (?f r)"
    using stored by (simp add: w2 find_reservation_map set_status_def)
  have id: "r_id (?f r) = r_id r" by (simp add: set_status_def)
  have same: "items_of (r_id r) (w_db w2) = items_of (r_id r) (w_db w)" using tables by (simp add: w2 items_of_def)
  have "r_target r = None" by (rule pending_target [OF inv mem]) (use st in auto)
  then have "row_ok (w_db w2) (?f r)"
    using base(3) [OF mem] same by (simp add: row_ok_def status_ok_def set_status_def)
  then have "to_domain (?f r) (w_db w2) = Inr (loaded (w_db w2) (?f r))"
    by (rule to_domain_row) (use positive_items [OF inv] same id in simp)
  then have "reload_domain (r_id r) w2 = (Inr (Some (loaded (w_db w2) (?f r))), w2)"
    using row by (simp add: reload_domain_def row_to_domain_def prog_simps)
  then have "confirm_reservation E r ctx w = (Inr (Some (loaded (w_db w2) (?f r))), w2)"
    using loop res ord(1) by (simp add: confirm_reservation_def prog_simps update_reservation_run)
  moreover have "find_order (r_id r) (w_db w2) \<noteq> None" using w2 by (simp add: find_order_def find_append split: option.split)
  ultimately show ?thesis using id ord(2) by (simp add: loaded_def set_status_def)
qed



end
