(* ===== verification/Creation_Properties.thy ===== *)
theory Creation_Properties
  imports Own_Stock
begin

section \<open>Creating a reservation\<close>

text \<open>
  What \<open>ReservationService.create\<close> answers: a repeated request gets the stored answer and
  costs nothing, a request that loses a race gets the winner's, a reservation that cannot be held
  gives everything back.
\<close>

subsection \<open>Repeated requests\<close>

definition by_key :: "uuid \<Rightarrow> string \<Rightarrow> database \<Rightarrow> reservation_row option" where
  "by_key user key d = find (\<lambda>r. r_user r = user \<and> r_key r = key) (reservations d)"

text \<open>The answer to a request whose key is taken.\<close>

definition stored_answer :: "item list \<Rightarrow> string \<Rightarrow> reservation_row \<Rightarrow> reservation \<Rightarrow> exn + reservation" where
  "stored_answer its key r x =
     (if r_fingerprint r \<noteq> reservation_request_fingerprint its then Inl (IdempotencyConflictError key (r_id r))
      else if r_status r = M_Failed \<or> r_target r = Some M_Failed then Inl (InsufficientInventoryError (res_items x))
      else Inr x)"

lemma by_key_loaded:
  assumes inv: "shop_inv (w_db w)" and r: "by_key user key (w_db w) = Some r"
  shows "get_by_idempotency_key user key w = (Inr (Some (loaded (w_db w) r)), w)"
proof -
  have "r \<in> set (reservations (w_db w))" using r by (auto simp: by_key_def dest: find_SomeD)
  from to_domain_loaded(1) [OF inv this] r show ?thesis
    by (simp add: get_by_idempotency_key_def row_to_domain_def prog_simps by_key_def)
qed

lemma domain_failed: "st \<noteq> M_Reserving \<Longrightarrow> st \<noteq> M_Active \<Longrightarrow> domain_status st = Failed \<longleftrightarrow> st = M_Failed"
  by (cases st) auto

lemma resolve_stored:
  assumes inv: "shop_inv d" and r: "r \<in> set (reservations d)"
  shows "resolve_idempotent_retry (loaded d r) key (reservation_request_fingerprint its) =
    stored_answer its key r (loaded d r)"
proof -
  have ok: "status_ok r" using shop_invD(3) [OF inv r] by (simp add: row_ok_def)
  have "res_status (loaded d r) = Failed \<longleftrightarrow> r_status r = M_Failed"
    using ok by (simp add: loaded_def status_ok_def domain_failed)
  moreover have "res_target (loaded d r) = Some Failed \<longleftrightarrow> r_target r = Some M_Failed"
    using ok by (auto simp: loaded_def status_ok_def split: if_splits)
  ultimately show ?thesis
    by (simp add: resolve_idempotent_retry_def stored_answer_def) (simp add: loaded_def)
qed

lemma stored_answer_error: "stored_answer its key r x \<noteq> Inl (IntegrityError n) \<and>
    stored_answer its key r x \<noteq> Inl ConcurrentReservationCreationError"
  by (simp add: stored_answer_def)

lemma create_repeated:
  assumes inv: "shop_inv (w_db w)" and r: "by_key user key (w_db w) = Some r"
  shows "\<exists>w'. create E other ttl user its key w = (stored_answer its key r (loaded (w_db w) r), w') \<and>
    w_db w' = w_db w \<and> w_log w' = w_log w"
proof -
  let ?w = "begin_transaction E w" and ?a = "stored_answer its key r (loaded (w_db w) r)"
  have mem: "r \<in> set (reservations (w_db w))" using r by (auto simp: by_key_def dest: find_SomeD)
  have body: "create_body E other ttl user its key ?w =
      ((case ?a of Inl e \<Rightarrow> Inl e | Inr x \<Rightarrow> Inr (Inl x)), ?w)"
    using by_key_loaded [of ?w user key r] inv r resolve_stored [OF inv mem]
    by (simp add: create_body_def Let_def prog_simps split: sum.split)
  show ?thesis
  proof (cases ?a)
    case (Inl e)
    with body stored_answer_error [of its key r "loaded (w_db w) r"] show ?thesis
      by (cases e) (simp_all add: create_def andThen_def catch_def reservation_transaction_cases transaction_def raise_def)
  next
    case (Inr x)
    with body show ?thesis
      by (simp add: create_def andThen_def catch_def reservation_transaction_cases transaction_def ret_def)
  qed
qed

text \<open>
  Repeating a creation changes nothing. In a run, a request with an idempotency key the user has
  already used is answered from the stored reservation: with the reservation, with the failure it
  ended in, or with a conflict when the items differ; nothing is written and no seller is called.
\<close>

theorem repeated_creation_is_answered:
  assumes "commits True E empty_database (w_db w)" and "r \<in> set (reservations (w_db w))"
    and "create E other ttl (r_user r) its (r_key r) w = (res, w')"
  shows "w_db w' = w_db w \<and> w_log w' = w_log w \<and>
    (\<exists>x. to_domain r (w_db w) = Inr x \<and>
      (if r_fingerprint r \<noteq> reservation_request_fingerprint its then res = Inl (IdempotencyConflictError (r_key r) (r_id r))
       else if r_status r = M_Failed \<or> r_target r = Some M_Failed then res = Inl (InsufficientInventoryError (res_items x))
       else res = Inr x))"
proof -
  have inv: "shop_inv (w_db w)" using assms(1) by (rule run_shop)
  have "distinct (map (\<lambda>r. (r_user r, r_key r)) (reservations (w_db w)))"
    using commits_closed [OF assms(1) unique_empty] by (simp add: keeps_closed_def unique_requests_def)
  then have "by_key (r_user r) (r_key r) (w_db w) = Some r"
    using find_Some_iff_mem [of "\<lambda>r. (r_user r, r_key r)" "reservations (w_db w)" "(r_user r, r_key r)" r] assms(2)
    by (simp add: by_key_def)
  from create_repeated [OF inv this, of E other ttl its] assms(3) to_domain_loaded(1) [OF inv assms(2)]
  show ?thesis by (auto simp: stored_answer_def)
qed

theorem repeated_creation_is_answered_witness:
  "\<exists>x. create offline (\<lambda>d. d) 600 7 two_pieces ''k'' (world_of reserved_database) =
     (Inr x, snd (create offline (\<lambda>d. d) 600 7 two_pieces ''k'' (world_of reserved_database))) \<and>
   w_db (snd (create offline (\<lambda>d. d) 600 7 two_pieces ''k'' (world_of reserved_database))) = reserved_database"
proof -
  obtain res w' where run: "create offline (\<lambda>d. d) 600 7 two_pieces ''k'' (world_of reserved_database) = (res, w')" by fastforce
  have row: "reserved_row \<in> set (reservations (w_db (world_of reserved_database)))" by (simp add: reserved_database_def)
  have key: "r_user reserved_row = 7" "r_key reserved_row = ''k''"
    "r_fingerprint reserved_row = reservation_request_fingerprint two_pieces"
    by (simp_all add: reserved_row_def)
  have "commits True offline empty_database (w_db (world_of reserved_database))" using reserved by simp
  from repeated_creation_is_answered [OF this row, unfolded key, OF run] row_simps(3,4) run show ?thesis by auto
qed

text \<open>
  C21. Losing a race. When the same request is committed by someone else after this one looked for
  its key, this one takes nothing: the unique key stops it before any hold, its transaction is
  undone, and it answers from the winner's reservation.
\<close>

theorem racing_creation_adopts_winner:
  assumes "commits True E empty_database (w_db w)" and "commits True E (w_db w) (other (w_db w))"
    and none: "\<And>x. x \<in> set (reservations (w_db w)) \<Longrightarrow> \<not> (r_user x = user \<and> r_key x = key)"
    and r: "r \<in> set (reservations (other (w_db w)))" "r_user r = user" "r_key r = key"
    and fresh: "find_reservation (e_uuid E (w_ids w)) (other (w_db w)) = None"
    and request: "its \<noteq> []" "0 < ttl" "key \<noteq> []" "length key \<le> 128"
    and run: "create E other ttl user its key w = (res, w')"
  shows "w_db w' = other (w_db w) \<and> w_log w' = w_log w \<and>
    (\<exists>x. to_domain r (other (w_db w)) = Inr x \<and>
      (if r_fingerprint r \<noteq> reservation_request_fingerprint its then res = Inl (IdempotencyConflictError key (r_id r))
       else if r_status r = M_Failed \<or> r_target r = Some M_Failed then res = Inl (InsufficientInventoryError (res_items x))
       else res = Inr x))"
proof -
  let ?w = "begin_transaction E w" and ?rid = "e_uuid E (w_ids w)" and ?d = "other (w_db w)"
  have run2: "commits True E empty_database ?d" using commits.in_turn [OF assms(1,2)] .
  have inv: "shop_inv ?d" using run2 by (rule run_shop)
  have key: "by_key user key ?d = Some r"
    using commits_closed [OF run2 unique_empty] r
      find_Some_iff_mem [of "\<lambda>r. (r_user r, r_key r)" "reservations ?d" "(user, key)" r]
    by (simp add: by_key_def keeps_closed_def unique_requests_def)
  have lookup: "get_by_idempotency_key user key ?w = (Inr None, ?w)"
    using none by (auto simp: get_by_idempotency_key_def row_to_domain_def prog_simps find_None_iff_all
        split: option.split dest!: find_SomeD)
  let ?now = "e_utc E (w_ticks ?w)"
  let ?dr = "\<lparr>dr_id = ?rid, dr_user = user, dr_items = its, dr_key = key,
      dr_fingerprint = reservation_request_fingerprint its, dr_now = ?now, dr_ttl = ttl\<rparr>"
  obtain x where x: "start ?dr = Inr x" "res_id x = ?rid" "res_user x = user" "res_key x = key"
    "res_status x = Pending" "res_target x = None" "length (res_fingerprint x) = 64"
    using request by (auto simp: start_Inr)
  let ?v = "?w\<lparr>w_ids := Suc (w_ids w), w_ticks := Suc (w_ticks ?w), w_db := ?d, w_saved := ?d\<rparr>"
  obtain row where row: "to_model (w_now ?v) x = Inr row" "r_id row = ?rid" "r_user row = user" "r_key row = key"
    "r_target row = None" "length (r_fingerprint row) = 64"
    using x by (auto simp: to_model_def optional_status_def)
  have "\<not> list_all (\<lambda>y. \<not> (r_user y = user \<and> r_key y = key)) (reservations ?d)"
    using r by (auto simp: list_all_iff)
  then have "insert_reservation row ?d = Inl (IntegrityError idempotency_constraint)"
    using row fresh request by (simp add: insert_reservation_def idempotency_constraint_def)
  then have "add_with_hold E x ?v = (Inl (IntegrityError idempotency_constraint), ?v)"
    using row(1) by (simp add: add_with_hold_def prog_simps)
  then have "create_body E other ttl user its key ?w = (Inl (IntegrityError idempotency_constraint), ?v)"
    using lookup x(1) by (simp add: create_body_def Let_def prog_simps)
  then have lost: "reservation_transaction E (create_body E other ttl user its key) w =
      (Inl ConcurrentReservationCreationError, ?v)"
    by (simp add: reservation_transaction_cases transaction_def)
  let ?v2 = "begin_transaction E ?v"
  have again: "reservation_transaction E (get_by_idempotency_key user key) ?v = (Inr (Some (loaded ?d r)), ?v2)"
    using by_key_loaded [of ?v2 user key r] inv key by (simp add: reservation_transaction_Inr)
  have "create E other ttl user its key w = (stored_answer its key r (loaded ?d r), ?v2)"
    using lost again resolve_stored [OF inv r(1)]
    by (simp add: create_def andThen_def catch_def lift_sum_def)
  with run to_domain_loaded(1) [OF inv r(1)] show ?thesis by (auto simp: stored_answer_def)
qed

theorem racing_creation_adopts_winner_witness:
  "\<exists>x w'. create offline (\<lambda>_. reserved_database) 600 7 two_pieces ''k'' ((world_of stocked_database)\<lparr>w_ids := 5\<rparr>) =
     (Inr x, w') \<and> w_db w' = reserved_database"
proof -
  let ?w = "(world_of stocked_database)\<lparr>w_ids := 5\<rparr>"
  obtain res w' where run: "create offline (\<lambda>_. reserved_database) 600 7 two_pieces ''k'' ?w = (res, w')" by fastforce
  have row: "reserved_row \<in> set (reservations reserved_database)" "r_user reserved_row = 7" "r_key reserved_row = ''k''"
    "r_fingerprint reserved_row = reservation_request_fingerprint two_pieces"
    by (simp_all add: reserved_database_def reserved_row_def)
  have none: "\<not> (r_user x = 7 \<and> r_key x = ''k'')" if "x \<in> set (reservations (w_db ?w))" for x
    using that by (simp add: stocked_database_def empty_database_def)
  have fresh: "find_reservation (e_uuid offline (w_ids ?w)) reserved_database = None"
    by (simp add: find_reservation_def reserved_database_def reserved_row_def offline_def sample_environment_def)
  have runs: "commits True offline empty_database (w_db ?w)" "commits True offline (w_db ?w) reserved_database"
    using stocked reserving by simp_all
  have "two_pieces \<noteq> []" by (simp add: two_pieces_def)
  from racing_creation_adopts_winner [OF runs none row(1-3) fresh this _ _ _ run] row(4) row_simps(3,4) run
  show ?thesis by auto
qed

subsection \<open>Requests that cannot be held\<close>

lemma sum_list_split: "(\<Sum>x\<leftarrow>xs. (f x :: int)) = (\<Sum>x\<leftarrow>filter P xs. f x) + (\<Sum>x\<leftarrow>filter (\<lambda>x. \<not> P x) xs. f x)"
  by (induction xs) simp_all

lemma sum_list_zero: "(\<And>x. x \<in> set xs \<Longrightarrow> f x = (0::int)) \<Longrightarrow> (\<Sum>x\<leftarrow>xs. f x) = 0"
  by (induction xs) simp_all

lemma held_split:
  "held_at d p v = (\<Sum>a\<leftarrow>filter (belongs d rid) (allocations d). held_quantity (items d) p v a) +
     (\<Sum>a\<leftarrow>others rid d. held_quantity (items d) p v a)"
  unfolding held_at_def others_def by (rule sum_list_split)

lemma failed_add_returns:
  assumes inv: "shop_inv (w_db w)" and st: "start dr = Inr r" and run: "add_with_hold E r w = (Inr False, w')"
    and v: "is_internal (w_db w) v"
  shows "reserved_at (w_db w') p v = reserved_at (w_db w) p v"
proof -
  let ?d = "w_db w" and ?d' = "w_db w'"
  note add = add_with_hold_inv [OF inv st run]
  then have inv': "shop_inv ?d'" by blast
  obtain rows where items: "items ?d' = items ?d @ rows"
  proof (rule added_rows [OF inv st run])
    fix row rows w2
    assume loop: "hold_items E (res_id r) rows w2 = (Inr False, w')"
      and w2: "w_db w2 = (w_db w)\<lparr>reservations := reservations (w_db w) @ [row], items := items (w_db w) @ rows\<rparr>"
    from keepsD [OF keeps_wares_hold_items loop] w2 that show thesis by (simp add: wares_def)
  qed
  have same: "item_product (items ?d') (al_item a) = item_product (items ?d) (al_item a)" if "a \<in> set (allocations ?d)" for a
  proof -
    have "find_item (al_item a) ?d \<noteq> None" using shop_invD(7) [OF inv] that by (simp add: rows_ok_def list_all_iff)
    then show ?thesis by (auto simp: item_product_def items find_item_def find_append split: option.split)
  qed
  have v': "is_internal ?d' v" using v add by (simp add: is_internal_def find_provider_def)
  obtain r' where r': "find_reservation (res_id r) ?d' = Some r'" "r_status r' = M_Failed \<or> r_status r' = M_Releasing"
    using add by auto
  then have "r' \<in> set (reservations ?d')" "r_id r' = res_id r"
    using shop_invD(6) [OF inv'] by (simp_all add: find_reservation_iff)
  then have "settled ?d' (res_id r) (r_status r')" using shop_invD(2) [OF inv'] by (auto simp: coherent_def)
  then have none: "held_quantity (items ?d') p v a = 0" if "a \<in> set (allocations ?d')" "belongs ?d' (res_id r) a" for a
    using that v' r'(2) by (auto simp: settled_def held_quantity_def holds_at_def)
  have "(\<Sum>a\<leftarrow>filter (belongs ?d' (res_id r)) (allocations ?d'). held_quantity (items ?d') p v a) = 0"
    by (rule sum_list_zero) (use none in auto)
  then have "held_at ?d' p v = (\<Sum>a\<leftarrow>others (res_id r) ?d'. held_quantity (items ?d') p v a)"
    using held_split [of ?d' p v "res_id r"] by simp
  also have "\<dots> = held_at ?d p v"
    using add same by (auto simp: held_at_def held_quantity_def holds_at_def intro!: arg_cong [of _ _ sum_list] map_cong)
  finally show ?thesis
    using shop_invD(9) [OF inv] shop_invD(9) [OF inv'] v v' by (simp add: ledger_def)
qed

text \<open>
  C22. A failed creation takes nothing. In a run, when a creation answers that the inventory is
  insufficient, every internal seller has for every product exactly the reserved stock it had when
  the reservation was inserted, or when the request was looked up.
\<close>

theorem failed_creation_returns_stock:
  assumes "commits True E empty_database (w_db w)" and "commits True E (w_db w) (other (w_db w))"
    and run: "create E other ttl user its key w = (Inl (InsufficientInventoryError missing), w')"
  shows "\<exists>d. (d = w_db w \<or> d = other (w_db w)) \<and>
    (\<forall>p v. is_internal d v \<longrightarrow> reserved_at (w_db w') p v = reserved_at d p v)"
  using create_cases [OF run]
proof (elim disjE exE conjE)
  assume "w_db w' = w_db w"
  then show ?thesis by auto
next
  assume "w_db w' = other (w_db w)"
  then show ?thesis by auto
next
  fix now rid r held v v'
  assume st: "start \<lparr>dr_id = rid, dr_user = user, dr_items = its, dr_key = key,
        dr_fingerprint = reservation_request_fingerprint its, dr_now = now, dr_ttl = ttl\<rparr> = Inr r"
    and v: "w_db v = other (w_db w)" and add: "add_with_hold E r v = (Inr held, v')" and w': "w_db w' = w_db v'"
    and res: "Inl (InsufficientInventoryError missing) = (if held then Inr r else Inl (InsufficientInventoryError its))"
  have inv: "shop_inv (w_db v)" using run_shop commits.in_turn [OF assms(1,2)] v by simp
  have "held = False" using res by (simp split: if_splits)
  from failed_add_returns [OF inv st add [unfolded this] ] v w' show ?thesis by auto
qed

text \<open>A creation that fails: the seller has no offer of the product.\<close>

lemma failing_step:
  assumes "other open_database = open_database"
  shows "\<exists>w'. create offline other 600 7 two_pieces ''k'' (world_of open_database) =
     (Inl (InsufficientInventoryError two_pieces), w') \<and>
     w_db w' = open_database\<lparr>reservations := [set_status M_Failed (set_failure reserved_row)], items := [reserved_item]\<rparr>"
proof -
  let ?w = "begin_transaction offline (world_of open_database)"
  let ?fp = "reservation_request_fingerprint two_pieces"
  let ?x = "\<lparr>res_id = 1000, res_user = 7, res_items = two_pieces, res_key = ''k'',
      res_fingerprint = ?fp, res_created = 1, res_expires = 601, res_status = Pending, res_target = None\<rparr>"
  let ?v = "?w\<lparr>w_ids := Suc 0, w_ticks := Suc (Suc 0), w_db := open_database, w_saved := open_database\<rparr>"
  have now: "w_now ?w = 0" "w_ticks ?w = 1" "w_ids (world_of open_database) = 0"
    by (simp_all add: begin_transaction_def world_of_def offline_def sample_environment_def)
  have env: "e_uuid offline 0 = 1000" "e_uuid offline (Suc 0) = 1001" "e_utc offline (Suc 0) = 1"
    by (simp_all add: offline_def sample_environment_def)
  have none: "get_by_idempotency_key 7 ''k'' ?w = (Inr None, ?w)"
    by (simp add: get_by_idempotency_key_def row_to_domain_def prog_simps empty_database_def)
  have start: "start \<lparr>dr_id = 1000, dr_user = 7, dr_items = two_pieces, dr_key = ''k'', dr_fingerprint = ?fp,
      dr_now = 1, dr_ttl = 600\<rparr> = Inr ?x"
    by (simp add: start_Inr two_pieces_def)
  have model: "to_model 0 ?x = Inr reserved_row"
    by (simp add: to_model_def optional_status_def reserved_row_def)
  have row: "insert_reservation reserved_row open_database = Inr (open_database\<lparr>reservations := [reserved_row]\<rparr>)"
    by (simp add: insert_reservation_def reserved_row_def empty_database_def find_simps)
  let ?d = "open_database\<lparr>reservations := [reserved_row], items := [reserved_item]\<rparr>"
  have item: "insert_item reserved_item (open_database\<lparr>reservations := [reserved_row]\<rparr>) = Inr ?d"
    by (simp add: insert_item_def int4_def reserved_item_def reserved_row_def seller_def empty_database_def find_simps)
  have new: "new_item 1001 1000 \<lparr>it_product = 1000, it_provider = 1000, it_quantity = 2\<rparr> = reserved_item"
    by (simp add: new_item_def reserved_item_def)
  let ?v2 = "?v\<lparr>w_ids := 2, w_db := ?d\<rparr>"
  have items: "insert_items offline 1000 two_pieces (?v\<lparr>w_db := open_database\<lparr>reservations := [reserved_row]\<rparr>\<rparr>) =
      (Inr [reserved_item], ?v2)"
    by (simp add: insert_items_def two_pieces_def prog_simps env new item)
  have "offers ?d = []" by (simp add: empty_database_def)
  then have "routing_candidates p v ?d = []" for p v
    by (simp add: routing_candidates_def find_offer_def map_filter_simps)
  then have hold: "try_hold_selected offline p v q key ?v2 = (Inr None, ?v2)" for p v q key
    by (simp add: try_hold_selected_def prog_simps configure_def map_filter_simps)
  let ?f = "\<lambda>r. touch 0 (touch 0 (touch 0 r (set_failure r)) (set_target M_Failed (touch 0 r (set_failure r))))
      (finish_release False M_Failed (touch 0 (touch 0 r (set_failure r)) (set_target M_Failed (touch 0 r (set_failure r)))))"
  have allocs: "allocations_of 1000 (d\<lparr>reservations := rs\<rparr>) = []" if "allocations d = []" for d rs
    using that by (simp add: allocations_of_def map_filter_simps)
  have "allocations ?d = []" by (simp add: empty_database_def)
  then have loop: "hold_items offline 1000 [reserved_item] ?v2 = (Inr False,
      ?v2\<lparr>w_db := open_database\<lparr>reservations := [?f reserved_row], items := [reserved_item]\<rparr>\<rparr>)"
    using hold now
    by (simp add: Let_def prog_simps update_reservation_def release_reservation_def map_reservation_def row_simps allocs
        set_failure_def set_target_def finish_release_def)
  have "?f reserved_row = set_status M_Failed (set_failure reserved_row)"
    by (simp add: reserved_row_def touch_def set_failure_def set_target_def finish_release_def set_status_def)
  moreover have "add_with_hold offline ?x ?v = (Inr False,
      ?v2\<lparr>w_db := open_database\<lparr>reservations := [?f reserved_row], items := [reserved_item]\<rparr>\<rparr>)"
    using now row items loop model by (simp add: add_with_hold_def prog_simps)
  ultimately show ?thesis
    by (simp add: create_def create_body_def reservation_transaction_cases transaction_def Let_def prog_simps none env now start assms)
qed

theorem failed_creation_returns_stock_witness:
  "reserved_at (w_db (snd (create offline (\<lambda>d. d) 600 7 two_pieces ''k'' (world_of open_database)))) 1000 1000 = 0"
proof -
  obtain w' where run: "create offline (\<lambda>d. d) 600 7 two_pieces ''k'' (world_of open_database) =
      (Inl (InsufficientInventoryError two_pieces), w')"
    using failing_step [of "\<lambda>d. d"] by blast
  have "is_internal open_database 1000" by (simp add: is_internal_def find_provider_def seller_def)
  moreover have "reserved_at open_database 1000 1000 = 0" by (simp add: reserved_at_def find_offer_def empty_database_def)
  ultimately show ?thesis
    using failed_creation_returns_stock [OF _ _ run] opened commits.idle run by auto
qed

end
