(* ===== verification/Api_Properties.thy ===== *)
theory Api_Properties
  imports Http_Api Creation_Properties
begin

section \<open>What the HTTP interface promises its callers\<close>

text \<open>
  Reservations are private to their user, a repeated POST is answered from the first, and which
  status codes the management endpoints can answer.
\<close>

subsection \<open>Privacy\<close>

lemma not_found_response: "error_response (ReservationNotFoundError rid) = handle_reservation_not_found rid"
  by (simp add: error_response_def exception_handler_def)

lemma get_loaded:
  assumes "shop_inv (w_db w)"
  shows "get E rid w = (Inr (map_option (loaded (w_db w)) (find_reservation rid (w_db w))), begin_transaction E w)"
  using assms by (simp add: get_def reservation_transaction_Inr repo_get_def reload_loaded)

lemma owned_find:
  assumes "shop_inv d"
  shows "owned_reservation rid user d = (case find_reservation rid d of
    None \<Rightarrow> None | Some r \<Rightarrow> if r_user r = user then Some r else None)"
proof -
  have keys: "keys_ok d" by (rule shop_invD(6) [OF assms])
  show ?thesis
  proof (cases "owned_reservation rid user d")
    case (Some r)
    then have "find_reservation rid d = Some r" "r_user r = user"
      using owned_reservation_Some [OF Some] keys by (auto simp: find_reservation_iff)
    with Some show ?thesis by simp
  next
    case None
    then have "find_reservation rid d = Some r \<Longrightarrow> r_user r \<noteq> user" for r
      using keys by (auto simp: owned_reservation_def find_None_iff_all find_reservation_iff)
    with None show ?thesis by (simp split: option.split)
  qed
qed

lemma confirm_absent:
  "owned_reservation rid user (w_db w) = None \<Longrightarrow> confirm E rid user w = (Inr None, begin_transaction E w)"
  by (simp add: confirm_def repo_confirm_def reservation_transaction_Inr prog_simps)

lemma cancel_absent:
  "owned_reservation rid user (w_db w) = None \<Longrightarrow> cancel E rid user w = (Inr None, begin_transaction E w)"
  by (simp add: cancel_def repo_cancel_def reservation_transaction_Inr prog_simps)

lemma found_or_404_None [simp]: "found_or_404 rid None w = (Inl (ReservationNotFoundError rid), w)"
  by (simp add: found_or_404_def raise_def)


text \<open>A codec that reads the identifiers of the sample run.\<close>

definition sample_codec :: codec where
  "sample_codec = \<lparr>k_text_uuid = (\<lambda>s. if s = ''alice'' then Some 7 else if s = ''mallory'' then Some 8
       else if s = ''r'' then Some 1000 else None),
     k_uuid = (\<lambda>j. if j = JStr ''p'' then Some 1000 else None),
     k_int = (\<lambda>j. case j of JNum n \<Rightarrow> Some n | _ \<Rightarrow> None), k_bool = (\<lambda>j. case j of JBool b \<Rightarrow> Some b | _ \<Rightarrow> None),
     k_time = (\<lambda>t. '''')\<rparr>"


subsection \<open>Repeated requests\<close>

lemma hold_items_True: "hold_items E rid its w = (Inr True, w') \<Longrightarrow> rest_of (w_db w') = rest_of (w_db w)"
proof (induction its arbitrary: w)
  case (Cons i its)
  let ?key = "hold_idempotency_key rid (ri_product i) (ri_provider i)"
  obtain h w1 where hold: "try_hold_selected E (ri_product i) (ri_provider i) (ri_quantity i) ?key w = (Inr (Some h), w1)"
    and more: "andThen (fresh_uuid E) (\<lambda>aid. andThen (try_write (insert_allocation (new_allocation aid i h ?key)))
        (\<lambda>_. hold_items E rid its)) w1 = (Inr True, w')"
    using Cons.prems by (auto simp: Let_def andThen_def ret_def split: prod.splits sum.splits option.splits)
  from keepsD [OF keeps_rest_try_hold_selected hold] have "rest_of (w_db w1) = rest_of (w_db w)" .
  moreover from more obtain d where ins: "insert_allocation (new_allocation (e_uuid E (w_ids w1)) i h ?key) (w_db w1) = Inr d"
    and rest: "hold_items E rid its (w1\<lparr>w_ids := Suc (w_ids w1), w_db := d\<rparr>) = (Inr True, w')"
    by (auto simp: prog_simps split: sum.splits)
  moreover have "rest_of d = rest_of (w_db w1)" using insert_allocation_Inr [OF ins] by simp
  ultimately show ?case using Cons.IH [OF rest] by simp
qed (simp add: ret_def)

lemma added_request:
  assumes st: "start dr = Inr r" and run: "add_with_hold E r w = (Inr True, w')"
  shows "\<exists>row. row \<in> set (reservations (w_db w')) \<and> r_id row = res_id r \<and> r_user row = dr_user dr \<and>
    r_key row = dr_key dr \<and> r_fingerprint row = dr_fingerprint dr"
proof -
  from run obtain row d1 rows w2 where row: "to_model (w_now w) r = Inr row"
    and ins: "insert_reservation row (w_db w) = Inr d1"
    and its: "insert_items E (res_id r) (res_items r) (w\<lparr>w_db := d1\<rparr>) = (Inr rows, w2)"
    and loop: "hold_items E (res_id r) rows w2 = (Inr True, w')"
    by (auto simp: add_with_hold_def prog_simps split: prod.splits sum.splits)
  have "reservations (w_db w') = reservations (w_db w2)"
    using arg_cong [OF hold_items_True [OF loop], of reservations] by (simp add: rest_of_def)
  also have "\<dots> = reservations (w_db w) @ [row]"
    using insert_items_effect [OF its] insert_reservation_Inr [OF ins] by simp
  finally have "row \<in> set (reservations (w_db w'))" by simp
  moreover have "r_id row = res_id r" "r_user row = res_user r" "r_key row = res_key r" "r_fingerprint row = res_fingerprint r"
    using row by (auto simp: to_model_def split: sum.splits)
  ultimately show ?thesis using st by (auto simp: start_Inr)
qed

text \<open>A creation that returns has left the request it stands for in the database.\<close>

lemma stored_answer_Inr:
  "stored_answer its key r x = Inr y \<longleftrightarrow>
     y = x \<and> r_fingerprint r = reservation_request_fingerprint its \<and> r_status r \<noteq> M_Failed \<and> r_target r \<noteq> Some M_Failed"
  by (auto simp: stored_answer_def)

definition answered :: "uuid \<Rightarrow> string \<Rightarrow> item list \<Rightarrow> uuid \<Rightarrow> database \<Rightarrow> bool" where
  "answered user key its rid d \<longleftrightarrow> (\<exists>r\<in>set (reservations d). r_id r = rid \<and> r_user r = user \<and> r_key r = key \<and>
     r_fingerprint r = reservation_request_fingerprint its)"

lemma by_key_lookup:
  assumes "shop_inv (w_db w)"
  shows "get_by_idempotency_key user key w = (Inr (map_option (loaded (w_db w)) (by_key user key (w_db w))), w)"
proof (cases "by_key user key (w_db w)")
  case None
  then show ?thesis
    by (simp add: by_key_def get_by_idempotency_key_def row_to_domain_def prog_simps)
qed (use by_key_loaded [OF assms] in simp)

lemma by_key_answered:
  assumes inv: "shop_inv d" and r: "by_key user key d = Some r"
    and res: "resolve_idempotent_retry (loaded d r) key (reservation_request_fingerprint its) = Inr x"
  shows "answered user key its (res_id x) d"
proof -
  have mem: "r \<in> set (reservations d)" "r_user r = user" "r_key r = key"
    using r by (auto simp: by_key_def dest: find_SomeD)
  with res resolve_stored [OF inv mem(1)] show ?thesis
    by (auto simp: stored_answer_Inr answered_def loaded_def)
qed

lemma create_answered:
  assumes inv: "shop_inv (w_db w)" "shop_inv (other (w_db w))"
    and run: "create E other ttl user its key w = (Inr x, w')"
  shows "answered user key its (res_id x) (w_db w')"
proof (cases "by_key user key (w_db w)")
  case (Some r)
  then have mem: "r \<in> set (reservations (w_db w))" "r_user r = user" "r_key r = key"
    by (auto simp: by_key_def dest: find_SomeD)
  from create_repeated [OF inv(1) Some, of E other ttl its] run
  have "stored_answer its key r (loaded (w_db w) r) = Inr x" "w_db w' = w_db w" by auto
  with by_key_answered [OF inv(1) Some] resolve_stored [OF inv(1) mem(1)] show ?thesis by simp
next
  case None
  let ?w = "begin_transaction E w"
  have none: "get_by_idempotency_key user key ?w = (Inr None, ?w)"
    using by_key_lookup [of ?w user key] inv(1) None by simp
  obtain z w1 where body: "create_body E other ttl user its key ?w = (z, w1)" by fastforce
  note cases = create_body_cases [OF body, simplified]
  show ?thesis
  proof (cases z)
    case (Inl e)
    let ?w1 = "w1\<lparr>w_db := w_saved w1\<rparr>" and ?w2 = "begin_transaction E (w1\<lparr>w_db := w_saved w1\<rparr>)"
    have saved: "shop_inv (w_db ?w2)" using cases Inl inv by auto
    from run Inl body obtain r where again: "by_key user key (w_db ?w2) = Some r"
      and "resolve_idempotent_retry (loaded (w_db ?w2) r) key (reservation_request_fingerprint its) = Inr x" "w' = ?w2"
      by (auto simp: create_def andThen_def catch_def ret_def raise_def lift_sum_def reservation_transaction_cases
          transaction_def by_key_lookup [OF saved] split: if_splits exn.splits option.splits)
    with by_key_answered [OF saved again] show ?thesis by simp
  next
    case (Inr y)
    have run': "w' = w1 \<and> (case y of Inl r \<Rightarrow> x = r | Inr (r, held) \<Rightarrow> held \<and> x = r)"
      using run body Inr
      by (auto simp: create_def andThen_def catch_def ret_def raise_def reservation_transaction_cases
          transaction_def split: sum.splits prod.splits if_splits)
    show ?thesis
    proof (cases y)
      case (Inl r)
      with body Inr none show ?thesis
        by (auto simp: create_body_def Let_def prog_simps split: sum.splits prod.splits)
    next
      fix p
      assume y: "y = Inr p"
      obtain r held where p: "p = (r, held)" by fastforce
      with y run' have x: "x = r" "held" "w' = w1" by auto
      from cases Inr y p x obtain now rid v where
        st: "start \<lparr>dr_id = rid, dr_user = user, dr_items = its, dr_key = key,
          dr_fingerprint = reservation_request_fingerprint its, dr_now = now, dr_ttl = ttl\<rparr> = Inr r"
        and add: "add_with_hold E r v = (Inr True, w1)" by auto
      from added_request [OF st add] x show ?thesis by (auto simp: answered_def)
    qed
  qed
qed

text \<open>An answered request stays answered, whatever else is committed.\<close>

lemma answered_later:
  assumes inv: "shop_inv d" "shop_inv d'" and ev: "evolves d d'" and ans: "answered user key its rid d"
  shows "answered user key its rid d'"
proof -
  obtain r where r: "r \<in> set (reservations d)" "r_id r = rid" "r_user r = user" "r_key r = key"
    "r_fingerprint r = reservation_request_fingerprint its"
    using ans by (auto simp: answered_def)
  then have "find_reservation rid d = Some r" using shop_invD(6) [OF inv(1)] by (simp add: find_reservation_iff)
  from evolvesD [OF ev this] obtain r' where "find_reservation rid d' = Some r'" "same_request r r'" by blast
  then show ?thesis
    using r shop_invD(6) [OF inv(2)] by (auto simp: answered_def same_request_def find_reservation_iff)
qed

lemma answered_by_key:
  assumes run: "commits True E empty_database d" and ans: "answered user key its rid d"
  shows "\<exists>r. by_key user key d = Some r \<and> r_id r = rid \<and> r \<in> set (reservations d) \<and>
    r_fingerprint r = reservation_request_fingerprint its"
proof -
  obtain r where r: "r \<in> set (reservations d)" "r_id r = rid" "r_user r = user" "r_key r = key"
    "r_fingerprint r = reservation_request_fingerprint its"
    using ans by (auto simp: answered_def)
  have "distinct (map (\<lambda>r. (r_user r, r_key r)) (reservations d))"
    using commits_closed [OF run unique_empty] by (simp add: keeps_closed_def unique_requests_def)
  then have "by_key user key d = Some r"
    using find_Some_iff_mem [of "\<lambda>r. (r_user r, r_key r)" "reservations d" "(user, key)" r] r by (simp add: by_key_def)
  with r show ?thesis by blast
qed

text \<open>What a valid POST is: its parameters, and items of positive quantity.\<close>

definition requested_items :: "(uuid \<times> uuid \<times> int) list \<Rightarrow> item list" where
  "requested_items = map (\<lambda>(p, v, q). \<lparr>it_product = p, it_provider = v, it_quantity = q\<rparr>)"

lemma those_Some: "those xs = Some ys \<longleftrightarrow> xs = map Some ys"
  by (induction xs arbitrary: ys) (auto split: option.splits)

lemma parse_item_positive: "parse_item_request c j = Some (p, v, q) \<Longrightarrow> 0 < q"
  by (auto simp: parse_item_request_def at_least_def bind_eq_Some_conv split: if_splits)

lemma parse_create_positive:
  assumes "parse_create_request c j = Some its"
  shows "its \<noteq> [] \<and> (\<forall>(p, v, q)\<in>set its. 0 < q)"
proof -
  obtain xs where "map (parse_item_request c) xs = map Some its" "its \<noteq> []"
    using assms by (auto simp: parse_create_request_def bind_eq_Some_conv those_Some split: if_splits)
  moreover from this(1) have "\<forall>y\<in>set its. \<exists>x. parse_item_request c x = Some y"
    by (metis (no_types, lifting) imageE imageI image_set)
  ultimately show ?thesis using parse_item_positive by fastforce
qed

lemma mk_items:
  assumes "\<forall>(p, v, q)\<in>set its. 0 < q"
  shows "sum_map (\<lambda>(p, v, q). mk_item p v q) its = Inr (requested_items its)"
  unfolding requested_items_def by (rule sum_map_Inr) (use assms in \<open>auto simp: mk_item_def\<close>)

lemma answer_lift: "answer (andThen (lift_sum (Inr x)) f) g w = answer (f x) g w"
  by (simp add: answer_def andThen_def lift_sum_def)

lemma post_valid:
  assumes "post_reservation E c other ttl user_header key_header body w = (resp, w')" and "hr_status resp \<noteq> 422"
  obtains user key its where "both (Option.bind user_header (k_text_uuid c))
      (both (Option.bind key_header parse_key) (Option.bind body (parse_create_request c))) = Some (user, key, its)"
    "\<And>E other ttl w. post_reservation E c other ttl user_header key_header body w =
      answer (create E other ttl user (requested_items its) key) (\<lambda>r. json_response 201 (reservation_response c r)) w"
proof -
  obtain user key its where valid: "both (Option.bind user_header (k_text_uuid c))
      (both (Option.bind key_header parse_key) (Option.bind body (parse_create_request c))) = Some (user, key, its)"
    using assms by (auto simp: post_reservation_def with_valid_def unprocessable_def split: option.splits)
  then have "\<exists>j. parse_create_request c j = Some its" by (auto simp: both_def bind_eq_Some_conv split: option.splits)
  then have "\<forall>(p, v, q)\<in>set its. 0 < q" using parse_create_positive by blast
  note its = mk_items [OF this]
  show thesis
    by (rule that [OF valid]) (simp add: post_reservation_def with_valid_def valid its answer_lift)
qed

lemma created_status: "hr_status (error_response e) \<noteq> 201"
  by (cases e) (simp_all add: error_response_def exception_handler_def error_body_def json_response_def
    handle_idempotency_conflict_def handle_insufficient_inventory_def handle_reservation_not_found_def
    handle_reservation_not_cancellable_def handle_reservation_not_confirmable_def handle_reconciliation_required_def
    handle_inventory_below_reserved_def handle_inventory_has_active_reservations_def
    handle_inventory_level_not_found_def handle_invalid_product_configuration_def handle_product_sku_conflict_def
    handle_product_not_found_def handle_invalid_provider_configuration_def handle_provider_not_found_def
    handle_provider_name_conflict_def)


text \<open>The sample request, posted twice.\<close>

definition sample_body :: json where
  "sample_body = JObj [(''items'', JList [JObj [(''product_id'', JStr ''p''), (''provider_id'', JStr ''p''),
     (''quantity'', JNum 2)]])]"

lemma sample_parsed: "parse_create_request sample_codec sample_body = Some [(1000, 1000, 2)]"
  by (simp add: parse_create_request_def sample_body_def closed_object_def required_def member_def list_of_def
      parse_item_request_def at_least_def sample_codec_def)

lemma sample_post:
  "post_reservation E sample_codec other ttl (Some ''alice'') (Some ''k'') (Some sample_body) w =
     answer (create E other ttl 7 two_pieces ''k'') (\<lambda>r. json_response 201 (reservation_response sample_codec r)) w"
proof -
  have "both (k_text_uuid sample_codec ''alice'') (both (parse_key ''k'') (parse_create_request sample_codec sample_body)) =
      Some (7, ''k'', [(1000, 1000, 2)])"
    unfolding sample_parsed by (simp add: both_def parse_key_def sample_codec_def)
  moreover have "sum_map (\<lambda>(p, v, q). mk_item p v q) [(1000, 1000, 2)] = Inr two_pieces"
    by (simp add: mk_item_def two_pieces_def)
  ultimately show ?thesis by (simp add: post_reservation_def with_valid_def answer_lift)
qed


subsection \<open>What the management endpoints answer\<close>

lemma error_statuses:
  "hr_status (error_response (ProductNotFoundError p)) = 404" "hr_status (error_response (ProviderNotFoundError v)) = 404"
  "hr_status (error_response (InventoryBelowReservedError p v n)) = 409" "hr_status (error_response DataError) = 500"
  "hr_status (error_response (InvalidProviderConfigurationError m)) = 422"
  "hr_status (error_response (ProviderNameConflictError m)) = 409" "hr_status (error_response PyValueError) = 500"
  by (simp_all add: error_response_def exception_handler_def error_body_def json_response_def
      handle_product_not_found_def handle_provider_not_found_def handle_inventory_below_reserved_def
      handle_invalid_provider_configuration_def handle_provider_name_conflict_def)

lemma require_runs:
  "require_product E p w = ((if find_product p (w_db w) = None then Inl (ProductNotFoundError p) else Inr ()), begin_transaction E w)"
  "require_provider E v w = ((if find_provider v (w_db w) = None then Inl (ProviderNotFoundError v) else Inr ()), begin_transaction E w)"
  by (simp_all add: require_product_def require_provider_def product_exists_def provider_exists_def transaction_def prog_simps)

lemma set_level_answers:
  assumes "set_level p v n k g w = (res, w')" and "0 \<le> n" "0 \<le> k"
    and "find_product p (w_db w) \<noteq> None" "find_provider v (w_db w) \<noteq> None"
  shows "if int4 n \<and> int4 k then (\<exists>r. res = Inr r) \<or> (\<exists>m. res = Inl (InventoryBelowReservedError p v m)) else res = Inl DataError"
proof -
  have "offer_ok (level_row p v n k g)" using assms(2,3) by (simp add: offer_ok_iff level_row_def)
  then have checks: "check_constraints (offer_checks (level_row p v n k g)) = Inr ()" by (simp add: check_offer)
  have "insert_offer (level_row p v n k g) (w_db w) = Inr ((w_db w)\<lparr>offers := offers (w_db w) @ [level_row p v n k g]\<rparr>)"
    using assms(4,5) by (simp add: insert_offer_def level_row_def)
  with assms(1) checks show ?thesis
    by (auto simp: set_level_def Let_def prog_simps split: if_splits option.splits)
qed

lemma set_inventory_level_answers:
  assumes run: "set_inventory_level E p v n k g w = (res, w')" and "0 \<le> n" "0 \<le> k"
  shows "if find_product p (w_db w) = None then res = Inl (ProductNotFoundError p)
    else if find_provider v (w_db w) = None then res = Inl (ProviderNotFoundError v)
    else if int4 n \<and> int4 k then (\<exists>r. res = Inr r) \<or> (\<exists>m. res = Inl (InventoryBelowReservedError p v m))
    else res = Inl DataError"
proof (cases "find_product p (w_db w) = None \<or> find_provider v (w_db w) = None")
  case False
  let ?v = "begin_transaction E (begin_transaction E (begin_transaction E w))"
  obtain x u where set: "set_level p v n k g ?v = (x, u)" by fastforce
  have "res = x"
    using run False set by (auto simp: set_inventory_level_def andThen_def require_runs transaction_def split: sum.splits)
  with set_level_answers [OF set assms(2,3)] False show ?thesis by (auto split: if_splits)
qed (use run in \<open>auto simp: set_inventory_level_def andThen_def require_runs\<close>)

lemma level_request_bounds: "parse_level_request c j = Some (n, k, g) \<Longrightarrow> 0 \<le> n \<and> 0 \<le> k"
  by (auto simp: parse_level_request_def at_least_def bind_eq_Some_conv split: if_splits)



end
