(* ===== verification/Provider_Operations.thy ===== *)
theory Provider_Operations
  imports Creation_Properties
begin

section \<open>Calling a seller again\<close>

text \<open>
  Confirmation and release of an external hold go through one stored operation: its idempotency
  key is the same for every attempt, an attempt sends at most one request, and the stored outcome
  decides whether there is another.
\<close>

subsection \<open>One request, with the operation's key\<close>

definition one_request :: "string \<Rightarrow> http_request list \<Rightarrow> http_request list \<Rightarrow> bool" where
  "one_request key before after \<longleftrightarrow> after = before \<or>
     (\<exists>rq. after = before @ [rq] \<and> rq_method rq = ''POST'' \<and> map_of (rq_headers rq) ''Idempotency-Key'' = Some key)"

lemma one_request_refl [simp]: "one_request key l l"
  by (simp add: one_request_def)

lemma headers_key: "request_headers resolver pid c key = Inr hs \<Longrightarrow> map_of hs ''Idempotency-Key'' = Some key"
proof (cases "\<exists>x. c = Some x \<and> c_auth x \<noteq> Auth_None")
  case True
  assume hs: "request_headers resolver pid c key = Inr hs"
  from True obtain x where "c = Some x" "c_auth x \<noteq> Auth_None" by blast
  with hs show ?thesis by (auto elim!: request_headers_Inr)
next
  case False
  assume "request_headers resolver pid c key = Inr hs"
  with False show ?thesis by (auto simp: request_headers_def Let_def split: option.splits if_splits)
qed

lemma http_call_request:
  "http_call E pid st ''POST'' url key body w = (r, w') \<Longrightarrow> one_request key (w_log w) (w_log w')"
  by (auto simp: http_call_def prog_simps one_request_def dest: headers_key split: sum.splits)

lemma http_confirm_request: "http_confirm E pid st c w = (r, w') \<Longrightarrow> one_request (cc_key c) (w_log w) (w_log w')"
  by (auto simp: http_confirm_def andThen_def ret_def raise_def dest!: http_call_request
      split: prod.splits sum.splits http_reply.splits if_splits)

lemma http_release_request: "http_release E pid st c w = (r, w') \<Longrightarrow> one_request (rc_key c) (w_log w) (w_log w')"
  by (auto simp: http_release_def andThen_def ret_def raise_def dest!: http_call_request
      split: prod.splits sum.splits http_reply.splits if_splits)

text \<open>The breaker runs its operation at most once.\<close>

lemma execute_once:
  assumes "keeps f clock" and put: "\<And>c s. f (put c s) = f s"
    and op: "\<And>s r s'. operation s = (r, s') \<Longrightarrow> R (f s) (f s')" and refl: "\<And>x. R x x"
    and run: "execute cfg circuit_of put clock t u operation w = (r, w')"
  shows "R (f w) (f w')"
proof -
  obtain n w1 where clock: "clock_if (cs_opened (circuit_of w) \<noteq> None) clock w = (n, w1)" by fastforce
  have f1: "f w1 = f w" by (rule keepsD [OF keeps_clock_if [OF assms(1)] clock])
  show ?thesis
  proof (cases n)
    case (Inl e)
    with run clock f1 refl show ?thesis by (simp add: execute_def andThen_def gets_def)
  next
    case (Inr now)
    obtain a c1 where admit: "admit cfg now (circuit_of w) = (a, c1)" by fastforce
    show ?thesis
    proof (cases a)
      case Rejected
      with run clock f1 refl Inr admit show ?thesis by (simp add: execute_def andThen_def gets_def ret_def)
    next
      case (Admitted probe)
      obtain y w2 where call: "operation (put c1 w1) = (y, w2)" by fastforce
      have "f w' = f w2"
        using run clock Inr admit Admitted call put
        by (auto simp: execute_def prog_simps split: prod.splits sum.splits if_splits
            dest: keepsD [OF assms(1)])
      with op [OF call] put f1 show ?thesis by simp
    qed
  qed
qed

lemma breaker_requests:
  "breaker_confirm E pid st c w = (r, w') \<Longrightarrow> one_request (cc_key c) (w_log w) (w_log w')"
  "breaker_release E pid st d w = (s, w') \<Longrightarrow> one_request (rc_key d) (w_log w) (w_log w')"
  unfolding breaker_confirm_def breaker_release_def
  by (erule execute_once [where f = w_log, rotated 4];
      auto intro: keeps_intros http_confirm_request http_release_request)+

lemma open_operation_log: "open_operation E ctx a ty key w = (r, w') \<Longrightarrow> w_log w' = w_log w"
  by (rule keepsD [where m = "open_operation E ctx a ty key"])
    (auto simp: open_operation_def intro!: keeps_intros)


subsection \<open>When there is another attempt\<close>

lemma find_map_operation:
  "(\<And>x. op_key (f x) = op_key x) \<Longrightarrow>
   find_operation k (map_operation key f d) = map_option (\<lambda>x. if op_key x = key then f x else x) (find_operation k d)"
  by (simp add: find_operation_def map_operation_def find_update_where_same)

lemma find_operation_key: "find_operation key d = Some x \<Longrightarrow> op_key x = key"
  unfolding find_operation_def by (drule find_SomeD) simp


text \<open>An operation that has had its three attempts.\<close>

definition spent_operation :: operation_row where
  "spent_operation = \<lparr>op_id = 5, op_allocation = 1002, op_type = Op_Confirm, op_status = Op_Unknown,
     op_key = operation_key 1000 1002 ''confirm'', op_attempts = 3, op_next_attempt = Some 9, op_reference = Some ''h'',
     op_error_code = None, op_error_message = None\<rparr>"



end
