(* ===== verification/Findings.thy ===== *)
theory Findings
  imports Api_Properties Provider_Operations
begin

section \<open>What the code also does\<close>

text \<open>
  Behaviour that the documents of the repository do not promise or contradict, each shown on a concrete
  run. The first two are why the runs of \<open>commits True\<close> confirm only reservations that are
  pending, confirming or confirmed.
\<close>

subsection \<open>A reservation that failed can be confirmed\<close>

text \<open>
  A reservation nobody could hold is stored as failed, without allocations. Confirming it finds nothing
  that is not confirmed, so it becomes a confirmed reservation, with an order for stock that no seller
  has offered.
\<close>

definition failed_row :: reservation_row where
  "failed_row = set_status M_Failed (set_failure reserved_row)"

definition failed_database :: database where
  "failed_database = open_database\<lparr>reservations := [failed_row], items := [reserved_item]\<rparr>"

definition ordered_database :: database where
  "ordered_database = open_database\<lparr>reservations := [set_status M_Confirmed failed_row], items := [reserved_item],
     orders := [confirmed_order],
     order_items := [\<lparr>oi_id = 1001, oi_order = 1000, oi_product = 1000, oi_quantity = 2\<rparr>]\<rparr>"

lemma failed_reached: "commits strict offline empty_database failed_database"
proof -
  obtain w' where "create offline (\<lambda>_. open_database) 600 7 two_pieces ''k'' (world_of open_database) =
      (Inl (InsufficientInventoryError two_pieces), w')" and db: "w_db w' = failed_database"
    using failing_step [of "\<lambda>_. open_database"] by (auto simp: failed_database_def failed_row_def)
  note commits.creating [OF _ this(1), of strict]
  then have "commits strict offline open_database failed_database" using db by (simp add: commits.idle)
  with opened show ?thesis by (blast intro: commits.in_turn)
qed

lemma failed_confirmed:
  "\<exists>x w'. confirm offline 1000 7 (world_of failed_database) = (Inr (Some x), w') \<and> res_status x = Confirmed \<and>
     w_db w' = ordered_database"
proof -
  let ?w = "begin_transaction offline (world_of failed_database)"
  have w: "w_db ?w = failed_database" "w_now ?w = 0" "w_ids ?w = 0"
    by (simp_all add: begin_transaction_def world_of_def offline_def sample_environment_def)
  have row: "r_id failed_row = 1000" "r_user failed_row = 7" "r_status failed_row = M_Failed" "r_updated failed_row = 0"
    by (simp_all add: failed_row_def set_status_def set_failure_def reserved_row_def)
  let ?d1 = "failed_database\<lparr>reservations := [set_status M_Confirmed failed_row]\<rparr>"
  let ?w1 = "?w\<lparr>w_db := ?d1\<rparr>"
  have own: "owned_reservation 1000 7 failed_database = Some failed_row"
    by (simp add: owned_reservation_def failed_database_def row)
  have none: "allocations_of 1000 failed_database = []"
    by (simp add: allocations_of_def failed_database_def empty_database_def map_filter_simps)
  have upd: "update_reservation 1000 (set_status M_Confirmed) ?w = (Inr (), ?w1)"
    using w row by (simp add: update_reservation_run map_reservation_def failed_database_def touch_def set_status_def)
  have uuids: "e_uuid offline 0 = 1000" "e_uuid offline (Suc 0) = 1001"
    by (simp_all add: offline_def sample_environment_def)
  have item: "ri_reservation reserved_item = 1000" "ri_product reserved_item = 1000" "ri_quantity reserved_item = 2"
    "ri_provider reserved_item = 1000"
    by (simp_all add: reserved_item_def)
  have ord: "ensure_order offline failed_row ?w1 = (Inr (), ?w1\<lparr>w_ids := 2, w_db := ordered_database\<rparr>)"
    using w by (simp add: ensure_order_def prog_simps row uuids insert_line_def insert_order_def insert_order_item_def
        failed_database_def ordered_database_def empty_database_def find_simps items_of_def item set_status_def
        confirmed_order_def)
  let ?w2 = "?w1\<lparr>w_ids := 2, w_db := ordered_database\<rparr>"
  have "to_domain (set_status M_Confirmed failed_row) ordered_database = Inr (sample_domain Confirmed)"
    by (simp add: to_domain_def items_of_def ordered_database_def item item_of_row_def mk_item_def optional_status_def
        mk_reservation_def Let_def sample_domain_def two_pieces_def)
      (simp add: set_status_def failed_row_def set_failure_def reserved_row_def two_pieces_def optional_status_def
        mk_reservation_def)
  moreover have "find_reservation 1000 ordered_database = Some (set_status M_Confirmed failed_row)"
    by (simp add: find_reservation_def ordered_database_def set_status_def row)
  ultimately have dom: "reload_domain 1000 ?w2 = (Inr (Some (sample_domain Confirmed)), ?w2)"
    by (simp add: reload_domain_def row_to_domain_def prog_simps)
  have "confirm offline 1000 7 (world_of failed_database) = (Inr (Some (sample_domain Confirmed)), ?w2)"
    using w upd ord dom
    by (simp add: confirm_def reservation_transaction_cases transaction_def repo_confirm_def confirm_reservation_def
        prog_simps own row none confirm_result_def)
  then show ?thesis by (simp add: sample_domain_def)
qed

theorem failed_reservation_becomes_order:
  "\<exists>d. commits False offline empty_database d \<and> offers d = [] \<and> allocations d = [] \<and>
     orders d = [confirmed_order] \<and> map oi_quantity (order_items d) = [2]"
proof -
  obtain x w' where "confirm offline 1000 7 (world_of failed_database) = (Inr (Some x), w')" "w_db w' = ordered_database"
    using failed_confirmed by blast
  then have "commits False offline failed_database ordered_database"
    using commits_from [OF commits.confirming, of False] by blast
  with failed_reached have "commits False offline empty_database ordered_database" by (blast intro: commits.in_turn)
  then show ?thesis by (intro exI [of _ ordered_database]) (simp add: ordered_database_def empty_database_def)
qed

subsection \<open>Confirming an expired reservation takes the stock of another\<close>

text \<open>
  The first reservation has expired and its stock was released; a second customer holds the same two
  pieces. Confirming the first consumes them: the second is still held on paper, with nothing reserved
  behind it.
\<close>

definition second_row :: reservation_row where
  "second_row = reserved_row\<lparr>r_id := 2000, r_user := 8\<rparr>"

definition second_item :: item_row where
  "second_item = reserved_item\<lparr>ri_id := 2001, ri_reservation := 2000\<rparr>"

definition second_allocation :: allocation_row where
  "second_allocation = reserved_allocation\<lparr>al_id := 2002, al_item := 2001\<rparr>"

definition contested :: "status_model \<Rightarrow> allocation_status \<Rightarrow> offer_row \<Rightarrow> database" where
  "contested st a level = stocked_database\<lparr>offers := [level],
     reservations := [set_status st reserved_row, second_row], items := [reserved_item, second_item],
     allocations := [reserved_allocation\<lparr>al_status := a\<rparr>, second_allocation]\<rparr>"

abbreviation "expired_first \<equiv> contested M_Expired A_Released held_level"

definition sold_twice :: database where
  "sold_twice = (contested M_Confirmed A_Confirmed (confirm_stock 2 held_level))\<lparr>orders := [confirmed_order],
     order_items := [\<lparr>oi_id = 1001, oi_order = 1000, oi_product = 1000, oi_quantity = 2\<rparr>]\<rparr>"

lemmas contested_rows = second_row_def second_item_def second_allocation_def reserved_row_def reserved_item_def
  reserved_allocation_def set_status_def

lemma contested_find:
  "find_reservation 1000 (contested st a level) = Some (set_status st reserved_row)"
  "find_item 1001 (contested st a level) = Some reserved_item"
  "find_item 2001 (contested st a level) = Some second_item"
  "find_provider 1000 (contested st a level) = Some seller"
  "find_product 1000 (contested st a level) = Some \<lparr>p_id = 1000, p_sku = ''A'', p_name = ''B'', p_active = True\<rparr>"
  "items_of 1000 (contested st a level) = [reserved_item]" "items_of 2000 (contested st a level) = [second_item]"
  "find_order x (contested st a level) = None" "find_credential v (contested st a level) = None"
  "owned_reservation 1000 7 (contested st a level) = Some (set_status st reserved_row)"
  "orders (contested st a level) = []" "order_items (contested st a level) = []"
  by (simp_all add: contested_def contested_rows find_simps stocked_database_def empty_database_def seller_def
      items_of_def owned_reservation_def)

lemma contested_joined:
  "allocations_of 1000 (contested st a level) = [reserved_join\<lparr>aj_allocation := reserved_allocation\<lparr>al_status := a\<rparr>\<rparr>]"
proof -
  let ?d = "contested st a level"
  have "join_allocation 1000 ?d (reserved_allocation\<lparr>al_status := a\<rparr>) =
      Some (reserved_join\<lparr>aj_allocation := reserved_allocation\<lparr>al_status := a\<rparr>\<rparr>)"
    unfolding join_allocation_def
    by (simp add: contested_find reserved_allocation_def reserved_join_def)
      (simp add: reserved_item_def contested_find seller_def)
  moreover have "join_allocation 1000 ?d second_allocation = None"
    unfolding join_allocation_def
    by (simp add: second_allocation_def contested_find split: option.split) (simp add: second_item_def)
  moreover have "allocations ?d = [reserved_allocation\<lparr>al_status := a\<rparr>, second_allocation]" by (simp add: contested_def)
  ultimately show ?thesis by (simp add: allocations_of_def map_filter_simps)
qed

lemma contested_confirmed:
  "\<exists>x w'. confirm offline 1000 7 (world_of expired_first) = (Inr (Some x), w') \<and> res_status x = Confirmed \<and>
     w_db w' = sold_twice"
proof -
  let ?w = "begin_transaction offline (world_of expired_first)" and ?level = "confirm_stock 2 held_level"
  have w: "w_db ?w = expired_first" "w_now ?w = 0" "w_ids ?w = 0"
    by (simp_all add: begin_transaction_def world_of_def offline_def sample_environment_def)
  let ?w1 = "?w\<lparr>w_db := contested M_Expired A_Released ?level\<rparr>"
  let ?w2 = "?w\<lparr>w_db := contested M_Expired A_Confirmed ?level\<rparr>"
  let ?w3 = "?w\<lparr>w_db := contested M_Confirmed A_Confirmed ?level\<rparr>"
  let ?j = "reserved_join\<lparr>aj_allocation := reserved_allocation\<lparr>al_status := A_Released\<rparr>\<rparr>"
  have offer: "find_offer 1000 1000 (w_db ?w) = Some held_level"
    unfolding w by (simp add: contested_def find_offer_def hold_stock_def level_row_def)
  have ok: "offer_ok ?level" "o_reserved held_level = 2" "o_on_hand held_level = 5"
    by (simp_all add: offer_ok_iff confirm_stock_def hold_stock_def level_row_def)
  have "confirm_hold 1000 1000 2 ?w = (Inr (Some (snapshot_of ?level)), ?w1)"
    using offer ok unfolding confirm_hold_def w(1)
    by (simp add: update_offer_run w map_offer_def contested_def offer_at_def stocked_database_def)
      (simp add: hold_stock_def level_row_def)
  then have "confirm_allocation offline (first_attempt 1000) ?j ?w = (Inr C_Confirmed, ?w1)"
    by (simp add: confirm_allocation_def reserved_join_def reserved_allocation_def seller_def prog_simps)
  moreover have "set_allocation_status 1002 A_Confirmed ?w1 = (Inr (), ?w2)"
    by (simp add: set_allocation_status_def prog_simps map_allocation_def contested_def reserved_allocation_def
        second_allocation_def)
  moreover have "al_id (aj_allocation ?j) = 1002" by (simp add: reserved_allocation_def)
  ultimately have step: "confirm_step offline (first_attempt 1000) ?j ?w = (Inr C_Confirmed, ?w2)"
    by (simp add: confirm_step_def prog_simps)
  have upd: "update_reservation 1000 (set_status M_Confirmed) ?w2 = (Inr (), ?w3)"
    using w by (simp add: update_reservation_run map_reservation_def contested_def touch_def contested_rows)
  have uuids: "e_uuid offline 0 = 1000" "e_uuid offline (Suc 0) = 1001"
    by (simp_all add: offline_def sample_environment_def)
  have row: "r_id (set_status st reserved_row) = 1000" "r_user (set_status st reserved_row) = 7"
    "r_status (set_status st reserved_row) = st" for st
    by (simp_all add: set_status_def reserved_row_def)
  have item: "ri_reservation reserved_item = 1000" "ri_product reserved_item = 1000" "ri_quantity reserved_item = 2"
    "ri_provider reserved_item = 1000"
    by (simp_all add: reserved_item_def)
  let ?w4 = "?w3\<lparr>w_ids := 2, w_db := sold_twice\<rparr>"
  let ?d1 = "(contested M_Confirmed A_Confirmed ?level)\<lparr>orders := [confirmed_order]\<rparr>"
  have "insert_order confirmed_order (contested M_Confirmed A_Confirmed ?level) = Inr ?d1"
    by (simp add: insert_order_def contested_find confirmed_order_def)
  moreover have "insert_order_item \<lparr>oi_id = 1001, oi_order = 1000, oi_product = 1000, oi_quantity = 2\<rparr> ?d1 = Inr sold_twice"
    using contested_find(5) [of M_Confirmed A_Confirmed ?level]
    by (simp add: insert_order_item_def contested_find sold_twice_def confirmed_order_def find_product_def)
  moreover have "items_of 1000 ?d1 = [reserved_item]"
    using contested_find(6) [of M_Confirmed A_Confirmed ?level] by (simp add: items_of_def)
  moreover have "\<lparr>od_id = 1000, od_reservation = 1000, od_user = 7\<rparr> = confirmed_order" by (simp add: confirmed_order_def)
  ultimately have ord: "ensure_order offline (set_status M_Expired reserved_row) ?w3 = (Inr (), ?w4)"
    using w by (simp add: ensure_order_def prog_simps row uuids insert_line_def item contested_find)
  have "find_reservation 1000 sold_twice = Some (set_status M_Confirmed reserved_row)" "items_of 1000 sold_twice = [reserved_item]"
    using contested_find(1,6) [of M_Confirmed A_Confirmed ?level]
    by (simp_all add: sold_twice_def find_reservation_def items_of_def)
  then have dom: "reload_domain 1000 ?w4 = (Inr (Some (sample_domain Confirmed)), ?w4)"
    by (intro row_domain [where st = M_Confirmed]) (simp_all add: set_status_def)
  have "confirm offline 1000 7 (world_of expired_first) = (Inr (Some (sample_domain Confirmed)), ?w4)"
    using w step upd ord dom
    by (simp add: confirm_def reservation_transaction_cases transaction_def repo_confirm_def confirm_reservation_def
        prog_simps contested_find row contested_joined confirm_result_def)
  then show ?thesis by (simp add: sample_domain_def)
qed

theorem expired_reservation_takes_held_stock:
  "\<exists>x w'. confirm offline 1000 7 (world_of expired_first) = (Inr (Some x), w') \<and> res_status x = Confirmed \<and>
     reserved_at expired_first 1000 1000 = 2 \<and> held_at expired_first 1000 1000 = 2 \<and>
     reserved_at (w_db w') 1000 1000 = 0 \<and> held_at (w_db w') 1000 1000 = 2 \<and>
     al_status second_allocation = A_Held \<and> second_allocation \<in> set (allocations (w_db w'))"
proof -
  have "reserved_at (contested st a level) 1000 1000 = o_reserved level"
    if "o_product level = 1000" "o_provider level = 1000" for st a level
    using that by (simp add: reserved_at_def find_offer_def contested_def)
  then have "reserved_at expired_first 1000 1000 = 2" "reserved_at sold_twice 1000 1000 = 0"
    by (simp_all add: reserved_at_def find_offer_def sold_twice_def contested_def hold_stock_def confirm_stock_def level_row_def)
  moreover have "held_at (contested st a level) 1000 1000 = 2" if "a \<noteq> A_Held" for st a level
    using that
    by (simp add: held_at_def held_quantity_def holds_at_def item_product_def contested_def contested_rows)
  then have "held_at expired_first 1000 1000 = 2" "held_at sold_twice 1000 1000 = 2"
    by (simp_all add: sold_twice_def held_at_def)
  moreover have "second_allocation \<in> set (allocations sold_twice)" "al_status second_allocation = A_Held"
    by (simp_all add: sold_twice_def contested_def second_allocation_def reserved_allocation_def)
  ultimately show ?thesis using contested_confirmed by fastforce
qed

subsection \<open>In a routing group the priority overrides the customer's choice\<close>

text \<open>
  Both sellers have the product and enough of it; the customer chooses the second, and the hold is made
  at the first, whose priority is lower.
\<close>

definition second_seller :: provider_row where
  "second_seller = seller\<lparr>v_id := 1001, v_name := ''other''\<rparr>"

definition grouped_database :: database where
  "grouped_database = stocked_database\<lparr>providers := [seller, second_seller],
     offers := [level_row 1000 1000 5 1 (Some 9), level_row 1000 1001 5 2 (Some 9)]\<rparr>"

theorem group_overrides_selection:
  "\<exists>w'. try_hold_selected offline 1000 1001 2 ''k'' (world_of grouped_database) =
     (Inr (Some \<lparr>ph_provider = 1000, ph_reference = None\<rparr>), w') \<and> o_reserved (hd (offers (w_db w'))) = 2"
proof -
  let ?w = "world_of grouped_database"
  have candidates: "routing_candidates 1000 1001 grouped_database = [(seller, None), (second_seller, None)]"
    by (simp add: routing_candidates_def find_simps in_selected_group_def level_row_def seller_def second_seller_def
        Let_def grouped_database_def stocked_database_def empty_database_def map_filter_simps)
  have conf: "configure offline [(seller, None), (second_seller, None)] ?w =
      (Inr [(seller, internal_port 1000), (second_seller, internal_port 1001)], ?w)"
    by (simp add: configure_def hold_provider_def prog_simps seller_def second_seller_def map_filter_simps)
  have checks: "checks_availability [(seller, internal_port 1000), (second_seller, internal_port 1001)] v = False" for v
    by (simp add: checks_availability_def seller_def second_seller_def)
  let ?held = "hold_stock 2 (level_row 1000 1000 5 1 (Some 9))"
  have "try_hold 1000 1000 2 ?w = (Inr (Some (snapshot_of ?held)),
      ?w\<lparr>w_db := grouped_database\<lparr>offers := [?held, level_row 1000 1001 5 2 (Some 9)]\<rparr>\<rparr>)"
    by (simp add: try_hold_def update_offer_run map_offer_def offer_at_def level_row_def find_offer_def
        grouped_database_def offer_ok_iff hold_stock_def)
  with candidates conf checks show ?thesis
    by (simp add: try_hold_selected_def andThen_def db_query_def check_candidate_def internal_port_def ret_def
        hold_held_def) (simp add: hold_stock_def level_row_def)
qed

subsection \<open>Requests that pass validation and end in a 500\<close>

text \<open>
  The same product twice, from any sellers: the second item violates the table's unique key, which no
  layer above translates. A provider's name of more than a hundred characters does not fit its column.
\<close>

definition twice_requested :: "item list" where
  "twice_requested = two_pieces @ [\<lparr>it_product = 1000, it_provider = 1001, it_quantity = 1\<rparr>]"

theorem repeated_product_is_an_error:
  "fst (create offline (\<lambda>d. d) 600 7 twice_requested ''k'' (world_of stocked_database)) =
     Inl (IntegrityError ''uq_reservation_items_reservation_id_product_id'') \<and>
   hr_status (error_response (IntegrityError ''uq_reservation_items_reservation_id_product_id'')) = 500"
proof
  let ?w = "begin_transaction offline (world_of stocked_database)"
  obtain fp where fp: "reservation_request_fingerprint twice_requested = fp" by simp
  let ?x = "\<lparr>res_id = 1000, res_user = 7, res_items = twice_requested, res_key = ''k'', res_fingerprint = fp,
      res_created = 1, res_expires = 601, res_status = Pending, res_target = None\<rparr>"
  let ?row = "reserved_row\<lparr>r_fingerprint := fp\<rparr>"
  have now: "w_now ?w = 0" "w_ticks ?w = 1" "w_ids (world_of stocked_database) = 0"
    by (simp_all add: begin_transaction_def world_of_def offline_def sample_environment_def)
  have env: "e_uuid offline 0 = 1000" "e_uuid offline (Suc 0) = 1001" "e_uuid offline (Suc (Suc 0)) = 1002" "e_utc offline (Suc 0) = 1"
    by (simp_all add: offline_def sample_environment_def)
  have none: "get_by_idempotency_key 7 ''k'' ?w = (Inr None, ?w)"
    by (simp add: get_by_idempotency_key_def row_to_domain_def prog_simps stocked_database_def empty_database_def)
  have len: "length fp = 64"
    unfolding fp [symmetric] by (rule length_fingerprint)
  have start: "start \<lparr>dr_id = 1000, dr_user = 7, dr_items = twice_requested, dr_key = ''k'', dr_fingerprint = fp,
      dr_now = 1, dr_ttl = 600\<rparr> = Inr ?x"
    by (simp add: start_Inr twice_requested_def len)
  have model: "to_model 0 ?x = Inr ?row"
    by (simp add: to_model_def optional_status_def reserved_row_def)
  let ?d = "stocked_database\<lparr>reservations := [?row]\<rparr>"
  have row: "insert_reservation ?row stocked_database = Inr ?d"
    by (simp add: len insert_reservation_def reserved_row_def stocked_database_def empty_database_def find_simps)
  have new: "new_item 1001 1000 \<lparr>it_product = 1000, it_provider = 1000, it_quantity = 2\<rparr> = reserved_item"
    by (simp add: new_item_def reserved_item_def)
  have item: "insert_item reserved_item ?d = Inr (?d\<lparr>items := [reserved_item]\<rparr>)"
    by (simp add: insert_item_def int4_def reserved_item_def reserved_row_def seller_def stocked_database_def
        empty_database_def find_simps)
  have again: "insert_item (new_item 1002 1000 \<lparr>it_product = 1000, it_provider = 1001, it_quantity = 1\<rparr>)
      (?d\<lparr>items := [reserved_item]\<rparr>) = Inl (IntegrityError ''uq_reservation_items_reservation_id_product_id'')"
    by (simp add: insert_item_def int4_def reserved_item_def new_item_def find_item_def)
  let ?e = "IntegrityError ''uq_reservation_items_reservation_id_product_id''"
  define d1 where "d1 = ?d\<lparr>items := [reserved_item]\<rparr>"
  have items: "fst (insert_items offline 1000 twice_requested v) = Inl ?e" if "w_ids v = 1" "w_db v = ?d" for v
    using that by (simp add: insert_items_def twice_requested_def two_pieces_def prog_simps env new item [folded d1_def] again [folded d1_def])
  have add: "fst (add_with_hold offline ?x v) = Inl ?e" if "w_ids v = 1" "w_db v = stocked_database" "w_now v = 0" for v
    using that items [of "v\<lparr>w_db := ?d\<rparr>"] by (auto simp: add_with_hold_def prog_simps model row split: prod.split sum.split)
  let ?v = "?w\<lparr>w_ids := Suc 0, w_ticks := Suc (Suc 0), w_db := stocked_database, w_saved := stocked_database\<rparr>"
  have "fst (create_body offline (\<lambda>d. d) 600 7 twice_requested ''k'' ?w) = Inl ?e"
    using add [of ?v] now
    by (auto simp: create_body_def Let_def prog_simps none env start fp split: prod.split sum.split)
  then obtain u where "create_body offline (\<lambda>d. d) 600 7 twice_requested ''k'' ?w = (Inl ?e, u)"
    by (metis prod.collapse)
  then show "fst (create offline (\<lambda>d. d) 600 7 twice_requested ''k'' (world_of stocked_database)) = Inl ?e"
    by (simp add: create_def reservation_transaction_cases transaction_def prog_simps idempotency_constraint_def)
qed (simp add: error_response_def exception_handler_def)

definition long_name :: register_command where
  "long_name = register_own\<lparr>rg_name := replicate 101 CHR ''x''\<rparr>"

theorem long_provider_name_is_an_error:
  "fst (register_provider offline (\<lambda>_. True) long_name (world_of empty_database)) = Inl DataError \<and>
   hr_status (error_response DataError) = 500"
proof -
  have "py_strip (replicate 101 CHR ''x'') \<noteq> []"
    by (simp add: py_strip_Nil_iff) (simp add: py_space_def code_def)
  then have "validate_provider (\<lambda>_. True) (registered_row pid long_name) = Inr ()" for pid
    by (simp add: validate_provider_def registered_row_def long_name_def register_own_def)
  moreover have "insert_provider (registered_row pid long_name) d = Inl DataError" for pid d
    by (simp add: insert_provider_def provider_columns_fit_def registered_row_def long_name_def)
  ultimately show ?thesis
    by (simp add: register_provider_def add_provider_def transaction_def prog_simps name_conflict_def
        violates_constraint_def error_statuses)
qed

subsection \<open>Credentials that are accepted and never work\<close>

text \<open>
  A header name of \<open>null\<close> passes \<open>set_provider_credentials\<close>, whose test treats it as absent;
  the adapter does not, and fails every call before it is sent.
\<close>

definition null_header :: credentials_command where
  "null_header = \<lparr>cr_auth = Auth_Bearer, cr_secret_ref = Some ''env:S'', cr_config = [(''header_name'', JNull)]\<rparr>"

theorem null_header_is_accepted_and_fails:
  "validate_credentials External null_header = Inr () \<and>
   request_headers (Some (\<lambda>_. Inr ''secret'')) pid (Some (stored_credential pid null_header)) key =
     Inl (ProviderCallFailedError pid)"
  by (simp add: validate_credentials_def null_header_def normalized_key_def replace_char_def py_lower_def lower_char_def
      sensitive_keys_def text_simps request_headers_def stored_credential_def jsonb_members_def dict_get_def)

subsection \<open>A refused confirmation nobody takes up\<close>

text \<open>
  When a seller is unavailable during a confirmation, the reservation stays confirming, but its operation
  is stored as failed, not as unknown: the reconciliation worker, which only looks for unknown
  operations, never takes it up, and cancelling it is refused with the advice to reconcile.
\<close>

lemma failed_not_reconcilable:
  "list_all (\<lambda>x. op_status x \<noteq> Op_Unknown) (operations d) \<Longrightarrow> \<not> reconcilable now n d r"
  by (auto simp: reconcilable_def reconcilable_operation_def list_ex_iff list_all_iff)

theorem unavailable_confirmation_is_not_reconciled:
  assumes "owned_reservation rid user (w_db w) = Some r" and "r_status r = M_Confirming"
    and "operations (w_db w) = [close_confirm ctx attempts C_Temporarily_Unavailable x]"
  shows "\<not> reconcilable now n (w_db w) r \<and> fst (cancel E rid user w) = Inl (ReservationReconciliationRequiredError rid)"
  using assms failed_not_reconcilable [of "w_db w"]
  by (simp add: close_confirm_def fail_operation_def cancel_def repo_cancel_def reservation_transaction_cases
      transaction_def prog_simps)

end
