(* ===== verification/Workers.thy ===== *)
theory Workers
  imports Shop_System "HOL-Library.AList"
begin

section \<open>The workers' run loops and their telemetry\<close>

text \<open>
  \<open>ReservationExpirationWorker.run\<close> and \<open>ReservationReconciliationWorker.run\<close> of
  \<open>service/reservation.py\<close>: the same loop over two \<open>run_once\<close>, so one definition
  with the batch as a field of the worker; their configurations; and the observers of
  \<open>repository/telemetry.py\<close>, as the list of what they tell the metrics library.
  The loop may run for ever: it is a partial function, and \<open>None\<close> is a run that never ends.
\<close>

subsection \<open>Configurations\<close>

record expiration_config =
  ec_batch_size :: int
  ec_poll_interval :: duration

definition mk_expiration_config :: "expiration_config \<Rightarrow> exn + expiration_config" where
  "mk_expiration_config c =
     (if ec_batch_size c \<le> 0 then Inl PyValueError
      else if ec_poll_interval c \<le> 0 then Inl PyValueError
      else Inr c)"

record reconciliation_config =
  rc_batch_size :: int
  rc_max_attempts :: int
  rc_poll_interval :: duration
  rc_retry_base_delay :: duration

definition mk_reconciliation_config :: "reconciliation_config \<Rightarrow> exn + reconciliation_config" where
  "mk_reconciliation_config c =
     (if rc_batch_size c \<le> 0 then Inl PyValueError
      else if rc_max_attempts c \<le> 0 then Inl PyValueError
      else if rc_poll_interval c \<le> 0 then Inl PyValueError
      else if rc_retry_base_delay c \<le> 0 then Inl PyValueError
      else Inr c)"

subsection \<open>One worker\<close>

datatype batch_observation =
    Batch_Succeeded "reservation list" duration
  | Batch_Failed exn duration

record run_summary =
  batches_processed :: nat
  reservations_processed :: nat
  batches_failed :: nat

definition no_batches :: run_summary where
  "no_batches = \<lparr>batches_processed = 0, reservations_processed = 0, batches_failed = 0\<rparr>"

text \<open>
  A worker is its \<open>run_once\<close>, its batch size and its observer, a function of the observer's
  state, the observation and the wall clock.
\<close>

record 'o worker =
  wk_once :: "reservation list io"
  wk_batch_size :: int
  wk_record :: "batch_observation \<Rightarrow> instant \<Rightarrow> 'o \<Rightarrow> 'o"

definition null_observer :: "batch_observation \<Rightarrow> instant \<Rightarrow> 'o \<Rightarrow> 'o" where
  "null_observer observation now ob = ob"

definition expiration_worker ::
  "environment \<Rightarrow> expiration_config \<Rightarrow> (batch_observation \<Rightarrow> instant \<Rightarrow> 'o \<Rightarrow> 'o) \<Rightarrow> 'o worker" where
  "expiration_worker E c observer =
     \<lparr>wk_once = expire_once E (ec_batch_size c), wk_batch_size = ec_batch_size c, wk_record = observer\<rparr>"

definition reconciliation_worker ::
  "environment \<Rightarrow> reconciliation_config \<Rightarrow> (batch_observation \<Rightarrow> instant \<Rightarrow> 'o \<Rightarrow> 'o) \<Rightarrow> 'o worker" where
  "reconciliation_worker E c observer =
     \<lparr>wk_once = reconcile_once E (rc_batch_size c) (rc_max_attempts c) (rc_retry_base_delay c),
      wk_batch_size = rc_batch_size c, wk_record = observer\<rparr>"

subsection \<open>The loop\<close>

text \<open>
  What the loop cannot decide: whether the stop event is set when it tests it for the \<open>n\<close>-th
  time, and what the other processes commit before its \<open>n\<close>-th batch and while it waits after
  it. The wait ends at the stop event or at the poll interval; either way the loop goes on to test
  the event.
\<close>

record surroundings =
  su_stop :: "nat \<Rightarrow> bool"
  su_before :: "nat \<Rightarrow> database \<Rightarrow> database"
  su_waiting :: "nat \<Rightarrow> database \<Rightarrow> database"

definition others_commit :: "(database \<Rightarrow> database) \<Rightarrow> world \<Rightarrow> world" where
  "others_commit f w = w\<lparr>w_db := f (w_db w)\<rparr>"

definition tick :: "world \<Rightarrow> world" where
  "tick w = w\<lparr>w_ticks := w_ticks w + 1\<rparr>"

text \<open>The body of the loop: one batch, its observation, and the wait unless the batch was full.\<close>

definition run_batch :: "environment \<Rightarrow> 'o worker \<Rightarrow> world \<Rightarrow> (exn + reservation list) \<times> duration \<times> world" where
  "run_batch E k w =
     (let started_at = e_monotonic E (w_ticks w);
          (result, w1) = wk_once k (tick w);
          finished_at = e_monotonic E (w_ticks w1)
      in (result, max 0 (finished_at - started_at), tick w1))"

definition observation_of :: "exn + reservation list \<Rightarrow> duration \<Rightarrow> batch_observation" where
  "observation_of result seconds =
     (case result of Inl e \<Rightarrow> Batch_Failed e seconds | Inr rs \<Rightarrow> Batch_Succeeded rs seconds)"

definition count_batch :: "exn + reservation list \<Rightarrow> run_summary \<Rightarrow> run_summary" where
  "count_batch result s = (case result of
     Inl e \<Rightarrow> s\<lparr>batches_failed := batches_failed s + 1\<rparr>
   | Inr rs \<Rightarrow> s\<lparr>batches_processed := batches_processed s + 1,
       reservations_processed := reservations_processed s + length rs\<rparr>)"

definition must_wait :: "'o worker \<Rightarrow> exn + reservation list \<Rightarrow> bool" where
  "must_wait k result = (case result of Inl e \<Rightarrow> True | Inr rs \<Rightarrow> int (length rs) \<noteq> wk_batch_size k)"

definition run_iteration :: "environment \<Rightarrow> 'o worker \<Rightarrow> surroundings \<Rightarrow> nat \<Rightarrow>
    run_summary \<times> 'o \<times> world \<Rightarrow> run_summary \<times> 'o \<times> world" where
  "run_iteration E k out n = (\<lambda>(s, ob, w).
     let (result, seconds, w1) = run_batch E k (others_commit (su_before out n) w);
         ob' = wk_record k (observation_of result seconds) (e_utc E (w_ticks w1)) ob;
         w2 = tick w1
     in (count_batch result s, ob', if must_wait k result then others_commit (su_waiting out n) w2 else w2))"

partial_function (option) run_loop :: "environment \<Rightarrow> 'o worker \<Rightarrow> surroundings \<Rightarrow> nat \<Rightarrow>
    run_summary \<times> 'o \<times> world \<Rightarrow> (run_summary \<times> 'o \<times> world) option" where
  "run_loop E k out n st =
     (if su_stop out n then Some st else run_loop E k out (Suc n) (run_iteration E k out n st))"

definition run_worker :: "environment \<Rightarrow> 'o worker \<Rightarrow> surroundings \<Rightarrow> 'o \<Rightarrow> world \<Rightarrow>
    (run_summary \<times> 'o \<times> world) option" where
  "run_worker E k out ob w = run_loop E k out 0 (no_batches, ob, w)"

text \<open>The two \<open>run\<close> methods.\<close>

definition expiration_run :: "environment \<Rightarrow> expiration_config \<Rightarrow>
    (batch_observation \<Rightarrow> instant \<Rightarrow> 'o \<Rightarrow> 'o) \<Rightarrow> surroundings \<Rightarrow> 'o \<Rightarrow> world \<Rightarrow> (run_summary \<times> 'o \<times> world) option" where
  "expiration_run E c observer out ob w = run_worker E (expiration_worker E c observer) out ob w"

definition reconciliation_run :: "environment \<Rightarrow> reconciliation_config \<Rightarrow>
    (batch_observation \<Rightarrow> instant \<Rightarrow> 'o \<Rightarrow> 'o) \<Rightarrow> surroundings \<Rightarrow> 'o \<Rightarrow> world \<Rightarrow> (run_summary \<times> 'o \<times> world) option" where
  "reconciliation_run E c observer out ob w = run_worker E (reconciliation_worker E c observer) out ob w"

subsection \<open>Telemetry\<close>

text \<open>
  What the Prometheus observers do: calls on labelled counters, gauges and histograms, which are
  the metrics library's, and a log line with the fields the code passes.
\<close>

type_synonym labels = "(string \<times> string) list"

datatype telemetry =
    Inc string labels
  | Dec string labels
  | Observe string labels duration
  | Set_Gauge string instant
  | Log_Completed string duration nat "(string \<times> int) list"
  | Log_Failed string duration exn

definition metric :: "string \<Rightarrow> string \<Rightarrow> string" where
  "metric subject suffix = ''inventory_reservation_'' @ subject @ suffix"

text \<open>\<open>status_counts[status] = status_counts.get(status, 0) + 1\<close>\<close>

definition count_status :: "reservation \<Rightarrow> (string \<times> int) list \<Rightarrow> (string \<times> int) list" where
  "count_status r counts = (let status = status_value (res_status r) in
     AList.update status ((case map_of counts status of None \<Rightarrow> 0 | Some n \<Rightarrow> n) + 1) counts)"

definition status_counts :: "reservation list \<Rightarrow> (string \<times> int) list" where
  "status_counts rs = fold count_status rs []"

definition record_success :: "string \<Rightarrow> reservation list \<Rightarrow> duration \<Rightarrow> instant \<Rightarrow> telemetry list" where
  "record_success subject rs seconds now =
     [Inc (metric subject ''_batches_total'') [(''outcome'', ''succeeded'')],
      Observe (metric subject ''_batch_duration_seconds'') [(''outcome'', ''succeeded'')] seconds,
      Set_Gauge (metric subject ''_last_success_unixtime'') now] @
     map (\<lambda>r. Inc (metric subject ''_reservations_total'') [(''status'', status_value (res_status r))]) rs @
     [Log_Completed (subject @ ''_batch_completed'') seconds (length rs) (status_counts rs)]"

definition record_failure :: "string \<Rightarrow> exn \<Rightarrow> duration \<Rightarrow> telemetry list" where
  "record_failure subject e seconds =
     [Inc (metric subject ''_batches_total'') [(''outcome'', ''failed'')],
      Observe (metric subject ''_batch_duration_seconds'') [(''outcome'', ''failed'')] seconds,
      Log_Failed (subject @ ''_batch_failed'') seconds e]"

text \<open>\<open>Prometheus...Observer.record\<close>; \<open>subject\<close> is \<open>expiration\<close> or \<open>reconciliation\<close>.\<close>

definition prometheus_observer :: "string \<Rightarrow> batch_observation \<Rightarrow> instant \<Rightarrow> telemetry list \<Rightarrow> telemetry list" where
  "prometheus_observer subject observation now events = events @ (case observation of
     Batch_Succeeded rs seconds \<Rightarrow> record_success subject rs seconds now
   | Batch_Failed e seconds \<Rightarrow> record_failure subject e seconds)"

definition expiration_observer :: "batch_observation \<Rightarrow> instant \<Rightarrow> telemetry list \<Rightarrow> telemetry list" where
  "expiration_observer = prometheus_observer ''expiration''"

definition reconciliation_observer :: "batch_observation \<Rightarrow> instant \<Rightarrow> telemetry list \<Rightarrow> telemetry list" where
  "reconciliation_observer = prometheus_observer ''reconciliation''"

definition counted :: "string \<Rightarrow> labels \<Rightarrow> telemetry list \<Rightarrow> nat" where
  "counted name labels events = length (filter (\<lambda>x. x = Inc name labels) events)"

text \<open>The value of a counter over every value of its labels.\<close>

definition counted_all :: "string \<Rightarrow> telemetry list \<Rightarrow> nat" where
  "counted_all name events = length (filter (\<lambda>x. \<exists>labels. x = Inc name labels) events)"

lemma metric_eq [simp]: "metric subject a = metric subject b \<longleftrightarrow> a = b"
  by (simp add: metric_def)

subsection \<open>The loop is its iterations\<close>

primrec iterations :: "environment \<Rightarrow> 'o worker \<Rightarrow> surroundings \<Rightarrow> nat \<Rightarrow> nat \<Rightarrow>
    run_summary \<times> 'o \<times> world \<Rightarrow> run_summary \<times> 'o \<times> world" where
  "iterations E k out n 0 st = st"
| "iterations E k out n (Suc m) st = iterations E k out (Suc n) m (run_iteration E k out n st)"

lemma run_loop_Some:
  assumes "run_loop E k out n st = Some st'"
  shows "\<exists>m. su_stop out (n + m) \<and> (\<forall>i<m. \<not> su_stop out (n + i)) \<and> st' = iterations E k out n m st"
proof (rule run_loop.raw_induct [where P = "\<lambda>E k out n st st'. \<exists>m. su_stop out (n + m) \<and>
    (\<forall>i<m. \<not> su_stop out (n + i)) \<and> st' = iterations E k out n m st", OF _ assms])
  fix loop E k out n st st'
  assume IH: "\<And>E k out n st st'. loop E k out n st = Some st' \<Longrightarrow>
      \<exists>m. su_stop out (n + m) \<and> (\<forall>i<m. \<not> su_stop out (n + i)) \<and> st' = iterations E k out n m st"
    and eq: "(if su_stop out n then Some st else loop E k out (Suc n) (run_iteration E k out n st)) = Some st'"
  show "\<exists>m. su_stop out (n + m) \<and> (\<forall>i<m. \<not> su_stop out (n + i)) \<and> st' = iterations E k out n m st"
  proof (cases "su_stop out n")
    case True
    with eq show ?thesis by (intro exI [of _ 0]) simp
  next
    case False
    with eq have "loop E k out (Suc n) (run_iteration E k out n st) = Some st'" by simp
    from IH [OF this] obtain m where m: "su_stop out (Suc n + m)" "\<forall>i<m. \<not> su_stop out (Suc n + i)"
        "st' = iterations E k out (Suc n) m (run_iteration E k out n st)"
      by blast
    have "\<forall>i<Suc m. \<not> su_stop out (n + i)" using m(2) False by (simp add: All_less_Suc2)
    with m(1,3) show ?thesis by (intro exI [of _ "Suc m"]) simp
  qed
qed

lemma run_loop_returns:
  "\<forall>i<m. \<not> su_stop out (n + i) \<Longrightarrow> su_stop out (n + m) \<Longrightarrow>
     run_loop E k out n st = Some (iterations E k out n m st)"
proof (induction m arbitrary: n st)
  case (Suc m)
  have "\<not> su_stop out n" using Suc.prems(1) by (metis Nat.add_0_right zero_less_Suc)
  moreover have "run_loop E k out (Suc n) (run_iteration E k out n st) =
      Some (iterations E k out (Suc n) m (run_iteration E k out n st))"
    using Suc.prems by (intro Suc.IH) auto
  ultimately show ?case by (simp add: run_loop.simps)
qed (simp add: run_loop.simps)

lemma run_loop_None: "run_loop E k out 0 st = None \<longleftrightarrow> (\<forall>n. \<not> su_stop out n)"
proof
  assume none: "run_loop E k out 0 st = None"
  show "\<forall>n. \<not> su_stop out n"
  proof (rule ccontr)
    assume "\<not> (\<forall>n. \<not> su_stop out n)"
    then obtain n where "su_stop out n" by blast
    then have seen: "su_stop out (0 + (LEAST n. su_stop out n))" using LeastI [of "su_stop out" n] \<open>su_stop out n\<close> by simp
    have "\<forall>i<LEAST n. su_stop out n. \<not> su_stop out (0 + i)" by (auto dest: not_less_Least)
    from run_loop_returns [OF this seen, of E k st] none show False by simp
  qed
next
  assume never: "\<forall>n. \<not> su_stop out n"
  show "run_loop E k out 0 st = None"
    using never run_loop_Some [of E k out 0 st] by (metis not_Some_eq)
qed

text \<open>
  A relation between the start and the state after each iteration that every iteration keeps, holds
  at the end of a run.
\<close>

lemma iterations_keep:
  assumes "P 0 st" and "\<And>n st. P n st \<Longrightarrow> P (Suc n) (run_iteration E k out (i + n) st)"
  shows "P m (iterations E k out i m st)"
proof -
  have "P (j + m) (iterations E k out (i + j) m st)" if "P j st" for j st
    using that assms(2)
  proof (induction m arbitrary: j st)
    case (Suc m)
    from Suc.IH [of "Suc j"] Suc.prems show ?case by simp
  qed simp
  from this [of 0] assms(1) show ?thesis by simp
qed

lemma run_worker_keeps:
  assumes "run_worker E k out ob w = Some st" and "P 0 (no_batches, ob, w)"
    and "\<And>n st. P n st \<Longrightarrow> P (Suc n) (run_iteration E k out n st)"
  shows "\<exists>m. P m st \<and> su_stop out m \<and> (\<forall>i<m. \<not> su_stop out i)"
proof -
  obtain m where m: "su_stop out m" "\<forall>i<m. \<not> su_stop out i" "st = iterations E k out 0 m (no_batches, ob, w)"
    using run_loop_Some [OF assms(1) [unfolded run_worker_def]] by auto
  moreover have "P m st"
    unfolding m(3) by (rule iterations_keep [where P = P and i = 0]) (simp_all add: assms(2,3))
  ultimately show ?thesis by blast
qed

lemma run_iteration_cases:
  assumes "run_iteration E k out n (s, ob, w) = (s', ob', w')"
  obtains result seconds now v v' where
    "wk_once k v = (result, v')" "w_db v = su_before out n (w_db w)" "s' = count_batch result s"
    "ob' = wk_record k (observation_of result seconds) now ob"
    "w_db w' = w_db v' \<or> w_db w' = su_waiting out n (w_db v')"
proof -
  let ?v = "tick (others_commit (su_before out n) w)"
  obtain result v' where once: "wk_once k ?v = (result, v')" by fastforce
  with assms have
    "s' = count_batch result s"
    "ob' = wk_record k (observation_of result (max 0 (e_monotonic E (w_ticks v') -
        e_monotonic E (w_ticks (others_commit (su_before out n) w))))) (e_utc E (w_ticks (tick v'))) ob"
    "w_db w' = w_db v' \<or> w_db w' = su_waiting out n (w_db v')"
    by (auto simp: run_iteration_def run_batch_def Let_def others_commit_def tick_def split: if_splits)
  with that [OF once] show thesis by (simp add: tick_def others_commit_def)
qed

text \<open>
  C25. A worker runs until it is told to stop. The loop never ends only when the stop event is never
  seen; otherwise it returns, at the first test that sees the event, after exactly one batch for every
  test before, and each of these batches is counted once, as processed or as failed.
\<close>

theorem worker_runs_until_stopped:
  "case run_worker E k out ob w of
     None \<Rightarrow> (\<forall>n. \<not> su_stop out n)
   | Some (s, ob', w') \<Rightarrow> su_stop out (batches_processed s + batches_failed s) \<and>
       (LEAST n. su_stop out n) = batches_processed s + batches_failed s"
proof (cases "run_worker E k out ob w")
  case None
  then show ?thesis using run_loop_None [of E k out] by (simp add: run_worker_def)
next
  case (Some st)
  obtain s ob' w' where st: "st = (s, ob', w')" by (cases st) auto
  have "\<exists>m. (batches_processed (fst st) + batches_failed (fst st) = m) \<and> su_stop out m \<and> (\<forall>i<m. \<not> su_stop out i)"
  proof (rule run_worker_keeps [OF Some])
    show "batches_processed (fst (no_batches, ob, w)) + batches_failed (fst (no_batches, ob, w)) = 0"
      by (simp add: no_batches_def)
    fix n :: nat and st :: "run_summary \<times> 'a \<times> world"
    assume "batches_processed (fst st) + batches_failed (fst st) = n"
    moreover obtain s ob w s' ob' w' where "st = (s, ob, w)" "run_iteration E k out n st = (s', ob', w')"
      by (metis prod_cases3)
    ultimately show "batches_processed (fst (run_iteration E k out n st)) +
        batches_failed (fst (run_iteration E k out n st)) = Suc n"
      by (auto elim!: run_iteration_cases simp: count_batch_def split: sum.splits)
  qed
  then show ?thesis using Some st by (auto intro!: Least_equality simp: not_less [symmetric])
qed

subsection \<open>What the metrics say\<close>

lemma counted_append [simp]: "counted name ls (xs @ ys) = counted name ls xs + counted name ls ys"
  by (simp add: counted_def)

lemma counted_all_append [simp]: "counted_all name (xs @ ys) = counted_all name xs + counted_all name ys"
  by (simp add: counted_all_def)

definition metrics_agree :: "string \<Rightarrow> run_summary \<Rightarrow> telemetry list \<Rightarrow> bool" where
  "metrics_agree subject s events \<longleftrightarrow>
     counted (metric subject ''_batches_total'') [(''outcome'', ''succeeded'')] events = batches_processed s \<and>
     counted (metric subject ''_batches_total'') [(''outcome'', ''failed'')] events = batches_failed s \<and>
     counted_all (metric subject ''_reservations_total'') events = reservations_processed s"

lemma metrics_agree_batch:
  "metrics_agree subject s events \<Longrightarrow>
   metrics_agree subject (count_batch result s)
     (prometheus_observer subject (observation_of result seconds) now events)"
  by (cases result)
    (simp_all add: metrics_agree_def prometheus_observer_def observation_of_def count_batch_def
      record_success_def record_failure_def counted_def counted_all_def filter_map comp_def)

text \<open>
  The metrics tell the truth. When a worker with a Prometheus observer stops, its counters of
  succeeded and failed batches and of reservations are what its summary says.
\<close>

theorem worker_metrics_agree:
  assumes run: "run_worker E k out [] w = Some (s, events, w')"
    and observer: "wk_record k = prometheus_observer subject"
  shows "counted (metric subject ''_batches_total'') [(''outcome'', ''succeeded'')] events = batches_processed s \<and>
    counted (metric subject ''_batches_total'') [(''outcome'', ''failed'')] events = batches_failed s \<and>
    counted_all (metric subject ''_reservations_total'') events = reservations_processed s"
proof -
  have "\<exists>m. (case (s, events, w') of (s, events, w') \<Rightarrow> metrics_agree subject s events) \<and> su_stop out m \<and> (\<forall>i<m. \<not> su_stop out i)"
  proof (rule run_worker_keeps [OF run])
    show "case (no_batches, [], w) of (s, events, w') \<Rightarrow> metrics_agree subject s events"
      by (simp add: metrics_agree_def no_batches_def counted_def counted_all_def)
    fix n :: nat and st :: "run_summary \<times> telemetry list \<times> world"
    assume IH: "case st of (s, events, w') \<Rightarrow> metrics_agree subject s events"
    obtain s ob w s' ob' w' where st: "st = (s, ob, w)" and it: "run_iteration E k out n st = (s', ob', w')"
      by (metis prod_cases3)
    from run_iteration_cases [OF it [unfolded st] ] obtain result seconds now
      where "s' = count_batch result s" "ob' = wk_record k (observation_of result seconds) now ob" .
    with IH it st show "case run_iteration E k out n st of (s, events, w') \<Rightarrow> metrics_agree subject s events"
      by (simp add: observer metrics_agree_batch)
  qed
  then show ?thesis by (simp add: metrics_agree_def)
qed

text \<open>A run of the expiration worker on an empty shop that is stopped after two batches.\<close>

definition two_batches :: surroundings where
  "two_batches = \<lparr>su_stop = (\<lambda>n. 2 \<le> n), su_before = (\<lambda>_ d. d), su_waiting = (\<lambda>_ d. d)\<rparr>"

definition sample_expiration :: "telemetry list worker" where
  "sample_expiration = expiration_worker (sample_environment Timed_Out)
     \<lparr>ec_batch_size = 100, ec_poll_interval = 5000000\<rparr> (prometheus_observer ''expiration'')"

lemma expire_nothing:
  "reservations (w_db w) = [] \<Longrightarrow> expire_once E n w =
    (Inr [], begin_transaction E w\<lparr>w_ticks := w_ticks w + 2\<rparr>)"
  by (simp add: expire_once_def expire_batch_def expired_batch_def reload_all_def map_filter_def
      reservation_transaction_cases transaction_def prog_simps begin_transaction_def)

lemma sample_expiration_run:
  "\<exists>events w'. run_worker (sample_environment Timed_Out) sample_expiration two_batches [] (world_of empty_database) =
     Some (\<lparr>batches_processed = 2, reservations_processed = 0, batches_failed = 0\<rparr>, events, w')"
  by (simp add: run_worker_def run_loop.simps two_batches_def sample_expiration_def expiration_worker_def
      run_iteration_def run_batch_def Let_def expire_nothing others_commit_def tick_def world_of_def
      empty_database_def count_batch_def observation_of_def must_wait_def no_batches_def begin_transaction_def)

theorem worker_metrics_agree_witness:
  "\<exists>s events w'. run_worker (sample_environment Timed_Out) sample_expiration two_batches [] (world_of empty_database) =
      Some (s, events, w') \<and>
    counted (metric ''expiration'' ''_batches_total'') [(''outcome'', ''succeeded'')] events = 2"
proof -
  obtain events w' where run: "run_worker (sample_environment Timed_Out) sample_expiration two_batches []
      (world_of empty_database) = Some (\<lparr>batches_processed = 2, reservations_processed = 0, batches_failed = 0\<rparr>, events, w')"
    using sample_expiration_run by blast
  from worker_metrics_agree [OF run, of "''expiration''"] show ?thesis
    using run by (simp add: sample_expiration_def expiration_worker_def)
qed

subsection \<open>A worker's run is a run of the system\<close>

text \<open>
  What the loop needs of its \<open>run_once\<close>: it commits a step of the system, and it returns at
  most a batch.
\<close>

locale batch_source =
  fixes E :: environment and once :: "reservation list io" and limit :: int
  assumes once_commits: "once w = (r, w') \<Longrightarrow> commits True E (w_db w) (w_db w')"
    and once_bounded: "once w = (Inr rs, w') \<Longrightarrow> length rs \<le> nat limit"
begin

lemma run_is_system_run:
  assumes once: "wk_once k = once"
    and others: "\<And>n d. commits True E d (su_before out n d)" "\<And>n d. commits True E d (su_waiting out n d)"
    and run: "run_worker E k out ob w = Some (s, ob', w')"
  shows "commits True E (w_db w) (w_db w') \<and> reservations_processed s \<le> batches_processed s * nat limit"
proof -
  let ?P = "\<lambda>st. case st of (s, ob', w') \<Rightarrow>
      commits True E (w_db w) (w_db w') \<and> reservations_processed s \<le> batches_processed s * nat limit"
  have "\<exists>m. ?P (s, ob', w') \<and> su_stop out m \<and> (\<forall>i<m. \<not> su_stop out i)"
  proof (rule run_worker_keeps [OF run])
    show "?P (no_batches, ob, w)" by (simp add: no_batches_def commits.idle)
    fix n :: nat and st :: "run_summary \<times> 'a \<times> world"
    assume IH: "?P st"
    obtain s1 ob1 w1 s2 ob2 w2 where st: "st = (s1, ob1, w1)" and it: "run_iteration E k out n st = (s2, ob2, w2)"
      by (metis prod_cases3)
    from run_iteration_cases [OF it [unfolded st] ] obtain result v v' where
      v: "once v = (result, v')" "w_db v = su_before out n (w_db w1)" and s2: "s2 = count_batch result s1"
      and w2: "w_db w2 = w_db v' \<or> w_db w2 = su_waiting out n (w_db v')"
      unfolding once .
    have "commits True E (w_db w1) (w_db v')"
      using commits.in_turn [OF others(1) once_commits [OF v(1), unfolded v(2)] ] .
    then have "commits True E (w_db w1) (w_db w2)"
      using w2 others(2) by (auto intro: commits.in_turn)
    moreover have "reservations_processed s2 \<le> batches_processed s2 * nat limit"
    proof (cases result)
      case (Inr rs)
      with once_bounded v(1) have "length rs \<le> nat limit" by blast
      with IH s2 Inr show ?thesis by (simp add: st count_batch_def)
    qed (use IH s2 in \<open>simp add: st count_batch_def\<close>)
    ultimately show "?P (run_iteration E k out n st)"
      using IH it by (auto simp: st intro: commits.in_turn)
  qed
  then show ?thesis by simp
qed

end

lemma for_each_length: "for_each f xs s = (Inr ys, s') \<Longrightarrow> length ys = length xs"
  by (induction xs arbitrary: ys s) (auto simp: prog_simps split: prod.splits sum.splits)

lemma reload_all_length: "reload_all rows w = (Inr rs, w') \<Longrightarrow> length rs \<le> length rows"
  by (auto simp: reload_all_def prog_simps List.map_filter_def split: prod.splits sum.splits dest!: for_each_length)
    (metis length_filter_le)

lemma expire_batch_length: "expire_batch E now lim w = (Inr rs, w') \<Longrightarrow> length rs \<le> nat lim"
  by (auto simp: expire_batch_def expired_batch_def prog_simps split: prod.splits sum.splits dest!: reload_all_length)

lemma reconcile_batch_length: "reconcile_batch E now lim attempts delay w = (Inr rs, w') \<Longrightarrow> length rs \<le> nat lim"
  by (auto simp: reconcile_batch_def reconcile_rows_def prog_simps split: prod.splits sum.splits
      dest!: reload_all_length)

interpretation expiring: batch_source E "expire_once E n" n for E n
  by unfold_locales (auto intro: commits.expiring
      simp: expire_once_def reservation_transaction_Inr prog_simps dest: expire_batch_length)

interpretation reconciling: batch_source E "reconcile_once E n attempts delay" n for E n attempts delay
  by unfold_locales (auto intro: commits.reconciling
      simp: reconcile_once_def reservation_transaction_Inr prog_simps dest: reconcile_batch_length)

text \<open>
  C26. A worker is just another client. Whatever runs of the system the other processes commit before
  its batches and while it waits, a whole run of the expiration or of the reconciliation worker is a
  run of the system, so every invariant of the shop holds when it stops; and it has processed at most
  a batch of reservations per successful batch.
\<close>

theorem worker_run_is_system_run:
  assumes "k = expiration_worker E ec observer \<or> k = reconciliation_worker E rc observer"
    and "\<And>n d. commits True E d (su_before out n d)" "\<And>n d. commits True E d (su_waiting out n d)"
    and "run_worker E k out ob w = Some (s, ob', w')"
  shows "commits True E (w_db w) (w_db w') \<and>
    reservations_processed s \<le> batches_processed s * nat (wk_batch_size k)"
  using assms(1)
proof
  assume k: "k = expiration_worker E ec observer"
  show ?thesis
    using expiring.run_is_system_run [OF _ assms(2-4), where n = "ec_batch_size ec"]
    by (simp add: k expiration_worker_def)
next
  assume k: "k = reconciliation_worker E rc observer"
  show ?thesis
    using reconciling.run_is_system_run [OF _ assms(2-4), where n = "rc_batch_size rc"
        and attempts = "rc_max_attempts rc" and delay = "rc_retry_base_delay rc"]
    by (simp add: k reconciliation_worker_def)
qed

theorem worker_run_is_system_run_witness:
  "\<exists>s events w'. run_worker (sample_environment Timed_Out) sample_expiration two_batches [] (world_of empty_database) =
      Some (s, events, w') \<and> commits True (sample_environment Timed_Out) empty_database (w_db w')"
proof -
  obtain s events w' where run: "run_worker (sample_environment Timed_Out) sample_expiration two_batches []
      (world_of empty_database) = Some (s, events, w')"
    using sample_expiration_run by blast
  have "commits True (sample_environment Timed_Out) (w_db (world_of empty_database)) (w_db w')"
    using worker_run_is_system_run [OF disjI1 [OF sample_expiration_def] _ _ run]
    by (simp add: two_batches_def commits.idle)
  with run show ?thesis by (simp add: world_of_def)
qed

end
