(* ===== verification/Batches.thy ===== *)
theory Batches
  imports Provider_Operations Workers
begin

section \<open>Batches of reservations\<close>

text \<open>
  What \<open>expire_batch\<close> and \<open>reconcile_batch\<close> of \<open>repository/reservation.py\<close> share: a
  loop that takes reservations one by one, then reloads them. The contract of one iteration is a
  locale; what a batch returns, and that it leaves every other reservation alone, is proved in it once.
\<close>

subsection \<open>Rows before and after\<close>

text \<open>\<open>became R d d' r\<close>: the aggregate of row \<open>r\<close> went from \<open>d\<close> to \<open>d'\<close> as \<open>R\<close> says.\<close>

definition became :: "(reservation \<Rightarrow> reservation \<Rightarrow> bool) \<Rightarrow> database \<Rightarrow> database \<Rightarrow> reservation_row \<Rightarrow> bool" where
  "became R d d' r \<longleftrightarrow> (\<exists>r'. find_reservation (r_id r) d' = Some r' \<and> R (loaded d r) (loaded d' r'))"

lemma loaded_row: "row_of (r_id r) d' = row_of (r_id r) d \<Longrightarrow> loaded d' r = loaded d r"
  by (simp add: row_of_def loaded_def)

lemma row_of_find: "row_of x d' = row_of x d \<Longrightarrow> find_reservation x d' = find_reservation x d"
  by (simp add: row_of_def)

lemma became_later:
  assumes "became R d d1 r" and "row_of (r_id r) d2 = row_of (r_id r) d1"
  shows "became R d d2 r"
proof -
  obtain r' where r': "find_reservation (r_id r) d1 = Some r'" "R (loaded d r) (loaded d1 r')"
    using assms(1) by (auto simp: became_def)
  then have "r_id r' = r_id r" unfolding find_reservation_def by (auto dest: find_SomeD)
  with r' assms(2) loaded_row [of r' d2 d1] row_of_find [OF assms(2)] show ?thesis by (auto simp: became_def)
qed

lemma became_earlier:
  "row_of (r_id r) d1 = row_of (r_id r) d \<Longrightarrow> became R d1 d' r \<Longrightarrow> became R d d' r"
  using loaded_row [of r d1 d] by (simp add: became_def)

text \<open>The rows a batch took, when the loop comes to them: present, fit to be taken, and each once.\<close>

definition batch_ready :: "(reservation_row \<Rightarrow> bool) \<Rightarrow> reservation_row list \<Rightarrow> database \<Rightarrow> bool" where
  "batch_ready takes rows d \<longleftrightarrow> shop_inv d \<and> distinct (map r_id rows) \<and>
     (\<forall>r\<in>set rows. find_reservation (r_id r) d = Some r \<and> takes r)"

lemma batch_ready_row: "batch_ready takes (r # rows) d \<Longrightarrow> shop_inv d \<and> r \<in> set (reservations d) \<and> takes r"
  by (auto simp: batch_ready_def find_reservation_iff dest: shop_invD(6))

lemma reload_all_loaded:
  assumes "shop_inv (w_db w)"
  shows "reload_all rows w =
    (Inr (List.map_filter (\<lambda>r. map_option (loaded (w_db w)) (find_reservation (r_id r) (w_db w))) rows), w)"
proof -
  have "for_each (\<lambda>r. reload_domain (r_id r)) rows w =
      (Inr (map (\<lambda>r. map_option (loaded (w_db w)) (find_reservation (r_id r) (w_db w))) rows), w)"
    by (induction rows) (simp_all add: prog_simps reload_loaded [OF assms])
  then show ?thesis by (simp add: reload_all_def prog_simps List.map_filter_def filter_map comp_def)
qed

lemma reload_all_became:
  assumes "shop_inv (w_db w)" and "\<forall>r\<in>set rows. became R d (w_db w) r"
  shows "\<exists>rs. reload_all rows w = (Inr rs, w) \<and> list_all2 (\<lambda>r x. R (loaded d r) x) rows rs"
proof -
  have "list_all2 (\<lambda>r x. R (loaded d r) x) rows
      (List.map_filter (\<lambda>r. map_option (loaded (w_db w)) (find_reservation (r_id r) (w_db w))) rows)"
    using assms(2) by (induction rows) (auto simp: map_filter_simps became_def)
  then show ?thesis by (simp add: reload_all_loaded [OF assms(1)])
qed

subsection \<open>The loop\<close>

locale batch =
  fixes step :: "reservation_row \<Rightarrow> unit io"
    and takes :: "reservation_row \<Rightarrow> bool"
    and R :: "reservation \<Rightarrow> reservation \<Rightarrow> bool"
  assumes step_result: "shop_inv (w_db w) \<Longrightarrow> r \<in> set (reservations (w_db w)) \<Longrightarrow> takes r \<Longrightarrow>
      step r w = (Inr u, w') \<Longrightarrow> shop_inv (w_db w') \<and> became R (w_db w) (w_db w') r"
    and step_others: "step r w = (result, w') \<Longrightarrow> x \<noteq> r_id r \<Longrightarrow> row_of x (w_db w') = row_of x (w_db w)"
begin

lemma ready_step:
  assumes ready: "batch_ready takes (r # rows) (w_db w)" and one: "step r w = (Inr u, w1)"
  shows "batch_ready takes rows (w_db w1)" and "became R (w_db w) (w_db w1) r"
proof -
  have res: "shop_inv (w_db w1) \<and> became R (w_db w) (w_db w1) r"
    using batch_ready_row [OF ready] step_result [OF _ _ _ one] by blast
  then show "became R (w_db w) (w_db w1) r" by blast
  have "find_reservation (r_id y) (w_db w1) = find_reservation (r_id y) (w_db w)" if "y \<in> set rows" for y
  proof -
    have "r_id y \<noteq> r_id r" using ready that by (simp add: batch_ready_def) (metis imageI)
    then show ?thesis using row_of_find [OF step_others [OF one] ] by simp
  qed
  then show "batch_ready takes rows (w_db w1)" using ready res by (simp add: batch_ready_def)
qed

lemma loop:
  assumes "batch_ready takes rows (w_db w)" and "for_each step rows w = (Inr us, w')"
  shows "shop_inv (w_db w') \<and> (\<forall>r\<in>set rows. became R (w_db w) (w_db w') r) \<and>
    (\<forall>x. x \<notin> r_id ` set rows \<longrightarrow> row_of x (w_db w') = row_of x (w_db w))"
  using assms
proof (induction rows arbitrary: w us)
  case Nil
  then show ?case by (simp add: ret_def batch_ready_def)
next
  case (Cons r rows)
  from Cons.prems(2) obtain u w1 vs where one: "step r w = (Inr u, w1)" and rest: "for_each step rows w1 = (Inr vs, w')"
    by (auto simp: prog_simps split: prod.splits sum.splits)
  note done_step = ready_step [OF Cons.prems(1) one] and others = step_others [OF one]
  note later = Cons.IH [OF done_step(1) rest]
  have fresh: "r_id r \<notin> r_id ` set rows" using Cons.prems(1) by (simp add: batch_ready_def)
  have "became R (w_db w) (w_db w') r" using became_later [OF done_step(2)] later fresh by blast
  moreover have "became R (w_db w) (w_db w') y" if "y \<in> set rows" for y
  proof -
    have "r_id y \<noteq> r_id r" using fresh that by (metis imageI)
    then show ?thesis using became_earlier [OF others] later that by blast
  qed
  ultimately show ?case using later others by auto
qed

text \<open>The whole batch: what it returns, and what is as before.\<close>

lemma result:
  assumes "batch_ready takes rows (w_db w)"
    and "andThen (for_each step rows) (\<lambda>_. reload_all rows) w = (Inr rs, w')"
  shows "list_all2 (\<lambda>r x. R (loaded (w_db w) r) x) rows rs \<and> shop_inv (w_db w') \<and>
    (\<forall>r\<in>set rows. became R (w_db w) (w_db w') r) \<and>
    (\<forall>x. x \<notin> r_id ` set rows \<longrightarrow> row_of x (w_db w') = row_of x (w_db w))"
proof -
  from assms(2) obtain us w1 where each: "for_each step rows w = (Inr us, w1)" and dom: "reload_all rows w1 = (Inr rs, w')"
    by (auto simp: andThen_def split: prod.splits sum.splits)
  note after = loop [OF assms(1) each]
  with reload_all_became [of w1 rows R "w_db w"] dom show ?thesis by auto
qed

end

end
