(* ===== verification/Expiration.thy ===== *)
theory Expiration
  imports Batches
begin

section \<open>What an expiration batch does\<close>

text \<open>
  \<open>expire_batch\<close> of \<open>repository/reservation.py\<close> as its worker sees it: which
  reservations a batch takes, what becomes of them, that a batch on internal stock cannot fail, and
  that a worker that waits has left nothing overdue.
\<close>

subsection \<open>One batch\<close>

definition let_go :: "reservation \<Rightarrow> reservation \<Rightarrow> bool" where
  "let_go a b \<longleftrightarrow> b = a\<lparr>res_status := Expired, res_target := None\<rparr> \<or>
     b = a\<lparr>res_status := Releasing, res_target := Some Expired\<rparr>"

abbreviation expire_row :: "environment \<Rightarrow> reservation_row \<Rightarrow> unit io" where
  "expire_row E \<equiv> \<lambda>r. release_reservation E (r_id r) M_Expired None"

abbreviation pending :: "reservation_row \<Rightarrow> bool" where
  "pending r \<equiv> r_status r = M_Pending"

interpretation expire: batch "expire_row E" pending let_go for E
proof unfold_locales
  fix w w' :: world and r u
  assume row: "shop_inv (w_db w)" "r \<in> set (reservations (w_db w))" "pending r"
    and run: "expire_row E r w = (Inr u, w')"
  show "shop_inv (w_db w') \<and> became let_go (w_db w) (w_db w') r"
    using release_inv [OF row(1) run row(2)] release_result_loaded [OF row(1) run row(2)] row(3)
    by (auto simp: became_def let_go_def)
next
  fix w w' :: world and r x u
  assume "expire_row E r w = (u, w')" "x \<noteq> r_id r"
  then show "row_of x (w_db w') = row_of x (w_db w)" using keepsD [OF keeps_row_release] by blast
qed

lemma batch_ready_expired: "keys_ok d \<Longrightarrow> shop_inv d \<Longrightarrow> batch_ready pending (expired_batch now lim d) d"
  using expired_batch_rows [of d now lim] by (auto simp: batch_ready_def overdue_def)

lemma expire_batch_result:
  assumes inv: "shop_inv (w_db w)" and run: "expire_batch E now lim w = (Inr rs, w')"
  shows "list_all2 (\<lambda>r x. let_go (loaded (w_db w) r) x) (expired_batch now lim (w_db w)) rs \<and>
    shop_inv (w_db w') \<and> (\<forall>r\<in>set (expired_batch now lim (w_db w)). became let_go (w_db w) (w_db w') r) \<and>
    (\<forall>x. x \<notin> r_id ` set (expired_batch now lim (w_db w)) \<longrightarrow> row_of x (w_db w') = row_of x (w_db w))"
  using run
  by (intro expire.result [OF batch_ready_expired [OF shop_invD(6) [OF inv] inv] ])
    (simp add: expire_batch_def andThen_def db_query_def)

lemma expired_not_overdue:
  assumes "became let_go d d' r"
  shows "\<exists>r'. find_reservation (r_id r) d' = Some r' \<and> \<not> overdue now r'"
proof -
  obtain r' where r': "find_reservation (r_id r) d' = Some r'" "let_go (loaded d r) (loaded d' r')"
    using assms by (auto simp: became_def)
  from r'(2) have "res_status (loaded d' r') \<in> {Expired, Releasing}" by (auto simp: let_go_def)
  then have "\<not> overdue now r'" by (auto simp: loaded_def overdue_def)
  with r'(1) show ?thesis by blast
qed

subsection \<open>What is left overdue\<close>

definition due :: "instant \<Rightarrow> database \<Rightarrow> reservation_row list" where
  "due now d = filter (overdue now) (reservations d)"

lemma due_ids:
  assumes "keys_ok d"
  shows "x \<in> r_id ` set (due now d) \<longleftrightarrow> (\<exists>r. find_reservation x d = Some r \<and> overdue now r)"
    and "card (r_id ` set (due now d)) = length (due now d)"
proof -
  show "x \<in> r_id ` set (due now d) \<longleftrightarrow> (\<exists>r. find_reservation x d = Some r \<and> overdue now r)"
    using assms by (auto simp: due_def find_reservation_iff image_iff)
  have "distinct (map r_id (due now d))"
    using assms by (auto simp: due_def keys_ok_def intro: distinct_map_filter)
  from distinct_card [OF this] show "card (r_id ` set (due now d)) = length (due now d)" by simp
qed

lemma expired_batch_due:
  assumes "keys_ok d"
  shows "r_id ` set (expired_batch now lim d) \<subseteq> r_id ` set (due now d)"
    and "card (r_id ` set (expired_batch now lim d)) = min (nat lim) (length (due now d))"
proof -
  show "r_id ` set (expired_batch now lim d) \<subseteq> r_id ` set (due now d)"
    by (auto simp: expired_batch_def due_def dest: in_set_takeD)
  have "card (r_id ` set (expired_batch now lim d)) = length (expired_batch now lim d)"
    using distinct_card [OF conjunct1 [OF expired_batch_rows [OF assms] ], of now lim] by simp
  then show "card (r_id ` set (expired_batch now lim d)) = min (nat lim) (length (due now d))"
    by (simp add: expired_batch_def due_def min.commute)
qed

lemma expire_batch_due:
  assumes inv: "shop_inv (w_db w)" and run: "expire_batch E now lim w = (Inr rs, w')"
  shows "length (due now (w_db w')) = length (due now (w_db w)) - nat lim"
proof -
  let ?ids = "r_id ` set (expired_batch now lim (w_db w))"
  note result = expire_batch_result [OF inv run]
  have keys: "keys_ok (w_db w)" "keys_ok (w_db w')" using shop_invD(6) inv result by blast+
  have "x \<in> r_id ` set (due now (w_db w')) \<longleftrightarrow> x \<in> r_id ` set (due now (w_db w)) - ?ids" for x
  proof (cases "x \<in> ?ids")
    case True
    then obtain r where "r \<in> set (expired_batch now lim (w_db w))" "x = r_id r" by blast
    with result have "became let_go (w_db w) (w_db w') r" and x: "x = r_id r" by blast+
    from expired_not_overdue [OF this(1)] x obtain r'
      where "find_reservation x (w_db w') = Some r'" "\<not> overdue now r'" by blast
    with True show ?thesis by (simp add: due_ids(1) [OF keys(2)])
  next
    case False
    with result have "row_of x (w_db w') = row_of x (w_db w)" by blast
    note row_of_find [OF this]
    with False show ?thesis by (simp add: due_ids(1) [OF keys(1)] due_ids(1) [OF keys(2)])
  qed
  then have "r_id ` set (due now (w_db w')) = r_id ` set (due now (w_db w)) - ?ids" by blast
  then have "card (r_id ` set (due now (w_db w'))) = card (r_id ` set (due now (w_db w))) - card ?ids"
    using expired_batch_due(1) [OF keys(1)] by (simp add: card_Diff_subset)
  then show ?thesis
    by (simp add: due_ids(2) [OF keys(1)] due_ids(2) [OF keys(2)] expired_batch_due(2) [OF keys(1)])
qed

lemma expire_once_Inr:
  "expire_once E n w = (Inr rs, w') \<longleftrightarrow>
     expire_batch E (e_utc E (Suc (w_ticks w))) n (tick (begin_transaction E w)) = (Inr rs, w')"
  by (simp add: expire_once_def reservation_transaction_Inr andThen_def read_clock_def tick_def begin_transaction_def)

text \<open>
  C27. A batch takes what is overdue. In a run, a batch of the expiration worker that succeeds returns,
  earliest deadline first, the first reservations that are overdue when it reads the clock, each
  expired or being released towards expiry; a batch's size fewer are overdue afterwards; and when
  the batch was not full, so that the worker goes to sleep, none is.
\<close>

theorem expiration_leaves_nothing_overdue:
  assumes "commits True E empty_database (w_db w)" and "expire_once E n w = (Inr rs, w')"
  shows "let now = e_utc E (Suc (w_ticks w)) in
    list_all2 (\<lambda>r x. let_go (loaded (w_db w) r) x) (expired_batch now n (w_db w)) rs \<and>
    length (due now (w_db w')) = length (due now (w_db w)) - nat n \<and>
    (int (length rs) < n \<longrightarrow> due now (w_db w') = [])"
proof -
  let ?now = "e_utc E (Suc (w_ticks w))" and ?w = "tick (begin_transaction E w)"
  have db: "w_db ?w = w_db w" by (simp add: tick_def)
  have inv: "shop_inv (w_db ?w)" using run_shop [OF assms(1)] db by simp
  note run = assms(2) [unfolded expire_once_Inr]
  have all: "list_all2 (\<lambda>r x. let_go (loaded (w_db w) r) x) (expired_batch ?now n (w_db w)) rs"
    using expire_batch_result [OF inv run] db by simp
  moreover have left: "length (due ?now (w_db w')) = length (due ?now (w_db w)) - nat n"
    using expire_batch_due [OF inv run] db by simp
  moreover have "length rs = min (nat n) (length (due ?now (w_db w)))"
    using list_all2_lengthD [OF all] by (simp add: expired_batch_def due_def min.commute)
  ultimately show ?thesis by (auto simp: Let_def simp flip: length_0_conv)
qed

subsection \<open>Internal stock always expires\<close>

lemma own_stock_moved: "moved rid f m d d' \<Longrightarrow> own_stock x d' = own_stock x d"
  by (auto simp: own_stock_def moved_simps restatus_def belongs_restatus)

lemma own_stock_release:
  assumes "shop_inv (w_db w)" and "r \<in> set (reservations (w_db w))" "r_status r \<in> {M_Pending, M_Releasing, M_Expired}"
    and "release_reservation E (r_id r) terminal ctx w = (Inr u, w')"
  shows "own_stock x (w_db w') = own_stock x (w_db w)"
  using release_reservation_effect [OF shop_invD(1) [OF assms(1)] assms(4) settled_releasable [OF assms(1-3)] ]
    own_stock_moved by blast

lemma expire_loop_total:
  assumes "batch_ready pending rows (w_db w)" and "\<forall>r\<in>set rows. own_stock (r_id r) (w_db w)"
  shows "\<exists>us w'. for_each (expire_row E) rows w = (Inr us, w') \<and> w_log w' = w_log w \<and>
    (\<forall>r\<in>set rows. \<exists>r'. find_reservation (r_id r) (w_db w') = Some r' \<and> r_status r' = M_Expired)"
  using assms
proof (induction rows arbitrary: w)
  case Nil
  then show ?case by (simp add: ret_def)
next
  case (Cons r rows)
  note row = batch_ready_row [OF Cons.prems(1)] and ready = expire.ready_step(1) [OF Cons.prems(1)]
  obtain w1 f where one: "expire_row E r w = (Inr (), w1)" and log: "w_log w1 = w_log w"
    and f: "find_reservation (r_id r) (w_db w1) = Some (f r)" "after_release [] M_Expired f"
    using release_total [of w r] row Cons.prems(2) by force
  have "\<forall>y\<in>set rows. own_stock (r_id y) (w_db w1)"
    using own_stock_release [OF _ _ _ one] row Cons.prems(2) by simp
  from Cons.IH [OF ready [OF one] this] obtain us w' where
    rest: "for_each (expire_row E) rows w1 = (Inr us, w')" "w_log w' = w_log w1"
    and gone: "\<forall>y\<in>set rows. \<exists>r'. find_reservation (r_id y) (w_db w') = Some r' \<and> r_status r' = M_Expired" by blast
  have "r_id r \<notin> r_id ` set rows" using Cons.prems(1) by (simp add: batch_ready_def)
  with expire.loop [OF ready [OF one] rest(1)]
  have "row_of (r_id r) (w_db w') = row_of (r_id r) (w_db w1)" by blast
  from row_of_find [OF this] f have "find_reservation (r_id r) (w_db w') = Some (f r)" "r_status (f r) = M_Expired"
    by (simp_all add: after_release_def)
  with one rest gone log show ?case by (auto simp: prog_simps)
qed

text \<open>
  Overdue reservations of own stock always expire. In a run in which every overdue reservation is of
  internal stock, a batch of the expiration worker cannot fail, calls no seller, and every
  reservation it took has expired; so repeated batches work off any backlog.
\<close>

theorem own_stock_always_expires:
  assumes "commits True E empty_database (w_db w)"
    and "\<forall>r\<in>set (due (e_utc E (Suc (w_ticks w))) (w_db w)). own_stock (r_id r) (w_db w)"
  shows "\<exists>rs w'. expire_once E n w = (Inr rs, w') \<and> w_log w' = w_log w \<and>
    map res_id rs = map r_id (expired_batch (e_utc E (Suc (w_ticks w))) n (w_db w)) \<and>
    list_all (\<lambda>x. res_status x = Expired) rs"
proof -
  let ?now = "e_utc E (Suc (w_ticks w))" and ?w = "tick (begin_transaction E w)"
  let ?rows = "expired_batch ?now n (w_db w)"
  have db: "w_db ?w = w_db w" and log: "w_log ?w = w_log w" by (simp_all add: tick_def)
  have inv: "shop_inv (w_db ?w)" using run_shop [OF assms(1)] db by simp
  have ready: "batch_ready pending ?rows (w_db ?w)" using batch_ready_expired [of "w_db ?w"] shop_invD(6) [OF inv] inv db by simp
  have own: "\<forall>r\<in>set ?rows. own_stock (r_id r) (w_db ?w)"
    using assms(2) db by (auto simp: expired_batch_def due_def dest!: in_set_takeD)
  obtain us w1 where loop: "for_each (expire_row E) ?rows ?w = (Inr us, w1)" "w_log w1 = w_log w"
    and gone: "\<forall>r\<in>set ?rows. \<exists>r'. find_reservation (r_id r) (w_db w1) = Some r' \<and> r_status r' = M_Expired"
    using expire_loop_total [OF ready own] log by metis
  have "shop_inv (w_db w1)" using expire.loop [OF ready loop(1)] by blast
  note load = reload_all_loaded [OF this, of ?rows]
  have "map res_id (List.map_filter (\<lambda>r. map_option (loaded (w_db w1)) (find_reservation (r_id r) (w_db w1))) rows) =
        map r_id rows \<and>
      list_all (\<lambda>x. res_status x = Expired)
        (List.map_filter (\<lambda>r. map_option (loaded (w_db w1)) (find_reservation (r_id r) (w_db w1))) rows)"
    if "set rows \<subseteq> set ?rows" for rows
    using that
  proof (induction rows)
    case (Cons r rows)
    then obtain r' where r': "find_reservation (r_id r) (w_db w1) = Some r'" "r_status r' = M_Expired" using gone by auto
    then have "r_id r' = r_id r" by (auto simp: find_reservation_def dest: find_SomeD)
    with r' Cons show ?case by (simp add: map_filter_simps loaded_def)
  qed (simp add: map_filter_simps)
  from this [OF subset_refl] loop load show ?thesis
    unfolding expire_once_Inr expire_batch_def by (simp add: andThen_def db_query_def db)
qed

text \<open>The sample reservation, whose ten minutes are over.\<close>

definition late_world :: world where
  "late_world = (world_of reserved_database)\<lparr>w_ticks := 700\<rparr>"

lemma late_due:
  "due (e_utc offline (Suc (w_ticks late_world))) (w_db late_world) = [reserved_row]"
  by (simp add: due_def overdue_def late_world_def reserved_database_def reserved_row_def offline_def sample_simps)

lemma late_run: "commits True offline empty_database (w_db late_world)"
  using reserved by (simp add: late_world_def)

lemma late_own: "own_stock (r_id reserved_row) (w_db late_world)"
  by (simp add: own_stock_def late_world_def reserved_database_def reserved_allocation_def is_internal_def
      find_provider_def stocked_database_def seller_def)

theorem own_stock_always_expires_witness:
  "\<exists>rs w'. expire_once offline 1 late_world = (Inr rs, w') \<and> map res_id rs = [1000] \<and>
    list_all (\<lambda>x. res_status x = Expired) rs"
proof -
  have "expired_batch (e_utc offline (Suc (w_ticks late_world))) 1 (w_db late_world) = [reserved_row]"
    using late_due by (simp add: expired_batch_def due_def)
  then show ?thesis
    using own_stock_always_expires [OF late_run, of 1] late_own by (fastforce simp: late_due reserved_row_def)
qed

theorem expiration_leaves_nothing_overdue_witness:
  "\<exists>rs w'. expire_once offline 2 late_world = (Inr rs, w') \<and> due 701 (w_db w') = []"
proof -
  have batch: "batch_ready pending [reserved_row] (w_db late_world)"
    using run_shop [OF late_run] by (simp add: batch_ready_def)
      (simp add: late_world_def reserved_database_def find_reservation_def reserved_row_def)
  have one: "expired_batch (e_utc offline (Suc (w_ticks late_world))) 2 (w_db late_world) = [reserved_row]"
    using late_due by (simp add: expired_batch_def due_def)
  let ?w = "tick (begin_transaction offline late_world)"
  have db: "w_db ?w = w_db late_world" by (simp add: tick_def)
  obtain us w1 where loop: "for_each (expire_row offline) [reserved_row] ?w = (Inr us, w1)"
    using expire_loop_total [of "[reserved_row]" ?w offline] batch late_own db by auto
  obtain rs where "reload_all [reserved_row] w1 = (Inr rs, w1)"
    using reload_all_loaded expire.loop [OF _ loop] batch db by metis
  with loop one have run: "expire_once offline 2 late_world = (Inr rs, w1)"
    unfolding expire_once_Inr expire_batch_def by (simp add: andThen_def db_query_def db)
  have "e_utc offline (Suc (w_ticks late_world)) = 701"
    by (simp add: offline_def sample_simps late_world_def)
  with expiration_leaves_nothing_overdue [OF late_run run] late_due run show ?thesis
    by (auto simp: Let_def)
qed

end
