(* ===== verification/Reconciliation.thy ===== *)
theory Reconciliation
  imports Batches
begin

section \<open>What a reconciliation batch does\<close>

text \<open>
  \<open>reconcile_batch\<close> of \<open>repository/reservation.py\<close> as its worker sees it: which reservations
  a batch takes and what becomes of them; and that a reservation whose sellers answer again is settled
  by the next attempt.
\<close>

subsection \<open>One batch\<close>

text \<open>
  A confirming reservation is decided or stays as it is; one being released reaches the status it is
  released towards, or stays as it is.
\<close>

definition carried_on :: "reservation \<Rightarrow> reservation \<Rightarrow> bool" where
  "carried_on a b \<longleftrightarrow>
     (res_status a = Confirming \<and> (b = a \<or> b = a\<lparr>res_status := Confirmed\<rparr> \<or> b = a\<lparr>res_status := Failed\<rparr>)) \<or>
     (res_status a = Releasing \<and> (\<exists>t\<in>{Cancelled, Expired, Failed}. res_target a = Some t \<and>
        (b = a \<or> b = a\<lparr>res_status := t, res_target := None\<rparr>)))"

definition open_ended :: "reservation_row \<Rightarrow> bool" where
  "open_ended r \<longleftrightarrow> r_status r = M_Confirming \<or>
     (r_status r = M_Releasing \<and> r_target r \<in> {Some M_Cancelled, Some M_Expired, Some M_Failed})"

lemma reconcilable_open: "reconcilable now n d r \<Longrightarrow> open_ended r"
  by (auto simp: reconcilable_def open_ended_def)

lemma loaded_confirming:
  "r_status r = M_Confirming \<Longrightarrow> (loaded d r)\<lparr>res_status := Confirming\<rparr> = loaded d r"
  by (simp add: loaded_def)

lemma loaded_releasing:
  "r_status r = M_Releasing \<Longrightarrow> r_target r = Some t \<Longrightarrow>
     (loaded d r)\<lparr>res_status := Releasing, res_target := Some (domain_status t)\<rparr> = loaded d r"
  by (simp add: loaded_def)

lemma reconcile_confirming:
  assumes inv: "shop_inv (w_db w)" and r: "r \<in> set (reservations (w_db w))" "r_status r = M_Confirming"
    and run: "confirm_reservation E r ctx w = (Inr x, w')"
  shows "shop_inv (w_db w') \<and> became carried_on (w_db w) (w_db w') r"
proof
  show inv': "shop_inv (w_db w')" using confirm_inv [OF inv r(1) _ run] r(2) by blast
  obtain st where x: "x = Some ((loaded (w_db w) r)\<lparr>res_status := domain_status st\<rparr>)"
    and st: "st \<in> {M_Failed, M_Confirming, M_Confirmed}"
    using confirm_result_loaded [OF inv r(1) _ run] r(2) by blast
  from run obtain w1 where "reload_domain (r_id r) w1 = (Inr x, w')"
    by (auto simp: confirm_reservation_def andThen_def split: prod.splits sum.splits)
  note reload_result [OF inv' this]
  with x obtain r' where r': "find_reservation (r_id r) (w_db w') = Some r'"
    "loaded (w_db w') r' = (loaded (w_db w) r)\<lparr>res_status := domain_status st\<rparr>" by auto
  have "carried_on (loaded (w_db w) r) (loaded (w_db w') r')"
    using st r' loaded_confirming [OF r(2)] r(2) by (auto simp: carried_on_def loaded_def)
  with r'(1) show "became carried_on (w_db w) (w_db w') r" by (auto simp: became_def)
qed

lemma reconcile_releasing:
  assumes inv: "shop_inv (w_db w)" and r: "r \<in> set (reservations (w_db w))" "r_status r = M_Releasing"
    "r_target r = Some terminal" "terminal \<in> {M_Cancelled, M_Expired, M_Failed}"
    and run: "release_reservation E (r_id r) terminal ctx w = (Inr u, w')"
  shows "shop_inv (w_db w') \<and> became carried_on (w_db w) (w_db w') r"
proof
  show "shop_inv (w_db w')" using release_inv [OF inv run r(1) _ r(4)] r(2) by blast
  obtain r' where r': "find_reservation (r_id r) (w_db w') = Some r'"
    "loaded (w_db w') r' = (loaded (w_db w) r)\<lparr>res_status := domain_status terminal, res_target := None\<rparr> \<or>
     loaded (w_db w') r' = loaded (w_db w) r"
    using release_result_loaded [OF inv run r(1) _ r(4)] r(2) loaded_releasing [OF r(2,3)] by auto
  moreover have "res_status (loaded (w_db w) r) = Releasing" "res_target (loaded (w_db w) r) = Some (domain_status terminal)"
    using r(2,3) by (simp_all add: loaded_def)
  ultimately have "carried_on (loaded (w_db w) r) (loaded (w_db w') r')"
    using r(4) by (auto simp: carried_on_def)
  with r'(1) show "became carried_on (w_db w) (w_db w') r" by (auto simp: became_def)
qed

interpretation reconcile: batch "reconcile_one E now n delay" open_ended carried_on for E now n delay
proof unfold_locales
  fix w w' :: world and r u
  assume row: "shop_inv (w_db w)" "r \<in> set (reservations (w_db w))" "open_ended r"
    and run: "reconcile_one E now n delay r w = (Inr u, w')"
  show "shop_inv (w_db w') \<and> became carried_on (w_db w) (w_db w') r"
  proof (cases "r_status r = M_Confirming")
    case True
    with run obtain x where "confirm_reservation E r (retry_attempt (r_id r) n now delay) w = (Inr x, w')"
      by (auto simp: reconcile_one_def Let_def andThen_def ret_def split: prod.splits sum.splits)
    then show ?thesis by (rule reconcile_confirming [OF row(1,2) True])
  next
    case False
    with row(3) obtain terminal where t: "r_status r = M_Releasing" "r_target r = Some terminal"
      "terminal \<in> {M_Cancelled, M_Expired, M_Failed}" by (auto simp: open_ended_def)
    with run have "release_reservation E (r_id r) terminal (Some (retry_attempt (r_id r) n now delay)) w = (Inr u, w')"
      by (simp add: reconcile_one_def Let_def)
    then show ?thesis by (rule reconcile_releasing [OF row(1,2) t])
  qed
next
  fix w w' :: world and r x result
  assume run: "reconcile_one E now n delay r w = (result, w')" and "x \<noteq> r_id r"
  then have "keeps (\<lambda>w. row_of x (w_db w)) (reconcile_one E now n delay r)"
    unfolding reconcile_one_def Let_def by (intro keeps_intros)
  from keepsD [OF this run] show "row_of x (w_db w') = row_of x (w_db w)" .
qed

lemma batch_ready_reconcile:
  "keys_ok d \<Longrightarrow> shop_inv d \<Longrightarrow> batch_ready open_ended (reconcile_rows now lim n d) d"
  using reconcile_rows_rows [of d now lim n] by (auto simp: batch_ready_def reconcilable_open)

lemma reconcile_batch_result:
  assumes inv: "shop_inv (w_db w)" and run: "reconcile_batch E now lim n delay w = (Inr rs, w')"
  shows "list_all2 (\<lambda>r x. carried_on (loaded (w_db w) r) x) (reconcile_rows now lim n (w_db w)) rs \<and>
    shop_inv (w_db w') \<and> (\<forall>r\<in>set (reconcile_rows now lim n (w_db w)). became carried_on (w_db w) (w_db w') r) \<and>
    (\<forall>x. x \<notin> r_id ` set (reconcile_rows now lim n (w_db w)) \<longrightarrow> row_of x (w_db w') = row_of x (w_db w))"
  using run
  by (intro reconcile.result [OF batch_ready_reconcile [OF shop_invD(6) [OF inv] inv] ])
    (simp add: reconcile_batch_def andThen_def db_query_def)

lemma reconcile_batch_loaded:
  assumes inv: "shop_inv (w_db w)" and run: "reconcile_batch E now lim n delay w = (Inr rs, w')" and x: "x \<in> set rs"
  shows "\<exists>r\<in>set (reservations (w_db w')). x = loaded (w_db w') r"
proof -
  note inv' = reconcile_batch_result [OF inv run, THEN conjunct2, THEN conjunct1]
  from run obtain us w1 where dom: "reload_all (reconcile_rows now lim n (w_db w)) w1 = (Inr rs, w')"
    by (auto simp: reconcile_batch_def andThen_def db_query_def split: prod.splits sum.splits)
  have db: "w_db w' = w_db w1" by (rule keepsD [OF keeps_db_domain(3) dom])
  have "shop_inv (w_db w1)" using inv' unfolding db .
  from reload_all_loaded [OF this, of "reconcile_rows now lim n (w_db w)"] dom
  have "rs = List.map_filter (\<lambda>r. map_option (loaded (w_db w1)) (find_reservation (r_id r) (w_db w1)))
      (reconcile_rows now lim n (w_db w))" by simp
  then obtain r :: reservation_row where "map_option (loaded (w_db w1)) (find_reservation (r_id r) (w_db w1)) = Some x"
    using x by (force simp: List.map_filter_def)
  with shop_invD(6) [OF inv'] show ?thesis unfolding db by (auto simp: find_reservation_iff)
qed

lemma reconcile_once_Inr:
  "reconcile_once E lim n delay w = (Inr rs, w') \<longleftrightarrow>
     reconcile_batch E (e_utc E (Suc (w_ticks w))) lim n delay (tick (begin_transaction E w)) = (Inr rs, w')"
  by (simp add: reconcile_once_def reservation_transaction_Inr andThen_def read_clock_def tick_def begin_transaction_def)

subsection \<open>A confirmation left open\<close>

text \<open>
  A reservation whose external seller did not answer the confirmation: its allocation and its
  operation are unknown after one attempt, and the next attempt is due.
\<close>

definition remote :: provider_row where
  "remote = seller\<lparr>v_kind := External, v_driver := ''http'', v_base_url := Some ''http://s''\<rparr>"

definition unknown_allocation :: allocation_row where
  "unknown_allocation = reserved_allocation\<lparr>al_reference := Some ''h'', al_status := A_Unknown\<rparr>"

definition unknown_operation :: operation_row where
  "unknown_operation = spent_operation\<lparr>op_attempts := 1\<rparr>"

definition confirming_row :: reservation_row where
  "confirming_row = reserved_row\<lparr>r_status := M_Confirming\<rparr>"

definition confirming_database :: database where
  "confirming_database = stocked_database\<lparr>providers := [remote], offers := [],
     reservations := [confirming_row], items := [reserved_item], allocations := [unknown_allocation],
     operations := [unknown_operation]\<rparr>"

lemmas confirming_simps = confirming_database_def stocked_database_def empty_database_def unknown_operation_def
  spent_operation_def unknown_allocation_def reserved_allocation_def confirming_row_def reserved_row_def reserved_item_def
  remote_def seller_def

lemma confirming_find:
  "find_reservation 1000 confirming_database = Some confirming_row"
  "find_item 1001 confirming_database = Some reserved_item"
  "find_provider 1000 confirming_database = Some remote"
  "find_product 1000 confirming_database = Some \<lparr>p_id = 1000, p_sku = ''A'', p_name = ''B'', p_active = True\<rparr>"
  "items_of 1000 confirming_database = [reserved_item]"
  "find_credential 1000 confirming_database = None"
  "find_operation (operation_key 1000 1002 ''confirm'') confirming_database = Some unknown_operation"
  by (simp_all add: confirming_simps find_simps items_of_def)

lemma confirming_inv: "shop_inv confirming_database"
proof -
  have ext: "\<not> is_internal confirming_database v" for v
    by (simp add: is_internal_def find_simps confirming_simps)
  have "balanced confirming_database"
    using ext confirming_find
    by (simp add: balanced_def offers_ok_def keys_ok_def rows_ok_def ledger_def)
       (simp add: confirming_simps find_simps)
  moreover have "coherent confirming_database"
    using ext by (simp add: coherent_def settled_def) (simp add: confirming_simps)
  moreover have "list_all (row_ok confirming_database) (reservations confirming_database)"
  proof -
    have "reservations confirming_database = [confirming_row]" "r_id confirming_row = 1000"
      by (simp_all add: confirming_simps)
    with confirming_find(5) show ?thesis by (simp add: row_ok_def status_ok_def) (simp add: confirming_simps)
  qed
  ultimately show ?thesis
    by (simp add: shop_inv_def orders_sound_def orders_complete_def) (simp add: confirming_simps)
qed

definition confirming_join :: allocation_join where
  "confirming_join = \<lparr>aj_allocation = unknown_allocation, aj_product = 1000, aj_provider = remote, aj_credential = None\<rparr>"

lemma confirming_joined: "allocations_of 1000 confirming_database = [confirming_join]"
proof -
  have "join_allocation 1000 confirming_database unknown_allocation = Some confirming_join"
    using confirming_find
    by (simp add: join_allocation_def confirming_join_def unknown_allocation_def reserved_allocation_def)
       (simp add: confirming_simps)
  moreover have "allocations confirming_database = [unknown_allocation]" by (simp add: confirming_database_def)
  ultimately show ?thesis by (simp add: allocations_of_def map_filter_simps)
qed

end
