(* ===== verification/Settlement.thy ===== *)
theory Settlement
  imports Reconciliation
begin

section \<open>Sellers that answer again\<close>

text \<open>
  What the bounded retries of the reconciliation worker are for: once the sellers of a reservation
  answer, the next attempt settles it. The calls are followed through the circuit breaker and the
  stored operation, for confirming and for releasing alike.
\<close>

subsection \<open>A call that is answered\<close>

definition answering :: "environment \<Rightarrow> bool" where
  "answering E \<longleftrightarrow> (\<forall>n rq. \<exists>status body. e_reply E n rq = Reply status body \<and> is_success status)"

definition circuits_closed :: "world \<Rightarrow> bool" where
  "circuits_closed w \<longleftrightarrow> (\<forall>pid k. cs_opened (circuit_at pid k w) = None)"

lemma http_call_answered:
  assumes "answering E" and "\<not> isl (request_headers (secret_resolver E) pid (ps_credentials st) key)"
  shows "\<exists>status body w'. http_call E pid st verb url key payload w = (Inr (Reply status body), w') \<and> is_success status \<and>
    w_db w' = w_db w \<and> w_registry w' = w_registry w \<and> w_ids w' = w_ids w"
proof -
  obtain hs where hs: "request_headers (secret_resolver E) pid (ps_credentials st) key = Inr hs"
    using assms(2) by (metis isl_def sum.exhaust)
  let ?rq = "\<lparr>rq_method = verb, rq_url = url, rq_headers = hs, rq_body = payload, rq_timeout = ps_timeout st\<rparr>"
  obtain status body where "e_reply E (length (w_log w)) ?rq = Reply status body" "is_success status"
    using assms(1) unfolding answering_def by blast
  with hs show ?thesis by (simp add: http_call_def prog_simps)
qed

lemma http_confirm_answered:
  assumes "answering E" and "\<not> isl (request_headers (secret_resolver E) pid (ps_credentials st) (cc_key cmd))"
  shows "\<exists>w'. http_confirm E pid st cmd w = (Inr \<lparr>ca_outcome = C_Confirmed\<rparr>, w') \<and>
    w_db w' = w_db w \<and> w_registry w' = w_registry w \<and> w_ids w' = w_ids w"
  using http_call_answered [OF assms, of "''POST''" "hold_url st @ ''/'' @ cc_reference cmd @ ''/confirm''" None w]
  by (auto simp: http_confirm_def andThen_def ret_def is_success_def is_server_error_def)

lemma http_release_answered:
  assumes "answering E" and "\<not> isl (request_headers (secret_resolver E) pid (ps_credentials st) (rc_key cmd))"
  shows "\<exists>w'. http_release E pid st cmd w = (Inr \<lparr>ra_outcome = R_Released\<rparr>, w') \<and>
    w_db w' = w_db w \<and> w_registry w' = w_registry w \<and> w_ids w' = w_ids w"
  using http_call_answered [OF assms, of "''POST''" "hold_url st @ ''/'' @ rc_reference cmd @ ''/release''" None w]
  by (auto simp: http_release_def andThen_def ret_def is_success_def is_server_error_def)

text \<open>A closed circuit admits the call, and an answer leaves it closed.\<close>

lemma execute_answered:
  assumes "cs_opened (circuit_of w) = None" and "operation (put (circuit_of w) w) = (Inr a, w1)" and "\<not> is_unknown a"
  shows "execute cfg circuit_of put clock t is_unknown operation w =
    (Inr a, put ((circuit_of w1)\<lparr>cs_failures := 0, cs_opened := None\<rparr>) w1)"
  using assms by (simp add: execute_def prog_simps admit_def failing_def settle_def settled_result_def)

lemma put_circuit_registry: "w_registry w pid \<noteq> None \<Longrightarrow>
    circuit_at p k (put_circuit pid j c w) = (if p = pid \<and> k = j then c else circuit_at p k w)"
  by (auto simp: put_circuit_def circuit_at_def split: option.splits prod.splits)

lemma circuits_closed_put: "circuits_closed w \<Longrightarrow> cs_opened c = None \<Longrightarrow> circuits_closed (put_circuit pid k c w)"
  unfolding circuits_closed_def
  by (cases "w_registry w pid") (simp_all add: put_circuit_registry, simp add: put_circuit_def)

lemma circuits_closed_registry: "w_registry w' = w_registry w \<Longrightarrow> circuits_closed w' = circuits_closed w"
  by (simp add: circuits_closed_def circuit_at_def)

lemma circuits_closed_db [simp]: "circuits_closed (w\<lparr>w_db := d\<rparr>) = circuits_closed w"
  by (rule circuits_closed_registry) simp

lemma get_external_closed:
  assumes "circuits_closed w"
  shows "\<exists>w'. get_external pid st w = (Inr (), w') \<and> circuits_closed w' \<and> w_db w' = w_db w \<and> w_ids w' = w_ids w"
  using assms
  by (auto simp: get_external_def modify_def circuits_closed_def circuit_at_def closed_circuit_def
      split: option.splits prod.splits)

lemma breaker_answered:
  assumes closed: "circuits_closed w" and fine: "\<not> is_unknown a"
    and op: "\<And>v. \<exists>v'. operation v = (Inr a, v') \<and> w_db v' = w_db v \<and> w_registry v' = w_registry v \<and> w_ids v' = w_ids v"
  shows "\<exists>w'. execute cfg (circuit_at pid k) (put_circuit pid k) clock t is_unknown operation w = (Inr a, w') \<and>
    circuits_closed w' \<and> w_db w' = w_db w \<and> w_ids w' = w_ids w"
proof -
  let ?w0 = "put_circuit pid k (circuit_at pid k w) w"
  have open0: "cs_opened (circuit_at pid k w) = None" using closed by (simp add: circuits_closed_def)
  obtain w1 where w1: "operation ?w0 = (Inr a, w1)" "w_db w1 = w_db ?w0" "w_registry w1 = w_registry ?w0" "w_ids w1 = w_ids ?w0"
    using op by blast
  have "circuits_closed w1" using circuits_closed_put [OF closed open0] circuits_closed_registry [OF w1(3)] by simp
  then have "circuits_closed (put_circuit pid k ((circuit_at pid k w1)\<lparr>cs_failures := 0, cs_opened := None\<rparr>) w1)"
    by (rule circuits_closed_put) simp
  then show ?thesis
    unfolding execute_answered [where circuit_of = "circuit_at pid k" and put = "put_circuit pid k" and w = w
        and operation = operation and is_unknown = is_unknown, OF open0 w1(1) fine]
    using w1 by simp
qed

subsection \<open>An operation that may be tried\<close>

definition callable :: "environment \<Rightarrow> string \<Rightarrow> allocation_row \<Rightarrow> provider_row \<Rightarrow> credential_row option \<Rightarrow> bool" where
  "callable E key a pr credential \<longleftrightarrow> v_driver pr = ''http'' \<and> v_base_url pr \<noteq> None \<and> al_reference a \<noteq> None \<and>
     \<not> isl (request_headers (secret_resolver E) (v_id pr) credential key)"

text \<open>The operation is stored, and it is not one whose outcome is unknown after the last attempt.\<close>

definition retriable :: "string \<Rightarrow> int \<Rightarrow> database \<Rightarrow> bool" where
  "retriable key n d = (case find_operation key d of
     None \<Rightarrow> False | Some x \<Rightarrow> op_status x = Op_Unknown \<longrightarrow> op_attempts x < n)"

text \<open>What settling one operation leaves: the circuits closed and the other operations as they were.\<close>

definition settled_call :: "string \<Rightarrow> world \<Rightarrow> world \<Rightarrow> bool" where
  "settled_call key w w' \<longleftrightarrow> circuits_closed w' \<and> w_ids w' = w_ids w \<and>
     (\<forall>k. k \<noteq> key \<longrightarrow> find_operation k (w_db w') = find_operation k (w_db w))"

lemma find_other_operation:
  assumes "\<And>x. op_key (f x) = op_key x" and "k \<noteq> key"
  shows "find_operation k (map_operation key f d) = find_operation k d"
  using assms(2) find_operation_key [of k d]
  by (cases "find_operation k d") (auto simp: find_map_operation [OF assms(1)])

lemma open_operation_retriable:
  assumes "retriable key (cx_max_attempts ctx) (w_db w)" and "cx_retry_unknown ctx"
  shows "open_operation E ctx a ty key w = (Inr (Inl Op_Succeeded), w) \<or>
    (\<exists>n. open_operation E ctx a ty key w = (Inr (Inr n), w\<lparr>w_db := map_operation key retried_operation (w_db w)\<rparr>))"
  using assms by (auto simp: retriable_def open_operation_def prog_simps split: option.splits)

lemma operation_keys_kept:
  "op_key (retried_operation x) = op_key x" "op_key (close_confirm ctx n c x) = op_key x"
  "op_key (close_release ctx n r x) = op_key x"
  by (simp_all add: retried_operation_def close_confirm_def close_release_def succeed_operation_def
      suspend_operation_def fail_operation_def)

lemma retried_call:
  assumes "circuits_closed w" and "w_db w2 = w_db v" and "w_db v = map_operation key retried_operation (w_db w)"
    and "circuits_closed w2" and "w_ids w2 = w_ids w" and "\<And>x. op_key (f x) = op_key x"
  shows "settled_call key w (w2\<lparr>w_db := map_operation key f (w_db w2)\<rparr>)"
  using assms by (simp add: settled_call_def find_other_operation operation_keys_kept)

lemma confirm_external_settles:
  assumes "answering E" and "circuits_closed w" and "cx_retry_unknown ctx" and "v_confirm pr"
    and "callable E (operation_key (cx_reservation ctx) (al_id a) ''confirm'') a pr c"
    and "retriable (operation_key (cx_reservation ctx) (al_id a) ''confirm'') (cx_max_attempts ctx) (w_db w)"
  shows "\<exists>w'. confirm_external_hold E ctx a pr c w = (Inr C_Confirmed, w') \<and>
    settled_call (operation_key (cx_reservation ctx) (al_id a) ''confirm'') w w'"
proof -
  let ?key = "operation_key (cx_reservation ctx) (al_id a) ''confirm''"
  obtain url ref where fit: "v_base_url pr = Some url" "al_reference a = Some ref" "v_driver pr = ''http''"
    and hs: "\<not> isl (request_headers (secret_resolver E) (v_id pr) c ?key)"
    using assms(5) by (auto simp: callable_def)
  let ?st = "settings_of pr url c" and ?cmd = "\<lparr>cc_reference = ref, cc_key = ?key\<rparr>"
  from open_operation_retriable [OF assms(6,3), of E a Op_Confirm] show ?thesis
  proof (elim disjE exE)
    assume "open_operation E ctx a Op_Confirm ?key w = (Inr (Inl Op_Succeeded), w)"
    then show ?thesis
      using fit assms(2,4) by (simp add: confirm_external_hold_def Let_def andThen_def ret_def settled_call_def)
  next
    fix n
    let ?w1 = "w\<lparr>w_db := map_operation ?key retried_operation (w_db w)\<rparr>"
    assume opened: "open_operation E ctx a Op_Confirm ?key w = (Inr (Inr n), ?w1)"
    have "circuits_closed ?w1" using assms(2) by simp
    from get_external_closed [OF this] obtain v where v: "get_external (v_id pr) ?st ?w1 = (Inr (), v)"
      "circuits_closed v" "w_db v = w_db ?w1" "w_ids v = w_ids w" by force
    obtain w2 where call: "breaker_confirm E (v_id pr) ?st ?cmd v = (Inr \<lparr>ca_outcome = C_Confirmed\<rparr>, w2)"
      "circuits_closed w2" "w_db w2 = w_db v" "w_ids w2 = w_ids v"
      using breaker_answered [OF v(2), of "\<lambda>x. ca_outcome x = C_Unknown" "\<lparr>ca_outcome = C_Confirmed\<rparr>"
          "http_confirm E (v_id pr) ?st ?cmd"] http_confirm_answered [OF assms(1), of "v_id pr" ?st ?cmd] hs
      unfolding breaker_confirm_def by (force simp: settings_of_def)
    have "settled_call ?key w (w2\<lparr>w_db := map_operation ?key (close_confirm ctx n C_Confirmed) (w_db w2)\<rparr>)"
      by (rule retried_call [OF assms(2) call(3)]) (use call v operation_keys_kept in simp_all)
    then show ?thesis
      using fit assms(4) opened v(1) call(1) by (simp add: confirm_external_hold_def Let_def prog_simps)
  qed
qed

lemma release_external_settles:
  assumes "answering E" and "circuits_closed w" and "cx_retry_unknown ctx" and "v_release pr"
    and "callable E (operation_key (cx_reservation ctx) (al_id a) ''release'') a pr c"
    and "retriable (operation_key (cx_reservation ctx) (al_id a) ''release'') (cx_max_attempts ctx) (w_db w)"
  shows "\<exists>w'. release_external_hold E ctx a pr c w = (Inr R_Released, w') \<and>
    settled_call (operation_key (cx_reservation ctx) (al_id a) ''release'') w w'"
proof -
  let ?key = "operation_key (cx_reservation ctx) (al_id a) ''release''"
  obtain url ref where fit: "v_base_url pr = Some url" "al_reference a = Some ref" "v_driver pr = ''http''"
    and hs: "\<not> isl (request_headers (secret_resolver E) (v_id pr) c ?key)"
    using assms(5) by (auto simp: callable_def)
  let ?st = "settings_of pr url c" and ?cmd = "\<lparr>rc_reference = ref, rc_key = ?key\<rparr>"
  from open_operation_retriable [OF assms(6,3), of E a Op_Release] show ?thesis
  proof (elim disjE exE)
    assume "open_operation E ctx a Op_Release ?key w = (Inr (Inl Op_Succeeded), w)"
    then show ?thesis
      using fit assms(2,4) by (simp add: release_external_hold_def Let_def andThen_def ret_def settled_call_def)
  next
    fix n
    let ?w1 = "w\<lparr>w_db := map_operation ?key retried_operation (w_db w)\<rparr>"
    assume opened: "open_operation E ctx a Op_Release ?key w = (Inr (Inr n), ?w1)"
    have "circuits_closed ?w1" using assms(2) by simp
    from get_external_closed [OF this] obtain v where v: "get_external (v_id pr) ?st ?w1 = (Inr (), v)"
      "circuits_closed v" "w_db v = w_db ?w1" "w_ids v = w_ids w" by force
    obtain w2 where call: "breaker_release E (v_id pr) ?st ?cmd v = (Inr \<lparr>ra_outcome = R_Released\<rparr>, w2)"
      "circuits_closed w2" "w_db w2 = w_db v" "w_ids w2 = w_ids v"
      using breaker_answered [OF v(2), of "\<lambda>x. ra_outcome x = R_Unknown" "\<lparr>ra_outcome = R_Released\<rparr>"
          "http_release E (v_id pr) ?st ?cmd"] http_release_answered [OF assms(1), of "v_id pr" ?st ?cmd] hs
      unfolding breaker_release_def by (force simp: settings_of_def)
    have "settled_call ?key w (w2\<lparr>w_db := map_operation ?key (close_release ctx n R_Released) (w_db w2)\<rparr>)"
      by (rule retried_call [OF assms(2) call(3)]) (use call v operation_keys_kept in simp_all)
    then show ?thesis
      using fit assms(4) opened v(1) call(1) by (simp add: release_external_hold_def Let_def prog_simps)
  qed
qed

subsection \<open>One allocation\<close>

text \<open>What of a world decides whether a call goes through.\<close>

definition calls :: "world \<Rightarrow> (uuid \<Rightarrow> (provider_settings \<times> (breaker_call \<Rightarrow> circuit)) option) \<times> operation_row list" where
  "calls w = (w_registry w, operations (w_db w))"

text \<open>
  The allocation can be settled: its seller is internal, or it already is, or its seller supports the
  operation, can be called, and the operation may be tried.
\<close>

definition settles ::
  "environment \<Rightarrow> operation_context \<Rightarrow> string \<Rightarrow> allocation_status \<Rightarrow> (provider_row \<Rightarrow> bool) \<Rightarrow> allocation_join \<Rightarrow> world \<Rightarrow> bool" where
  "settles E ctx suffix final supports j w \<longleftrightarrow> circuits_closed w \<and>
     (let a = aj_allocation j; key = operation_key (cx_reservation ctx) (al_id a) suffix in
      v_kind (aj_provider j) = Internal \<or> al_status a = final \<or>
      (supports (aj_provider j) \<and> callable E key a (aj_provider j) (aj_credential j) \<and>
       retriable key (cx_max_attempts ctx) (w_db w)))"

lemma settles_calls:
  assumes "calls w' = calls w"
  shows "settles E ctx suffix final supports j w' = settles E ctx suffix final supports j w"
proof -
  have "w_registry w' = w_registry w" "operations (w_db w') = operations (w_db w)"
    using assms by (simp_all add: calls_def)
  then show ?thesis
    using circuits_closed_registry [of w' w] by (simp add: settles_def retriable_def find_operation_def)
qed

lemma operation_key_eq: "operation_key rid a suffix = operation_key rid b suffix \<longleftrightarrow> a = b"
  by (simp add: operation_key_def)

lemma settles_others:
  assumes "settled_call (operation_key (cx_reservation ctx) (aj_id j) suffix) w w'" and "aj_id k \<noteq> aj_id j"
    and "settles E ctx suffix final supports k w"
  shows "settles E ctx suffix final supports k w'"
  using assms by (simp add: settles_def settled_call_def retriable_def operation_key_eq aj_id_def Let_def)

lemma settled_call_refl: "circuits_closed w \<Longrightarrow> settled_call key w w"
  by (simp add: settled_call_def)

lemma calls_status: "calls (snd (set_allocation_status aid st w)) = calls w"
  by (simp add: calls_def set_allocation_status_def prog_simps map_allocation_def)

text \<open>Writing an allocation's status takes nothing from the others.\<close>

lemma status_settles:
  fixes w1 and st
  assumes call: "settled_call (operation_key (cx_reservation ctx) (aj_id j) suffix) w w1"
  defines "w' \<equiv> w1\<lparr>w_db := with_status (aj_id j) st (w_db w1)\<rparr>"
  shows "w_ids w' = w_ids w" and "aj_id k \<noteq> aj_id j \<Longrightarrow> settles E ctx suffix final supports k w \<Longrightarrow>
    settles E ctx suffix final supports k w'"
proof -
  show "w_ids w' = w_ids w" using call by (simp add: w'_def settled_call_def)
  have "calls w' = calls w1" by (simp add: w'_def calls_def with_status_def map_allocation_def)
  note same = settles_calls [OF this, of E ctx suffix final supports k]
  assume "aj_id k \<noteq> aj_id j" "settles E ctx suffix final supports k w"
  then show "settles E ctx suffix final supports k w'" unfolding same by (rule settles_others [OF call])
qed

lemma keeps_calls_internal:
  assumes "v_kind (aj_provider j) = Internal"
  shows "keeps calls (confirm_step E ctx j)" and "keeps calls (release_step E ctx j)"
proof -
  have status: "keeps calls (set_allocation_status aid st)" for aid st
    by (rule keepsI) (use calls_status in \<open>metis snd_conv\<close>)
  have offer: "keeps calls (update_offer p v c f)" for p v c f
    unfolding update_offer_def
    by (intro keeps_intros, rule keepsI) (auto simp: calls_def prog_simps map_offer_def split: sum.splits)
  show "keeps calls (confirm_step E ctx j)" "keeps calls (release_step E ctx j)"
    using assms unfolding confirm_step_def release_step_def confirm_allocation_def release_allocation_def
      confirm_hold_def release_hold_def Let_def
    by (auto intro!: keeps_intros status offer)
qed

lemma confirm_step_settles:
  assumes E: "answering E" "cx_retry_unknown ctx" and able: "settles E ctx ''confirm'' A_Confirmed v_confirm j w"
    and bal: "balanced (w_db w)" and j: "joined rid (w_db w) (aj_allocation j) j"
    and fit: "v_kind (aj_provider j) = Internal \<Longrightarrow> confirmable (al_status (aj_allocation j))"
  shows "\<exists>w'. confirm_step E ctx j w = (Inr C_Confirmed, w') \<and> w_ids w' = w_ids w \<and>
    (\<forall>k. aj_id k \<noteq> aj_id j \<longrightarrow> settles E ctx ''confirm'' A_Confirmed v_confirm k w \<longrightarrow>
      settles E ctx ''confirm'' A_Confirmed v_confirm k w')"
proof -
  let ?key = "operation_key (cx_reservation ctx) (aj_id j) ''confirm''"
  consider (own) "v_kind (aj_provider j) = Internal" | (over) "al_status (aj_allocation j) = A_Confirmed"
    | (call) "v_kind (aj_provider j) = External" "al_status (aj_allocation j) \<noteq> A_Confirmed"
    by (cases "v_kind (aj_provider j)") auto
  then show ?thesis
  proof cases
    case own
    obtain w' where run: "confirm_step E ctx j w = (Inr C_Confirmed, w')"
      using confirm_step_internal [OF bal j own, of E ctx] fit [OF own] by (auto simp: confirmable_def)
    have "calls w' = calls w" by (rule keepsD [OF keeps_calls_internal(1) [OF own] run])
    with run keepsD [OF keeps_ids_internal [OF own] run] show ?thesis using settles_calls by blast
  next
    case over
    have "settled_call ?key w w" using able by (intro settled_call_refl) (simp add: settles_def)
    note after = status_settles [OF this, where st = A_Confirmed]
    have "confirm_step E ctx j w = (Inr C_Confirmed, w\<lparr>w_db := with_status (aj_id j) A_Confirmed (w_db w)\<rparr>)"
      using over by (simp add: confirm_step_def confirm_allocation_def prog_simps set_allocation_status_run aj_id_def)
    with after show ?thesis by blast
  next
    case call
    let ?a = "aj_allocation j"
    obtain w1 where run: "confirm_external_hold E ctx ?a (aj_provider j) (aj_credential j) w = (Inr C_Confirmed, w1)"
      and w1: "settled_call ?key w w1"
      using confirm_external_settles [OF E(1) _ E(2), of w "aj_provider j" ?a "aj_credential j"] able call
      by (auto simp: settles_def Let_def aj_id_def)
    note after = status_settles [OF w1, where st = A_Confirmed]
    have "confirm_step E ctx j w = (Inr C_Confirmed, w1\<lparr>w_db := with_status (aj_id j) A_Confirmed (w_db w1)\<rparr>)"
      using run call by (simp add: confirm_step_def confirm_allocation_def prog_simps set_allocation_status_run aj_id_def)
    with after show ?thesis by blast
  qed
qed

lemma release_step_settles:
  assumes E: "answering E" "cx_retry_unknown ctx" and able: "settles E ctx ''release'' A_Released v_release j w"
    and bal: "balanced (w_db w)" and j: "joined rid (w_db w) (aj_allocation j) j"
    and fit: "v_kind (aj_provider j) = Internal \<Longrightarrow> releasable (al_status (aj_allocation j))"
  shows "\<exists>w'. release_step E ctx j w = (Inr R_Released, w') \<and>
    (\<forall>k. aj_id k \<noteq> aj_id j \<longrightarrow> settles E ctx ''release'' A_Released v_release k w \<longrightarrow>
      settles E ctx ''release'' A_Released v_release k w')"
proof -
  let ?key = "operation_key (cx_reservation ctx) (aj_id j) ''release''"
  consider (own) "v_kind (aj_provider j) = Internal" | (over) "al_status (aj_allocation j) = A_Released"
    | (call) "v_kind (aj_provider j) = External" "al_status (aj_allocation j) \<noteq> A_Released"
    by (cases "v_kind (aj_provider j)") auto
  then show ?thesis
  proof cases
    case own
    obtain w' where run: "release_step E ctx j w = (Inr R_Released, w')"
      using release_step_internal [OF bal j own, of E ctx] fit [OF own] by (auto simp: releasable_def)
    have "calls w' = calls w" by (rule keepsD [OF keeps_calls_internal(2) [OF own] run])
    with run show ?thesis using settles_calls by blast
  next
    case over
    have "settled_call ?key w w" using able by (intro settled_call_refl) (simp add: settles_def)
    note after = status_settles [OF this, where st = A_Released]
    have "release_step E ctx j w = (Inr R_Released, w\<lparr>w_db := with_status (aj_id j) A_Released (w_db w)\<rparr>)"
      using over by (simp add: release_step_def release_allocation_def prog_simps set_allocation_status_run aj_id_def)
    with after show ?thesis by blast
  next
    case call
    let ?a = "aj_allocation j"
    obtain w1 where run: "release_external_hold E ctx ?a (aj_provider j) (aj_credential j) w = (Inr R_Released, w1)"
      and w1: "settled_call ?key w w1"
      using release_external_settles [OF E(1) _ E(2), of w "aj_provider j" ?a "aj_credential j"] able call
      by (auto simp: settles_def Let_def aj_id_def)
    note after = status_settles [OF w1, where st = A_Released]
    have "release_step E ctx j w = (Inr R_Released, w1\<lparr>w_db := with_status (aj_id j) A_Released (w_db w1)\<rparr>)"
      using run call by (simp add: release_step_def release_allocation_def prog_simps set_allocation_status_run aj_id_def)
    with after show ?thesis by blast
  qed
qed

subsection \<open>The reservation\<close>

lemma confirming_settles:
  assumes inv: "shop_inv (w_db w)" and wares: "listed (w_db w)" and r: "find_reservation (r_id r) (w_db w) = Some r"
    and st: "r_status r = M_Confirming" and E: "answering E" "cx_retry_unknown ctx"
    and able: "\<forall>j\<in>set (allocations_of (r_id r) (w_db w)). settles E ctx ''confirm'' A_Confirmed v_confirm j w"
    and fresh: "fresh_ids E (w_ids w) (Suc (length (items_of (r_id r) (w_db w))))
      (od_id ` set (orders (w_db w)) \<union> oi_id ` set (order_items (w_db w)))"
  shows "\<exists>x w' r'. confirm_reservation E r ctx w = (Inr x, w') \<and> find_reservation (r_id r) (w_db w') = Some r' \<and>
    r_status r' = M_Confirmed \<and> find_order (r_id r) (w_db w') \<noteq> None"
proof -
  let ?js = "allocations_of (r_id r) (w_db w)"
  have mem: "r \<in> set (reservations (w_db w))" using r shop_invD(6) [OF inv] by (simp add: find_reservation_iff)
  have ready: "confirm_loop.ready (r_id r) ?js (w_db w)" using ready_confirm [OF inv mem] st by simp
  have "\<exists>w0. for_each (confirm_step E ctx) ?js w = (Inr (map (\<lambda>_. C_Confirmed) ?js), w0) \<and> w_ids w0 = w_ids w"
    by (rule confirm_loop.loop_able [where able = "settles E ctx ''confirm'' A_Confirmed v_confirm", OF _ ready able])
      (rule confirm_step_settles [OF E])
  then obtain w0 where loop: "for_each (confirm_step E ctx) ?js w = (Inr (map (\<lambda>_. C_Confirmed) ?js), w0)"
    and ids: "w_ids w0 = w_ids w" by blast
  from confirm_finish [OF inv wares mem _ loop ids fresh] st obtain x w' where
    run: "confirm_reservation E r ctx w = (Inr (Some x), w')" and x: "res_status x = Confirmed"
    and ord: "find_order (r_id r) (w_db w') \<noteq> None" by blast
  have "shop_inv (w_db w')" using confirm_inv [OF inv mem _ run] st by blast
  moreover obtain v where "reload_domain (r_id r) v = (Inr (Some x), w')"
    using run by (auto simp: confirm_reservation_def andThen_def split: prod.splits sum.splits)
  ultimately have "Some x = map_option (loaded (w_db w')) (find_reservation (r_id r) (w_db w'))" by (rule reload_result)
  then obtain r' where r': "find_reservation (r_id r) (w_db w') = Some r'" "x = loaded (w_db w') r'"
    by (cases "find_reservation (r_id r) (w_db w')") auto
  with x have "domain_status (r_status r') = Confirmed" by (simp add: loaded_def)
  then have "r_status r' = M_Confirmed" by (cases "r_status r'") simp_all
  with run r'(1) ord show ?thesis by blast
qed

lemma releasing_settles:
  assumes inv: "shop_inv (w_db w)" and r: "find_reservation (r_id r) (w_db w) = Some r"
    and st: "r_status r = M_Releasing" and E: "answering E" "cx_retry_unknown ctx"
    and able: "\<forall>j\<in>set (allocations_of (r_id r) (w_db w)). settles E ctx ''release'' A_Released v_release j w"
  shows "\<exists>w' r'. release_reservation E (r_id r) terminal (Some ctx) w = (Inr (), w') \<and>
    find_reservation (r_id r) (w_db w') = Some r' \<and> r_status r' = terminal"
proof -
  let ?js = "allocations_of (r_id r) (w_db w)"
  let ?w1 = "w\<lparr>w_db := map_reservation (r_id r) (\<lambda>x. touch (w_now w) x (set_target terminal x)) (w_db w)\<rparr>"
  have mem: "r \<in> set (reservations (w_db w))" using r shop_invD(6) [OF inv] by (simp add: find_reservation_iff)
  have ready: "release_loop.ready (r_id r) ?js (w_db ?w1)"
    using ready_release [of "w_db ?w1" "r_id r"] shop_invD(1) [OF inv] settled_releasable [OF inv mem] st
    by (simp add: balanced_map_reservation set_target_def)
  have same: "calls ?w1 = calls w" by (simp add: calls_def map_reservation_def)
  have able1: "\<forall>j\<in>set ?js. settles E ctx ''release'' A_Released v_release j ?w1"
    unfolding settles_calls [OF same] by (rule able)
  have "\<exists>w2. for_each (release_step E ctx) ?js ?w1 = (Inr (map (\<lambda>_. R_Released) ?js), w2) \<and> () = ()"
    by (rule release_loop.loop_able [where able = "settles E ctx ''release'' A_Released v_release", OF _ ready able1])
      (use release_step_settles [OF E] in simp)
  then obtain w2 where loop: "for_each (release_step E ctx) ?js ?w1 = (Inr (map (\<lambda>_. R_Released) ?js), w2)" by blast
  show ?thesis
    using release_finish [OF inv mem, of E "Some ctx" terminal w2] loop by (auto simp: after_release_def)
qed

text \<open>
  C29. Sellers that answer end the uncertainty. In a database of the shop, when every seller of a
  reservation that is being confirmed or released answers, no circuit is open, and no operation of it
  has used up its attempts, one attempt of the reconciliation worker confirms the reservation, with its
  order, or brings it to the status it is released towards.
\<close>

theorem answering_sellers_settle:
  assumes inv: "shop_inv (w_db w)" "listed (w_db w)" and r: "find_reservation rid (w_db w) = Some r"
    and E: "answering E" and ctx: "ctx = retry_attempt rid n now delay"
    and confirms: "r_status r = M_Confirming \<Longrightarrow>
      (\<forall>j\<in>set (allocations_of rid (w_db w)). settles E ctx ''confirm'' A_Confirmed v_confirm j w) \<and>
      fresh_ids E (w_ids w) (Suc (length (items_of rid (w_db w))))
        (od_id ` set (orders (w_db w)) \<union> oi_id ` set (order_items (w_db w)))"
    and releases: "r_status r = M_Releasing \<Longrightarrow>
      \<forall>j\<in>set (allocations_of rid (w_db w)). settles E ctx ''release'' A_Released v_release j w"
  shows "\<exists>w' r'. reconcile_one E now n delay r w = (Inr (), w') \<and> find_reservation rid (w_db w') = Some r' \<and>
    (r_status r = M_Confirming \<longrightarrow> r_status r' = M_Confirmed \<and> find_order rid (w_db w') \<noteq> None) \<and>
    (\<forall>t. r_status r = M_Releasing \<and> r_target r = Some t \<longrightarrow> r_status r' = t)"
proof -
  have id: "r_id r = rid" using r by (auto simp: find_reservation_def dest: find_SomeD)
  have retry: "cx_retry_unknown ctx" by (simp add: ctx retry_attempt_def)
  show ?thesis
  proof (cases "r_status r = M_Confirming")
    case True
    with confirming_settles [OF inv, of r E ctx] r id E retry confirms obtain x w' r' where
      "confirm_reservation E r ctx w = (Inr x, w')" "find_reservation rid (w_db w') = Some r'"
      "r_status r' = M_Confirmed" "find_order rid (w_db w') \<noteq> None" by auto
    with True show ?thesis by (simp add: reconcile_one_def Let_def andThen_def ret_def id ctx)
  next
    case False
    show ?thesis
    proof (cases "r_status r = M_Releasing \<and> r_target r \<noteq> None")
      case True
      then obtain t where t: "r_target r = Some t" by blast
      with releasing_settles [OF inv(1), of r E ctx t] r id E retry releases True obtain w' r' where
        "release_reservation E rid t (Some ctx) w = (Inr (), w')" "find_reservation rid (w_db w') = Some r'"
        "r_status r' = t" by auto
      with True t show ?thesis by (simp add: reconcile_one_def Let_def id ctx)
    next
      case False
      with r \<open>r_status r \<noteq> M_Confirming\<close> show ?thesis by (auto simp: reconcile_one_def Let_def ret_def)
    qed
  qed
qed

subsection \<open>The open confirmation, answered\<close>

definition replying :: environment where
  "replying = sample_environment (Reply 204 [])"

lemma replying_ready:
  "answering replying" "listed confirming_database" "r_status confirming_row = M_Confirming" "r_id confirming_row = 1000"
  "fresh_ids replying 0 (Suc (length (items_of 1000 confirming_database)))
     (od_id ` set (orders confirming_database) \<union> oi_id ` set (order_items confirming_database))"
proof -
  show "answering replying" by (simp add: answering_def replying_def sample_environment_def is_success_def)
  show "listed confirming_database" by (simp add: listed_def find_product_def confirming_simps)
  show "r_status confirming_row = M_Confirming" "r_id confirming_row = 1000" by (simp_all add: confirming_simps)
  have "e_uuid replying 0 = 1000" "e_uuid replying (Suc 0) = 1001" by (simp_all add: replying_def sample_environment_def)
  moreover have "orders confirming_database = []" "order_items confirming_database = []" by (simp_all add: confirming_simps)
  ultimately show "fresh_ids replying 0 (Suc (length (items_of 1000 confirming_database)))
     (od_id ` set (orders confirming_database) \<union> oi_id ` set (order_items confirming_database))"
    using confirming_find(5) by (simp add: fresh_ids_def)
qed

lemma replying_settles:
  assumes "w_registry w = (\<lambda>_. None)" and "w_db w = confirming_database"
  shows "settles replying (retry_attempt 1000 3 now delay) ''confirm'' A_Confirmed v_confirm confirming_join w"
proof -
  have "circuits_closed w" using assms(1) by (simp add: circuits_closed_def circuit_at_def closed_circuit_def)
  then show ?thesis
    using confirming_find(7) assms(2)
    by (simp add: settles_def callable_def retriable_def retry_attempt_def confirming_join_def unknown_allocation_def
        reserved_allocation_def)
      (simp add: confirming_simps request_headers_def)
qed

theorem answering_sellers_settle_witness:
  "\<exists>w' r'. reconcile_one replying 9 3 1 confirming_row (world_of confirming_database) = (Inr (), w') \<and>
     find_reservation 1000 (w_db w') = Some r' \<and> r_status r' = M_Confirmed \<and> find_order 1000 (w_db w') \<noteq> None"
proof -
  let ?w = "world_of confirming_database"
  have w: "w_registry ?w = (\<lambda>_. None)" "w_db ?w = confirming_database" "w_ids ?w = 0" by (simp_all add: world_of_def)
  show ?thesis
    using answering_sellers_settle [OF _ _ _ replying_ready(1) refl, of ?w 1000 confirming_row 3 9 1]
      replying_settles [OF w(1,2), of 9 1] replying_ready confirming_inv confirming_find(1) confirming_joined w by simp
qed

subsection \<open>One batch of the worker\<close>

text \<open>
  C30. A reconciliation batch carries on what was left open, and nothing else. In a database of the
  shop, a batch that returns has taken the reservations with a retry that is due, the least recently
  updated first and at most as many as its size; for each it answers with the same reservation, either
  decided in the direction it was going or still open; a confirmed one has its order; and every
  reservation it did not take is as before.
\<close>

theorem reconciliation_carries_on:
  assumes "shop_inv (w_db w)" and "reconcile_once E n attempts delay w = (Inr rs, w')"
  shows "let rows = reconcile_rows (e_utc E (Suc (w_ticks w))) n attempts (w_db w) in
    length rows \<le> nat n \<and> list_all2 (\<lambda>r x. carried_on (loaded (w_db w) r) x) rows rs \<and>
    (\<forall>x\<in>set rs. res_status x = Confirmed \<longrightarrow> find_order (res_id x) (w_db w') \<noteq> None) \<and>
    (\<forall>rid. rid \<notin> r_id ` set rows \<longrightarrow> row_of rid (w_db w') = row_of rid (w_db w))"
proof -
  let ?now = "e_utc E (Suc (w_ticks w))" and ?w = "tick (begin_transaction E w)"
  have db: "w_db ?w = w_db w" by (simp add: tick_def)
  have run: "reconcile_batch E ?now n attempts delay ?w = (Inr rs, w')" using assms(2) by (simp add: reconcile_once_Inr)
  note batch = reconcile_batch_result [OF _ run, unfolded db, OF assms(1)]
  have "find_order (res_id x) (w_db w') \<noteq> None" if x: "x \<in> set rs" "res_status x = Confirmed" for x
  proof -
    from reconcile_batch_loaded [OF _ run] assms(1) db x(1) obtain r' where
      r': "r' \<in> set (reservations (w_db w'))" "x = loaded (w_db w') r'" by auto
    with x(2) have "domain_status (r_status r') = Confirmed" by (simp add: loaded_def)
    then have "r_status r' = M_Confirmed" by (cases "r_status r'") simp_all
    with r' shop_invD(5) [of "w_db w'"] batch show ?thesis by (simp add: orders_complete_def loaded_def)
  qed
  with batch show ?thesis by (simp add: reconcile_rows_def Let_def)
qed

theorem reconciliation_carries_on_witness:
  "\<exists>x w'. reconcile_once replying 5 3 1 ((world_of confirming_database)\<lparr>w_ticks := 8\<rparr>) = (Inr [x], w') \<and>
     carried_on (loaded confirming_database confirming_row) x"
proof -
  let ?w = "(world_of confirming_database)\<lparr>w_ticks := 8\<rparr>" and ?d = confirming_database
  let ?v = "tick (begin_transaction replying ?w)" and ?ctx = "retry_attempt 1000 3 9 1"
  have now: "e_utc replying (Suc (w_ticks ?w)) = 9" by (simp add: replying_def sample_simps)
  have "reconcilable 9 3 ?d confirming_row"
    by (simp add: reconcilable_def reconcilable_operation_def find_item_def confirming_simps)
  moreover have "reservations ?d = [confirming_row]" by (simp add: confirming_database_def)
  ultimately have rows: "reconcile_rows 9 5 3 ?d = [confirming_row]" by (simp add: reconcile_rows_def)
  have v: "w_db ?v = ?d" "w_registry ?v = (\<lambda>_. None)" "w_ids ?v = 0" by (simp_all add: tick_def begin_transaction_def world_of_def)
  obtain x w1 where "confirm_reservation replying confirming_row ?ctx ?v = (Inr x, w1)"
    using confirming_settles [of ?v confirming_row replying ?ctx] replying_settles [OF v(2,1)] replying_ready
      confirming_inv confirming_find(1) confirming_joined v by (auto simp: retry_attempt_def)
  then have one: "for_each (reconcile_one replying 9 3 1) [confirming_row] ?v = (Inr [()], w1)"
    using replying_ready(3,4) by (simp add: reconcile_one_def prog_simps)
  have ready: "batch_ready open_ended [confirming_row] (w_db ?v)"
    using batch_ready_reconcile [OF shop_invD(6) [OF confirming_inv] confirming_inv, of 9 5 3] rows v by simp
  from reconcile.loop [OF ready one] have inv1: "shop_inv (w_db w1)" by blast
  from reload_all_loaded [OF inv1] obtain rs where "reload_all [confirming_row] w1 = (Inr rs, w1)" by blast
  with one rows v have "reconcile_batch replying 9 5 3 1 ?v = (Inr rs, w1)"
    by (simp add: reconcile_batch_def andThen_def db_query_def)
  then have run: "reconcile_once replying 5 3 1 ?w = (Inr rs, w1)" unfolding reconcile_once_Inr now .
  have "w_db ?w = ?d" by simp
  with reconciliation_carries_on [OF _ run] confirming_inv rows now run show ?thesis
    by (auto simp: Let_def list_all2_Cons1)
qed

end
