(* ===== verification/External_Mock.thy ===== *)
theory External_Mock
  imports Http_Api "HOL-Library.AList"
begin

section \<open>The external provider simulator\<close>

text \<open>
  \<open>controller/external_provider_mock.py\<close>: a server that answers by the scenario in the
  URL and counts its calls. It is the counterpart the HTTP adapter is exercised against, so this
  theory also runs the two together: which outcome of the provider port each scenario produces.
  Times are in milliseconds for delays and microseconds for instants; how an instant is printed and a
  body is written are parameters.
\<close>

subsection \<open>The server\<close>

datatype mock_call =
    Mock_Health
  | Mock_Reset_Calls
  | Mock_Get_Calls
  | Mock_Availability string uuid
  | Mock_Hold string "json option"
  | Mock_Confirm string string
  | Mock_Release string string

record mock_response =
  mr_delay :: int
  mr_status :: nat
  mr_body :: "json option"

text \<open>\<open>collections.Counter\<close>: \<open>calls[key] += 1\<close>, in the order of the first calls.\<close>

type_synonym call_counter = "(string \<times> int) list"

definition calls_to :: "call_counter \<Rightarrow> string \<Rightarrow> int" where
  "calls_to calls k = (case map_of calls k of None \<Rightarrow> 0 | Some n \<Rightarrow> n)"

definition count_call :: "string \<Rightarrow> string \<Rightarrow> call_counter \<Rightarrow> call_counter" where
  "count_call scenario op calls =
     (let k = scenario @ '':'' @ op in AList.update k (calls_to calls k + 1) calls)"

definition immediately :: "nat \<Rightarrow> json \<Rightarrow> mock_response" where
  "immediately status j = \<lparr>mr_delay = 0, mr_status = status, mr_body = Some j\<rparr>"

definition no_content :: mock_response where
  "no_content = \<lparr>mr_delay = 0, mr_status = 204, mr_body = None\<rparr>"

definition mock_availability :: "(instant \<Rightarrow> string) \<Rightarrow> instant \<Rightarrow> string \<Rightarrow> mock_response" where
  "mock_availability isoformat now scenario =
     (if scenario = ''unexpected'' then immediately 200 (JObj [(''unexpected'', JStr ''payload'')])
      else
        let observed_at = (if scenario = ''stale'' then now - 300000000 else now);
            available_quantity = (if scenario = ''out-of-stock'' \<or> scenario = ''stale'' then 0 else 10)
        in immediately 200 (JObj [(''available_quantity'', JNum available_quantity),
             (''observed_at'', JStr (isoformat observed_at))]))"

definition parse_hold_request :: "codec \<Rightarrow> json \<Rightarrow> (uuid \<times> int) option" where
  "parse_hold_request c j = do {
     kvs \<leftarrow> closed_object [''product_id'', ''quantity''] j;
     product \<leftarrow> required (k_uuid c) kvs ''product_id'';
     quantity \<leftarrow> required (k_int c) kvs ''quantity'';
     quantity \<leftarrow> at_least 1 quantity;
     Some (product, quantity) }"

definition mock_hold :: "uuid \<Rightarrow> string \<Rightarrow> uuid \<Rightarrow> mock_response" where
  "mock_hold fresh scenario product =
     (if scenario = ''server-error'' then immediately 503 (JObj [(''code'', JStr ''provider_unavailable'')])
      else if scenario = ''out-of-stock'' then immediately 409 (JObj [(''code'', JStr ''out_of_stock'')])
      else \<lparr>mr_delay = (if scenario = ''hold-timeout'' then 2000 else 0), mr_status = 201,
        mr_body = Some (JObj [(''hold_reference'',
          JStr (scenario @ ''-'' @ uuid_str product @ ''-'' @ uuid_str fresh))])\<rparr>)"

definition mock_confirm :: "string \<Rightarrow> mock_response" where
  "mock_confirm scenario =
     (let delay = (if scenario = ''confirm-timeout'' then 2000 else 0) in
      if scenario = ''confirm-error''
      then \<lparr>mr_delay = delay, mr_status = 503, mr_body = Some (JObj [(''code'', JStr ''confirmation_unavailable'')])\<rparr>
      else \<lparr>mr_delay = delay, mr_status = 204, mr_body = None\<rparr>)"

text \<open>A hold whose body does not fit its model is refused by the framework and not counted.\<close>

definition mock_step :: "codec \<Rightarrow> (instant \<Rightarrow> string) \<Rightarrow> instant \<Rightarrow> uuid \<Rightarrow> mock_call \<Rightarrow> call_counter \<Rightarrow>
    mock_response \<times> call_counter" where
  "mock_step c isoformat now fresh call calls = (case call of
     Mock_Health \<Rightarrow> (immediately 200 (JObj [(''status'', JStr ''ok'')]), calls)
   | Mock_Reset_Calls \<Rightarrow> (no_content, [])
   | Mock_Get_Calls \<Rightarrow> (immediately 200 (JObj (map (\<lambda>(k, n). (k, JNum n)) calls)), calls)
   | Mock_Availability scenario product \<Rightarrow>
       (mock_availability isoformat now scenario, count_call scenario ''availability'' calls)
   | Mock_Hold scenario body \<Rightarrow>
       (case Option.bind body (parse_hold_request c) of
          None \<Rightarrow> (\<lparr>mr_delay = 0, mr_status = 422, mr_body = None\<rparr>, calls)
        | Some (product, quantity) \<Rightarrow> (mock_hold fresh scenario product, count_call scenario ''hold'' calls))
   | Mock_Confirm scenario reference \<Rightarrow> (mock_confirm scenario, count_call scenario ''confirm'' calls)
   | Mock_Release scenario reference \<Rightarrow> (no_content, count_call scenario ''release'' calls))"

subsection \<open>Together with the adapter\<close>

text \<open>What a client with a timeout sees of a response.\<close>

definition delivered :: "(json \<Rightarrow> string) \<Rightarrow> int \<Rightarrow> mock_response \<Rightarrow> http_reply" where
  "delivered write timeout r =
     (if timeout \<le> mr_delay r then Timed_Out
      else Reply (mr_status r) (case mr_body r of None \<Rightarrow> [] | Some j \<Rightarrow> write j))"

text \<open>
  The next request of a world goes to the simulator: the reply to it is what the simulator sends
  for the call its URL stands for, and its body is read back as the JSON that was written.
\<close>

definition answered_by :: "environment \<Rightarrow> world \<Rightarrow> codec \<Rightarrow> (instant \<Rightarrow> string) \<Rightarrow> instant \<Rightarrow> uuid \<Rightarrow> (json \<Rightarrow> string) \<Rightarrow>
    call_counter \<Rightarrow> (json option \<Rightarrow> mock_call) \<Rightarrow> bool" where
  "answered_by E w c isoformat now fresh write calls call \<longleftrightarrow> (\<forall>rq.
     let r = fst (mock_step c isoformat now fresh (call (rq_body rq)) calls) in
     e_reply E (length (w_log w)) rq = delivered write (rq_timeout rq) r \<and>
     (case mr_body r of None \<Rightarrow> True | Some j \<Rightarrow> e_json E (write j) = Some j))"

text \<open>
  What pydantic and the standard library do with what the two write: a UUID is read back from its text,
  an integer as itself, an instant printed with its zone as itself.
\<close>

definition reads_back :: "environment \<Rightarrow> codec \<Rightarrow> (instant \<Rightarrow> string) \<Rightarrow> uuid \<Rightarrow> instant \<Rightarrow> bool" where
  "reads_back E c isoformat p now \<longleftrightarrow> k_uuid c (JStr (uuid_str p)) = Some p \<and>
     (\<forall>n. k_int c (JNum n) = Some n) \<and> (\<forall>n. e_int E (JNum n) = Some n) \<and>
     (\<forall>t\<in>{now, now - 300000000}. e_datetime E (JStr (isoformat t)) = Some (t, True))"

lemma parse_hold_written:
  assumes "reads_back E c isoformat p now" and "0 < q"
  shows "parse_hold_request c (JObj [(''product_id'', JStr (uuid_str p)), (''quantity'', JNum q)]) = Some (p, q)"
  using assms by (simp add: parse_hold_request_def closed_object_def required_def member_def at_least_def reads_back_def)

lemma answered_reply:
  assumes "answered_by E w c isoformat now fresh write calls call"
    and "fst (mock_step c isoformat now fresh (call (rq_body rq)) calls) = r"
  shows "e_reply E (length (w_log w)) rq = delivered write (rq_timeout rq) r"
    and "mr_body r = Some j \<Longrightarrow> e_json E (write j) = Some j"
  using assms by (auto simp: answered_by_def Let_def dest!: spec [of _ rq])

text \<open>
  C39. The simulator exercises the whole port. With a client that waits less than two seconds, the
  adapter's hold on the simulator is refused as out of stock, fails, is of unknown outcome or gives the
  simulator's reference; its confirmation fails, is unknown or confirmed; its release succeeds; and
  its availability is an error, stale, or fresh with the simulated quantity: each by the scenario alone.
\<close>

theorem simulator_scenarios:
  assumes codec: "reads_back E c isoformat p now"
    and client: "ps_credentials st = None" "0 < ps_timeout st" "ps_timeout st < 2000" "0 < q"
    and now: "now \<le> e_utc E (w_ticks w)" "e_utc E (w_ticks w) - now \<le> 60000000"
  shows "(answered_by E w c isoformat now fresh write calls (Mock_Hold scenario) \<longrightarrow>
      fst (http_hold E pid st \<lparr>hc_product = p, hc_quantity = q, hc_key = key\<rparr> w) =
        (if scenario = ''server-error'' then Inl (ProviderCallFailedError pid)
         else if scenario = ''out-of-stock'' then Inr hold_out_of_stock
         else if scenario = ''hold-timeout'' then Inr hold_unknown
         else Inr (hold_held (Some (scenario @ ''-'' @ uuid_str p @ ''-'' @ uuid_str fresh))))) \<and>
    (answered_by E w c isoformat now fresh write calls (\<lambda>_. Mock_Confirm scenario reference) \<longrightarrow>
      fst (http_confirm E pid st \<lparr>cc_reference = reference, cc_key = key\<rparr> w) =
        (if scenario = ''confirm-timeout'' then Inr \<lparr>ca_outcome = C_Unknown\<rparr>
         else if scenario = ''confirm-error'' then Inl (ProviderCallFailedError pid)
         else Inr \<lparr>ca_outcome = C_Confirmed\<rparr>)) \<and>
    (answered_by E w c isoformat now fresh write calls (\<lambda>_. Mock_Release scenario reference) \<longrightarrow>
      fst (http_release E pid st \<lparr>rc_reference = reference, rc_key = key\<rparr> w) = Inr \<lparr>ra_outcome = R_Released\<rparr>) \<and>
    (answered_by E w c isoformat now fresh write calls (\<lambda>_. Mock_Availability scenario p) \<longrightarrow>
      fst (http_availability E pid st \<lparr>ac_product = p\<rparr> w) =
        (if scenario = ''unexpected'' then Inl (ProviderCallFailedError pid)
         else if scenario = ''stale'' then Inr (availability_stale 0 (Some (now - 300000000)))
         else Inr (availability_fresh (if scenario = ''out-of-stock'' then 0 else 10) (Some now))))"
proof (intro conjI impI)
  assume sim: "answered_by E w c isoformat now fresh write calls (Mock_Hold scenario)"
  let ?rq = "\<lparr>rq_method = ''POST'', rq_url = hold_url st, rq_headers = [(''Idempotency-Key'', key)],
      rq_body = Some (JObj [(''product_id'', JStr (uuid_str p)), (''quantity'', JNum q)]), rq_timeout = ps_timeout st\<rparr>"
  have reply: "e_reply E (length (w_log w)) ?rq = delivered write (ps_timeout st) (mock_hold fresh scenario p)"
    using answered_reply(1) [OF sim, where rq = ?rq and r = "mock_hold fresh scenario p"] parse_hold_written [OF codec client(4)] by (simp add: mock_step_def)
  have body: "mr_body (mock_hold fresh scenario p) = Some j \<Longrightarrow> e_json E (write j) = Some j" for j
    using answered_reply(2) [OF sim, where r = "mock_hold fresh scenario p" and rq = ?rq] parse_hold_written [OF codec client(4)] by (simp add: mock_step_def)
  show "fst (http_hold E pid st \<lparr>hc_product = p, hc_quantity = q, hc_key = key\<rparr> w) =
        (if scenario = ''server-error'' then Inl (ProviderCallFailedError pid)
         else if scenario = ''out-of-stock'' then Inr hold_out_of_stock
         else if scenario = ''hold-timeout'' then Inr hold_unknown
         else Inr (hold_held (Some (scenario @ ''-'' @ uuid_str p @ ''-'' @ uuid_str fresh))))"
    using client reply body
    by (auto simp: http_hold_def http_call_def request_headers_def prog_simps mock_hold_def
        delivered_def immediately_def is_server_error_def is_success_def parse_hold_def)
next
  assume sim: "answered_by E w c isoformat now fresh write calls (\<lambda>_. Mock_Confirm scenario reference)"
  let ?rq = "\<lparr>rq_method = ''POST'', rq_url = hold_url st @ ''/'' @ reference @ ''/confirm'', rq_headers = [(''Idempotency-Key'', key)],
      rq_body = None, rq_timeout = ps_timeout st\<rparr>"
  have reply: "e_reply E (length (w_log w)) ?rq = delivered write (ps_timeout st) (mock_confirm scenario)"
    using answered_reply(1) [OF sim, where rq = ?rq and r = "mock_confirm scenario"] by (simp add: mock_step_def)
  have body: "mr_body (mock_confirm scenario) = Some j \<Longrightarrow> e_json E (write j) = Some j" for j
    using answered_reply(2) [OF sim, where r = "mock_confirm scenario"] by (simp add: mock_step_def)
  show "fst (http_confirm E pid st \<lparr>cc_reference = reference, cc_key = key\<rparr> w) =
        (if scenario = ''confirm-timeout'' then Inr \<lparr>ca_outcome = C_Unknown\<rparr>
         else if scenario = ''confirm-error'' then Inl (ProviderCallFailedError pid)
         else Inr \<lparr>ca_outcome = C_Confirmed\<rparr>)"
    using client reply body
    by (auto simp: http_confirm_def http_call_def request_headers_def prog_simps
        mock_confirm_def delivered_def is_server_error_def is_success_def)
next
  assume sim: "answered_by E w c isoformat now fresh write calls (\<lambda>_. Mock_Release scenario reference)"
  let ?rq = "\<lparr>rq_method = ''POST'', rq_url = hold_url st @ ''/'' @ reference @ ''/release'', rq_headers = [(''Idempotency-Key'', key)],
      rq_body = None, rq_timeout = ps_timeout st\<rparr>"
  have reply: "e_reply E (length (w_log w)) ?rq = delivered write (ps_timeout st) (no_content)"
    using answered_reply(1) [OF sim, where rq = ?rq and r = no_content] by (simp add: mock_step_def)
  have body: "mr_body (no_content) = Some j \<Longrightarrow> e_json E (write j) = Some j" for j
    using answered_reply(2) [OF sim, where r = no_content] by (simp add: mock_step_def)
  show "fst (http_release E pid st \<lparr>rc_reference = reference, rc_key = key\<rparr> w) = Inr \<lparr>ra_outcome = R_Released\<rparr>"
    using client reply body
    by (auto simp: http_release_def http_call_def request_headers_def prog_simps
        no_content_def delivered_def is_server_error_def is_success_def)
next
  assume sim: "answered_by E w c isoformat now fresh write calls (\<lambda>_. Mock_Availability scenario p)"
  let ?rq = "\<lparr>rq_method = ''GET'', rq_url = removesuffix ''/holds'' (hold_url st) @ ''/availability/'' @ uuid_str p, rq_headers = [(''Idempotency-Key'', ''availability:product:'' @ uuid_str p)],
      rq_body = None, rq_timeout = ps_timeout st\<rparr>"
  have reply: "e_reply E (length (w_log w)) ?rq = delivered write (ps_timeout st) (mock_availability isoformat now scenario)"
    using answered_reply(1) [OF sim, where rq = ?rq and r = "mock_availability isoformat now scenario"] by (simp add: mock_step_def)
  have body: "mr_body (mock_availability isoformat now scenario) = Some j \<Longrightarrow> e_json E (write j) = Some j" for j
    using answered_reply(2) [OF sim, where r = "mock_availability isoformat now scenario"] by (simp add: mock_step_def)
  show "fst (http_availability E pid st \<lparr>ac_product = p\<rparr> w) =
        (if scenario = ''unexpected'' then Inl (ProviderCallFailedError pid)
         else if scenario = ''stale'' then Inr (availability_stale 0 (Some (now - 300000000)))
         else Inr (availability_fresh (if scenario = ''out-of-stock'' then 0 else 10) (Some now)))"
    using client codec now reply body
    by (auto simp: http_availability_def http_call_def request_headers_def prog_simps
        mock_availability_def immediately_def delivered_def is_server_error_def is_success_def parse_availability_def
        reads_back_def availability_max_age_def Let_def)
qed

text \<open>The simulator behind an adapter that asks for two pieces of a product that is out of stock.\<close>

definition simulator_codec :: codec where
  "simulator_codec = \<lparr>k_text_uuid = (\<lambda>_. None), k_uuid = (\<lambda>_. Some 5),
     k_int = (\<lambda>j. case j of JNum n \<Rightarrow> Some n | _ \<Rightarrow> None), k_bool = (\<lambda>_. None), k_time = (\<lambda>_. [])\<rparr>"

definition simulator_time :: "instant \<Rightarrow> string" where
  "simulator_time t = (if t = 0 then ''now'' else ''then'')"

definition simulated :: environment where
  "simulated = (sample_environment Timed_Out)
     \<lparr>e_reply := (\<lambda>_ rq. delivered (\<lambda>_. ''body'') (rq_timeout rq)
        (fst (mock_step simulator_codec simulator_time 0 9 (Mock_Hold ''out-of-stock'' (rq_body rq)) []))),
      e_json := (\<lambda>_. Some (JObj [(''code'', JStr ''out_of_stock'')])),
      e_int := k_int simulator_codec,
      e_datetime := (\<lambda>j. Some (if j = JStr ''now'' then 0 else - 300000000, True))\<rparr>"

theorem simulator_scenarios_witness:
  "fst (http_hold simulated 5 \<lparr>ps_base_url = ''http://mock/scenarios/out-of-stock'', ps_timeout = 1000,
      ps_credentials = None\<rparr> \<lparr>hc_product = 5, hc_quantity = 2, hc_key = ''k''\<rparr> (world_of empty_database)) =
    Inr hold_out_of_stock"
proof -
  let ?w = "world_of empty_database"
  have reads: "reads_back simulated simulator_codec simulator_time 5 0"
    by (simp add: reads_back_def simulated_def simulator_codec_def simulator_time_def sample_simps)
  have sim: "answered_by simulated ?w simulator_codec simulator_time 0 9 (\<lambda>_. ''body'') [] (Mock_Hold ''out-of-stock'')"
    by (auto simp: answered_by_def simulated_def Let_def mock_step_def mock_hold_def immediately_def sample_simps
        split: option.splits)
  have "0 \<le> e_utc simulated (w_ticks ?w)" "e_utc simulated (w_ticks ?w) - 0 \<le> 60000000"
    by (simp_all add: simulated_def sample_simps)
  from simulator_scenarios [OF reads _ _ _ _ this, of "\<lparr>ps_base_url = ''http://mock/scenarios/out-of-stock'',
      ps_timeout = 1000, ps_credentials = None\<rparr>" 2] sim
  show ?thesis by auto
qed

end
