(* ===== verification/Settings.thy ===== *)
theory Settings
  imports Workers
begin

section \<open>The settings of the processes\<close>

text \<open>
  \<open>controller/main.py\<close>, \<open>controller/expiration_worker.py\<close> and
  \<open>controller/reconciliation_worker.py\<close>: what each process reads from its environment, with
  which default. \<open>int(text)\<close> is written out; \<open>float(text)\<close> as a time
  in microseconds, or the error it raises, is the parameter \<open>seconds\<close>. A text that does not
  parse, or a configuration that is refused, is an error that ends the process before its first batch (theory \<open>Processes\<close>).
\<close>

subsection \<open>\<open>int(text)\<close>\<close>

definition is_digit :: "char \<Rightarrow> bool" where
  "is_digit c \<longleftrightarrow> 48 \<le> code c \<and> code c \<le> 57"

definition digit_value :: "char \<Rightarrow> int" where
  "digit_value c = int (code c) - 48"

text \<open>Digits, with single underscores between them.\<close>

fun digits_value :: "int \<Rightarrow> string \<Rightarrow> int option" where
  "digits_value n [] = Some n"
| "digits_value n (c # cs) =
     (if is_digit c then digits_value (10 * n + digit_value c) cs
      else if c = CHR ''_'' then (case cs of [] \<Rightarrow> None | d # _ \<Rightarrow> if is_digit d then digits_value n cs else None)
      else None)"

definition unsigned_int :: "string \<Rightarrow> int option" where
  "unsigned_int ds = (case ds of
     [] \<Rightarrow> None
   | c # _ \<Rightarrow> if is_digit c \<and> length (filter is_digit ds) \<le> 4300 then digits_value 0 ds else None)"

definition py_int :: "string \<Rightarrow> exn + int" where
  "py_int s = (let t = py_strip s;
       n = (case t of
          c # ds \<Rightarrow> if c = CHR ''-'' then map_option uminus (unsigned_int ds)
            else if c = CHR ''+'' then unsigned_int ds else unsigned_int t
        | [] \<Rightarrow> None)
     in case n of None \<Rightarrow> Inl PyValueError | Some i \<Rightarrow> Inr i)"

lemma digits_value_append:
  "list_all is_digit xs \<Longrightarrow> digits_value n (xs @ ys) = digits_value (foldl (\<lambda>a c. 10 * a + digit_value c) n xs) ys"
  by (induction xs arbitrary: n) auto

lemma digit_of_char: "n < 10 \<Longrightarrow> is_digit (digit_char n) \<and> digit_value (digit_char n) = int n"
  by (simp add: is_digit_def digit_value_def digit_char_code)

lemma dec_all_digits: "list_all is_digit (dec n)"
  using dec_digits by (auto simp: list_all_iff is_digit_def)

lemma digits_value_dec: "digits_value 0 (dec n) = Some (int n)"
proof (induction n rule: dec.induct)
  case (1 n)
  show ?case
  proof (cases "n < 10")
    case True
    then show ?thesis using digit_of_char [of n] by (simp add: dec.simps [of n])
  next
    case False
    have "n mod 10 < 10" by simp
    then have last: "is_digit (digit_char (n mod 10))" "digit_value (digit_char (n mod 10)) = int (n mod 10)"
      using digit_of_char by blast+
    let ?fold = "foldl (\<lambda>a c. 10 * a + digit_value c) 0 (dec (n div 10))"
    have "?fold = int (n div 10)"
      using "1.IH" [OF False] digits_value_append [OF dec_all_digits, of 0 "n div 10" "[]"] by simp
    then have "digits_value 0 (dec n) = Some (10 * int (n div 10) + int (n mod 10))"
      using False last digits_value_append [OF dec_all_digits, of 0 "n div 10" "[digit_char (n mod 10)]"]
      by (simp add: dec.simps [of n])
    then show ?thesis by (simp add: zdiv_int zmod_int)
  qed
qed

lemma length_dec: "length (dec n) \<le> Suc n"
proof (induction n rule: dec.induct)
  case (1 n)
  then show ?case by (cases "n < 10") (simp_all add: dec.simps [of n])
qed

lemma digits_no_space: "list_all is_digit ds \<Longrightarrow> ds \<noteq> [] \<Longrightarrow> py_strip ds = ds"
proof -
  have no: "is_digit c \<Longrightarrow> \<not> py_space c" for c by (auto simp: is_digit_def py_space_def Let_def)
  assume digits: "list_all is_digit ds" "ds \<noteq> []"
  then have "\<not> py_space (hd ds)" "\<not> py_space (last ds)" using no by (auto simp: list_all_iff)
  then have "dropWhile py_space ds = ds" "dropWhile py_space (rev ds) = rev ds"
    using digits(2) by (simp_all add: dropWhile_eq_self_iff hd_rev)
  then show ?thesis by (simp add: py_strip_def)
qed

lemma unsigned_int_dec: "length (dec n) \<le> 4300 \<Longrightarrow> unsigned_int (dec n) = Some (int n)"
  using dec_all_digits [of n] digits_value_dec [of n]
  by (cases "dec n") (auto simp: unsigned_int_def list_all_iff intro: le_trans [OF length_filter_le])

text \<open>\<open>int(str(n))\<close>, which is how the defaults are read\<close>

lemma py_int_dec:
  assumes "length (dec n) \<le> 4300"
  shows "py_int (dec n) = Inr (int n)"
proof -
  have "is_digit c \<Longrightarrow> c \<noteq> CHR ''-'' \<and> c \<noteq> CHR ''+''" for c by (auto simp: is_digit_def code_def)
  moreover obtain c cs where c: "dec n = c # cs" by (metis dec_ne neq_Nil_conv)
  moreover have "is_digit c" using dec_all_digits [of n] by (simp add: c)
  moreover have "py_strip (dec n) = dec n" by (rule digits_no_space [OF dec_all_digits dec_ne])
  ultimately show ?thesis using unsigned_int_dec [OF assms] by (simp add: py_int_def Let_def)
qed

subsection \<open>Reading the environment\<close>

type_synonym environ = "string \<Rightarrow> string option"

definition getenv :: "environ \<Rightarrow> string \<Rightarrow> string \<Rightarrow> string" where
  "getenv env name fallback = (case env name of None \<Rightarrow> fallback | Some v \<Rightarrow> v)"

definition sum_bind :: "'e + 'a \<Rightarrow> ('a \<Rightarrow> 'e + 'b) \<Rightarrow> 'e + 'b" where
  "sum_bind x f = (case x of Inl e \<Rightarrow> Inl e | Inr y \<Rightarrow> f y)"

definition breaker_settings :: "(string \<Rightarrow> exn + duration) \<Rightarrow> environ \<Rightarrow> exn + breaker_config" where
  "breaker_settings seconds env =
     sum_bind (py_int (getenv env ''PROVIDER_FAILURE_THRESHOLD'' (int_str 3))) (\<lambda>threshold.
     sum_bind (seconds (getenv env ''PROVIDER_RECOVERY_TIMEOUT_SECONDS'' ''30.0'')) (\<lambda>timeout.
       Inr \<lparr>bc_threshold = threshold, bc_timeout = timeout\<rparr>))"

text \<open>\<open>timedelta(seconds=...)\<close> of an integer: at most 999999999 days either way.\<close>

definition timedelta_seconds :: "int \<Rightarrow> exn + duration" where
  "timedelta_seconds n = (if \<bar>n div 86400\<bar> \<le> 999999999 then Inr (n * 1000000) else Inl PyOverflowError)"

text \<open>\<open>build_app\<close>: the circuit breakers' settings and the lifetime of a reservation.\<close>

definition app_settings :: "(string \<Rightarrow> exn + duration) \<Rightarrow> environ \<Rightarrow> exn + breaker_config \<times> duration" where
  "app_settings seconds env =
     sum_bind (breaker_settings seconds env) (\<lambda>breaker.
     sum_bind (py_int (getenv env ''RESERVATION_TTL_SECONDS'' (int_str 900))) (\<lambda>ttl.
     sum_bind (timedelta_seconds ttl) (\<lambda>ttl. Inr (breaker, ttl))))"

text \<open>
  \<open>run_expiration_worker\<close> and \<open>run_reconciliation_worker\<close>: the port of the metrics server,
  then the settings of the worker.
\<close>

definition expiration_port :: "environ \<Rightarrow> exn + int" where
  "expiration_port env = py_int (getenv env ''EXPIRATION_METRICS_PORT'' (int_str 9101))"

definition expiration_settings :: "(string \<Rightarrow> exn + duration) \<Rightarrow> environ \<Rightarrow> exn + breaker_config \<times> expiration_config" where
  "expiration_settings seconds env =
     sum_bind (breaker_settings seconds env) (\<lambda>breaker.
     sum_bind (py_int (getenv env ''EXPIRATION_BATCH_SIZE'' (int_str 100))) (\<lambda>batch_size.
     sum_bind (seconds (getenv env ''EXPIRATION_POLL_INTERVAL_SECONDS'' ''5.0'')) (\<lambda>poll_interval.
     sum_bind (mk_expiration_config \<lparr>ec_batch_size = batch_size, ec_poll_interval = poll_interval\<rparr>) (\<lambda>config.
       Inr (breaker, config)))))"

definition reconciliation_port :: "environ \<Rightarrow> exn + int" where
  "reconciliation_port env = py_int (getenv env ''RECONCILIATION_METRICS_PORT'' (int_str 9102))"

definition reconciliation_settings ::
  "(string \<Rightarrow> exn + duration) \<Rightarrow> environ \<Rightarrow> exn + breaker_config \<times> reconciliation_config" where
  "reconciliation_settings seconds env =
     sum_bind (breaker_settings seconds env) (\<lambda>breaker.
     sum_bind (py_int (getenv env ''RECONCILIATION_BATCH_SIZE'' (int_str 100))) (\<lambda>batch_size.
     sum_bind (py_int (getenv env ''RECONCILIATION_MAX_ATTEMPTS'' (int_str 3))) (\<lambda>max_attempts.
     sum_bind (seconds (getenv env ''RECONCILIATION_POLL_INTERVAL_SECONDS'' ''5.0'')) (\<lambda>poll_interval.
     sum_bind (seconds (getenv env ''RECONCILIATION_RETRY_BASE_DELAY_SECONDS'' ''30.0'')) (\<lambda>retry_base_delay.
     sum_bind (mk_reconciliation_config \<lparr>rc_batch_size = batch_size, rc_max_attempts = max_attempts,
         rc_poll_interval = poll_interval, rc_retry_base_delay = retry_base_delay\<rparr>) (\<lambda>config.
       Inr (breaker, config)))))))"

lemma sum_bind_Inr: "sum_bind x f = Inr y \<longleftrightarrow> (\<exists>z. x = Inr z \<and> f z = Inr y)"
  by (simp add: sum_bind_def split: sum.split)

lemma sum_bind_simps [simp]: "sum_bind (Inr x) f = f x" "sum_bind (Inl e) f = Inl e"
  by (simp_all add: sum_bind_def)

lemma default_ints:
  "py_int (int_str 3) = Inr 3" "py_int (int_str 100) = Inr 100" "py_int (int_str 900) = Inr 900"
  "py_int (int_str 9101) = Inr 9101" "py_int (int_str 9102) = Inr 9102"
proof -
  have "length (dec n) \<le> 4300" if "n < 10000" for n
  proof -
    have "n div 10 < 1000" using that by (simp add: less_mult_imp_div_less)
    then show ?thesis using length_dec [of "n div 10"] by (simp add: dec.simps [of n])
  qed
  note this [THEN py_int_dec]
  from this [of 3] this [of 100] this [of 900] this [of 9101] this [of 9102]
  show "py_int (int_str 3) = Inr 3" "py_int (int_str 100) = Inr 100" "py_int (int_str 900) = Inr 900"
    "py_int (int_str 9101) = Inr 9101" "py_int (int_str 9102) = Inr 9102"
    by (simp_all add: int_str_def)
qed

text \<open>
  Workers start only with settings they can run with. An environment without any of the variables gives
  the documented defaults; and whatever it holds, settings that are accepted have positive batch sizes,
  bounds, intervals and delays.
\<close>

theorem worker_settings:
  assumes "seconds ''5.0'' = Inr 5000000" "seconds ''30.0'' = Inr 30000000"
  shows "expiration_port (\<lambda>_. None) = Inr 9101 \<and> reconciliation_port (\<lambda>_. None) = Inr 9102 \<and>
    expiration_settings seconds (\<lambda>_. None) = Inr (\<lparr>bc_threshold = 3, bc_timeout = 30000000\<rparr>,
      \<lparr>ec_batch_size = 100, ec_poll_interval = 5000000\<rparr>) \<and>
    reconciliation_settings seconds (\<lambda>_. None) = Inr (\<lparr>bc_threshold = 3, bc_timeout = 30000000\<rparr>,
      \<lparr>rc_batch_size = 100, rc_max_attempts = 3, rc_poll_interval = 5000000, rc_retry_base_delay = 30000000\<rparr>) \<and>
    (\<forall>breaker c. expiration_settings seconds env = Inr (breaker, c) \<longrightarrow> 0 < ec_batch_size c \<and> 0 < ec_poll_interval c) \<and>
    (\<forall>breaker c. reconciliation_settings seconds env = Inr (breaker, c) \<longrightarrow> 0 < rc_batch_size c \<and> 0 < rc_max_attempts c \<and>
       0 < rc_poll_interval c \<and> 0 < rc_retry_base_delay c)"
proof -
  have configs: "mk_expiration_config c = Inr c' \<Longrightarrow> 0 < ec_batch_size c' \<and> 0 < ec_poll_interval c'"
    "mk_reconciliation_config d = Inr d' \<Longrightarrow> 0 < rc_batch_size d' \<and> 0 < rc_max_attempts d' \<and>
       0 < rc_poll_interval d' \<and> 0 < rc_retry_base_delay d'" for c c' d d'
    by (auto simp: mk_expiration_config_def mk_reconciliation_config_def split: if_splits)
  have "expiration_settings seconds env = Inr (b, c) \<Longrightarrow> 0 < ec_batch_size c \<and> 0 < ec_poll_interval c" for b c
    using configs(1) by (auto simp: expiration_settings_def sum_bind_Inr)
  moreover have "reconciliation_settings seconds env = Inr (b, c) \<Longrightarrow> 0 < rc_batch_size c \<and>
      0 < rc_max_attempts c \<and> 0 < rc_poll_interval c \<and> 0 < rc_retry_base_delay c" for b c
    using configs(2) by (auto simp: reconciliation_settings_def sum_bind_Inr)
  ultimately show ?thesis
    by (simp add: expiration_settings_def reconciliation_settings_def breaker_settings_def getenv_def default_ints
        expiration_port_def reconciliation_port_def assms(1,2) mk_expiration_config_def mk_reconciliation_config_def)
qed

text \<open>A reading of the two default texts and of nothing else.\<close>

definition default_seconds :: "string \<Rightarrow> exn + duration" where
  "default_seconds s = (if s = ''5.0'' then Inr 5000000 else if s = ''30.0'' then Inr 30000000 else Inl PyValueError)"

lemma no_batch_settings:
  "expiration_settings default_seconds [''EXPIRATION_BATCH_SIZE'' \<mapsto> ''0''] = Inl PyValueError"
proof -
  have "py_int ''0'' = Inr 0"
    by (simp add: py_int_def py_strip_def py_space_def unsigned_int_def is_digit_def digit_value_def code_def Let_def)
  then show ?thesis
    by (simp add: expiration_settings_def breaker_settings_def getenv_def default_ints default_seconds_def mk_expiration_config_def)
qed

end
