(* ===== verification/Processes.thy ===== *)
theory Processes
  imports Settings
begin

section \<open>The processes and what they open\<close>

text \<open>
  \<open>run_expiration_worker\<close> and \<open>run_reconciliation_worker\<close> of \<open>controller/*_worker.py\<close> and the
  lifespan of the application in \<open>controller/main.py\<close>: the calls they make to the libraries, any of
  which may raise, in nested \<open>try ... finally\<close> blocks. A process is its trace of calls and its result;
  \<open>None\<close> is a process that never stops.
\<close>

datatype call =
  Configure_Logging | Open_Database | Open_Client | Start_Metrics_Server int | Handle_Signal string
| Log_Started | Run_Worker | Log_Stopped | Stop_Metrics_Server | Close_Metrics_Server | Join_Metrics_Thread
| Close_Client | Close_Database | Serve

type_synonym 'a process = "call list \<Rightarrow> ((exn + 'a) \<times> call list) option"

definition finished :: "exn + 'a \<Rightarrow> 'a process" where
  "finished r log = Some (r, log)"

definition then_do :: "'a process \<Rightarrow> ('a \<Rightarrow> 'b process) \<Rightarrow> 'b process" where
  "then_do m f log = (case m log of
     None \<Rightarrow> None
   | Some (Inl e, log') \<Rightarrow> Some (Inl e, log')
   | Some (Inr x, log') \<Rightarrow> f x log')"

text \<open>\<open>try: m finally: f\<close>; an exception of \<open>f\<close> takes the place of the result of \<open>m\<close>.\<close>

definition finally_do :: "'a process \<Rightarrow> unit process \<Rightarrow> 'a process" where
  "finally_do m f log = (case m log of
     None \<Rightarrow> None
   | Some (r, log') \<Rightarrow> (case f log' of
       None \<Rightarrow> None
     | Some (Inl e, log'') \<Rightarrow> Some (Inl e, log'')
     | Some (Inr _, log'') \<Rightarrow> Some (r, log'')))"

text \<open>A call to a library, which may raise: \<open>faults\<close> says which do.\<close>

definition effect :: "(call \<Rightarrow> exn option) \<Rightarrow> call \<Rightarrow> unit process" where
  "effect faults c log = Some (case faults c of None \<Rightarrow> Inr () | Some e \<Rightarrow> Inl e, log @ [c])"

text \<open>A computation that returns if it is given a result, and never stops otherwise.\<close>

definition awaited :: "'a option \<Rightarrow> 'a process" where
  "awaited r log = map_option (\<lambda>x. (Inr x, log)) r"

definition close_resources :: "(call \<Rightarrow> exn option) \<Rightarrow> unit process" where
  "close_resources faults = finally_do (effect faults Close_Client) (effect faults Close_Database)"

definition stop_metrics :: "(call \<Rightarrow> exn option) \<Rightarrow> unit process" where
  "stop_metrics faults =
     then_do (effect faults Stop_Metrics_Server) (\<lambda>_.
     then_do (effect faults Close_Metrics_Server) (\<lambda>_. effect faults Join_Metrics_Thread))"

text \<open>What both workers do, with what they read of the environment and the run of their worker.\<close>

definition worker_process ::
  "(call \<Rightarrow> exn option) \<Rightarrow> exn + int \<Rightarrow> exn + 'c \<Rightarrow> ('c \<Rightarrow> 'r option) \<Rightarrow> 'r process" where
  "worker_process faults metrics_port settings run =
     then_do (effect faults Configure_Logging) (\<lambda>_.
     then_do (effect faults Open_Database) (\<lambda>_.
     then_do (effect faults Open_Client) (\<lambda>_.
       finally_do
         (then_do (finished metrics_port) (\<lambda>port.
          then_do (effect faults (Start_Metrics_Server port)) (\<lambda>_.
          then_do (finished settings) (\<lambda>config.
          then_do (effect faults (Handle_Signal ''SIGINT'')) (\<lambda>_.
          then_do (effect faults (Handle_Signal ''SIGTERM'')) (\<lambda>_.
          then_do (effect faults Log_Started) (\<lambda>_.
            finally_do
              (then_do (effect faults Run_Worker) (\<lambda>_.
               then_do (awaited (run config)) (\<lambda>summary.
               then_do (effect faults Log_Stopped) (\<lambda>_. finished (Inr summary)))))
              (stop_metrics faults))))))))
         (close_resources faults))))"

definition run_expiration_worker ::
  "(call \<Rightarrow> exn option) \<Rightarrow> (string \<Rightarrow> exn + duration) \<Rightarrow> environ \<Rightarrow> environment \<Rightarrow> surroundings \<Rightarrow> world \<Rightarrow>
    (run_summary \<times> telemetry list \<times> world) process" where
  "run_expiration_worker faults seconds env E out w =
     worker_process faults (expiration_port env) (expiration_settings seconds env) (\<lambda>(breaker, config).
       expiration_run (E\<lparr>e_breaker := breaker\<rparr>) config expiration_observer out [] (w\<lparr>w_registry := Map.empty\<rparr>))"

definition run_reconciliation_worker ::
  "(call \<Rightarrow> exn option) \<Rightarrow> (string \<Rightarrow> exn + duration) \<Rightarrow> environ \<Rightarrow> environment \<Rightarrow> surroundings \<Rightarrow> world \<Rightarrow>
    (run_summary \<times> telemetry list \<times> world) process" where
  "run_reconciliation_worker faults seconds env E out w =
     worker_process faults (reconciliation_port env) (reconciliation_settings seconds env) (\<lambda>(breaker, config).
       reconciliation_run (E\<lparr>e_breaker := breaker\<rparr>) config reconciliation_observer out [] (w\<lparr>w_registry := Map.empty\<rparr>))"

text \<open>\<open>lifespan\<close> of \<open>build_app\<close>: the application serves, then its resources are closed.\<close>

definition app_lifespan :: "(call \<Rightarrow> exn option) \<Rightarrow> unit process" where
  "app_lifespan faults = finally_do (effect faults Serve) (close_resources faults)"

subsection \<open>What is closed\<close>

lemma effect_Some [simp]: "effect faults c log = Some (case faults c of None \<Rightarrow> Inr () | Some e \<Rightarrow> Inl e, log @ [c])"
  by (simp add: effect_def)

lemma finished_Some [simp]: "finished r log = Some (r, log)"
  by (simp add: finished_def)

lemma close_resources_log: "\<exists>r. close_resources faults log = Some (r, log @ [Close_Client, Close_Database])"
  by (simp add: close_resources_def finally_do_def split: option.split)

lemma finally_close:
  assumes "finally_do m (close_resources faults) log = Some (r, log')"
  shows "\<exists>r' log''. m log = Some (r', log'') \<and> log' = log'' @ [Close_Client, Close_Database] \<and>
    (\<forall>x. r = Inr x \<longrightarrow> r' = Inr x)"
proof -
  obtain r' log'' where m: "m log = Some (r', log'')"
    using assms by (auto simp: finally_do_def split: option.splits)
  obtain q where "close_resources faults log'' = Some (q, log'' @ [Close_Client, Close_Database])"
    using close_resources_log by blast
  with assms m show ?thesis by (cases q) (auto simp: finally_do_def)
qed

text \<open>What stands between the opening and the closing: the metrics server is stopped if the worker ran.\<close>

definition tidy :: "call list \<Rightarrow> bool" where
  "tidy calls \<longleftrightarrow> Close_Client \<notin> set calls \<and> Close_Database \<notin> set calls \<and>
     (Run_Worker \<in> set calls \<longleftrightarrow> Stop_Metrics_Server \<in> set calls) \<and>
     (Run_Worker \<in> set calls \<longrightarrow> (\<exists>p. Start_Metrics_Server p \<in> set calls))"

text \<open>
  C35. A process releases what it opens. Once the database and the client are open, however a worker
  process ends, by its summary, by settings that are refused, or by an exception of any call, even one
  of those that close something, its last two calls close the client and then the database, each once;
  the metrics server is stopped exactly if the worker was run; and a summary is returned only by a
  worker that ran with accepted settings.
\<close>

theorem processes_release_what_they_open:
  assumes run: "worker_process faults port settings runs [] = Some (r, log)"
    and opened: "faults Configure_Logging = None" "faults Open_Database = None" "faults Open_Client = None"
  shows "\<exists>calls. log = [Configure_Logging, Open_Database, Open_Client] @ calls @ [Close_Client, Close_Database] \<and> tidy calls \<and>
    (\<forall>s. r = Inr s \<longrightarrow> (\<exists>c. settings = Inr c \<and> runs c = Some s) \<and> Join_Metrics_Thread \<in> set calls)"
proof -
  let ?open = "[Configure_Logging, Open_Database, Open_Client]"
  let ?body = "then_do (finished port) (\<lambda>port.
          then_do (effect faults (Start_Metrics_Server port)) (\<lambda>_.
          then_do (finished settings) (\<lambda>config.
          then_do (effect faults (Handle_Signal ''SIGINT'')) (\<lambda>_.
          then_do (effect faults (Handle_Signal ''SIGTERM'')) (\<lambda>_.
          then_do (effect faults Log_Started) (\<lambda>_.
            finally_do
              (then_do (effect faults Run_Worker) (\<lambda>_.
               then_do (awaited (runs config)) (\<lambda>summary.
               then_do (effect faults Log_Stopped) (\<lambda>_. finished (Inr summary)))))
              (stop_metrics faults)))))))"
  have "finally_do ?body (close_resources faults) ?open = Some (r, log)"
    using run opened by (simp add: worker_process_def then_do_def)
  from finally_close [OF this] obtain r' mid where body: "?body ?open = Some (r', mid)"
    and log: "log = mid @ [Close_Client, Close_Database]" and r: "\<forall>x. r = Inr x \<longrightarrow> r' = Inr x" by blast
  have "\<exists>calls. mid = ?open @ calls \<and> tidy calls \<and>
      (\<forall>s. r' = Inr s \<longrightarrow> (\<exists>c. settings = Inr c \<and> runs c = Some s) \<and> Join_Metrics_Thread \<in> set calls)"
    using body
    by (auto simp: then_do_def finally_do_def stop_metrics_def awaited_def tidy_def split: option.splits sum.splits prod.splits)
  with log r show ?thesis by auto
qed

text \<open>A worker whose run raises.\<close>

definition broken_run :: "call \<Rightarrow> exn option" where
  "broken_run c = (if c = Run_Worker \<or> c = Close_Client then Some PyValueError else None)"

theorem processes_release_what_they_open_witness:
  "\<forall>E out w. \<exists>calls. snd (the (run_expiration_worker broken_run default_seconds (\<lambda>_. None) E out w [])) =
     [Configure_Logging, Open_Database, Open_Client] @ calls @ [Close_Client, Close_Database] \<and> tidy calls"
proof (intro allI)
  fix E :: environment and out :: surroundings and w :: world
  let ?process = "run_expiration_worker broken_run default_seconds (\<lambda>_. None) E out w []"
  have "default_seconds ''5.0'' = Inr 5000000" "default_seconds ''30.0'' = Inr 30000000"
    by (simp_all add: default_seconds_def)
  note read = worker_settings [OF this, of "\<lambda>_. None"]
  have "\<exists>r log. ?process = Some (r, log)"
    using read by (simp add: run_expiration_worker_def worker_process_def then_do_def finally_do_def stop_metrics_def
        close_resources_def broken_run_def)
  then obtain r log where run: "?process = Some (r, log)" by blast
  have "broken_run Configure_Logging = None" "broken_run Open_Database = None" "broken_run Open_Client = None"
    by (simp_all add: broken_run_def)
  from processes_release_what_they_open [OF run [unfolded run_expiration_worker_def] this] run
  show "\<exists>calls. snd (the ?process) = [Configure_Logging, Open_Database, Open_Client] @ calls @ [Close_Client, Close_Database] \<and>
      tidy calls" by auto
qed

text \<open>
  The metrics server starts before the settings are read, and only the inner block stops it: settings that
  are refused leave it running.
\<close>

theorem refused_settings_leave_the_server:
  "run_expiration_worker (\<lambda>_. None) default_seconds [''EXPIRATION_BATCH_SIZE'' \<mapsto> ''0''] E out w [] =
     Some (Inl PyValueError, [Configure_Logging, Open_Database, Open_Client, Start_Metrics_Server 9101,
       Close_Client, Close_Database])"
  by (simp add: run_expiration_worker_def worker_process_def then_do_def finally_do_def close_resources_def
      no_batch_settings expiration_port_def getenv_def default_ints)

text \<open>The application's client and database are closed too, whatever ends its serving.\<close>

theorem lifespan_closes:
  "app_lifespan faults log = Some (r, log') \<Longrightarrow> log' = log @ [Serve, Close_Client, Close_Database]"
  unfolding app_lifespan_def by (drule finally_close) auto

end
