(* ===== verification/Http_Metrics.thy ===== *)
theory Http_Metrics
  imports Workers
begin

section \<open>HTTP metrics\<close>

text \<open>
  \<open>PrometheusHttpMetrics\<close> of \<open>repository/telemetry.py\<close>: the middleware that counts
  requests by method, route and status, and keeps a gauge of those in progress. What the application
  does with a request, the messages it sends and whether it raises, is its \<open>app_run\<close>.
\<close>

datatype message = Response_Start nat | Other_Message string

record scope =
  sc_type :: string
  sc_path :: string
  sc_method :: string

text \<open>\<open>ar_route\<close> is the path template the router left in the scope, if it matched one.\<close>

record app_run =
  ar_messages :: "message list"
  ar_raises :: bool
  ar_route :: "string option"
  ar_started :: instant
  ar_finished :: instant

definition measured :: "scope \<Rightarrow> bool" where
  "measured sc \<longleftrightarrow> \<not> (sc_type sc \<noteq> ''http'' \<or> sc_path sc = ''/metrics'')"

text \<open>\<open>send_with_status\<close> over the messages sent: the status of the last start, or 500.\<close>

definition send_with_status :: "nat \<Rightarrow> message \<Rightarrow> nat" where
  "send_with_status status_code m = (case m of Response_Start n \<Rightarrow> n | Other_Message _ \<Rightarrow> status_code)"

definition final_status :: "message list \<Rightarrow> nat" where
  "final_status messages = foldl send_with_status 500 messages"

definition route_label :: "app_run \<Rightarrow> string" where
  "route_label a = (case ar_route a of None \<Rightarrow> ''unmatched'' | Some path \<Rightarrow> path)"

abbreviation "requests_in_progress \<equiv> ''inventory_reservation_http_requests_in_progress''"
abbreviation "requests_total \<equiv> ''inventory_reservation_http_requests_total''"
abbreviation "request_duration \<equiv> ''inventory_reservation_http_request_duration_seconds''"

definition before_request :: "scope \<Rightarrow> telemetry list" where
  "before_request sc = (if measured sc then [Inc requests_in_progress [(''method'', sc_method sc)]] else [])"

text \<open>The \<open>finally\<close> block, which runs whether or not the application raised.\<close>

definition after_request :: "scope \<Rightarrow> app_run \<Rightarrow> telemetry list" where
  "after_request sc a = (if measured sc then
     [Dec requests_in_progress [(''method'', sc_method sc)],
      Inc requests_total [(''method'', sc_method sc), (''route'', route_label a),
        (''status'', dec (final_status (ar_messages a)))],
      Observe request_duration [(''method'', sc_method sc), (''route'', route_label a)] (ar_finished a - ar_started a)]
     else [])"

definition http_metrics :: "scope \<Rightarrow> app_run \<Rightarrow> telemetry list" where
  "http_metrics sc a = before_request sc @ after_request sc a"

subsection \<open>What they add up to\<close>

definition gauge :: "string \<Rightarrow> labels \<Rightarrow> telemetry list \<Rightarrow> int" where
  "gauge name ls events = int (counted name ls events) - int (length (filter (\<lambda>x. x = Dec name ls) events))"

lemma final_status_snoc: "final_status (ms @ [m]) = send_with_status (final_status ms) m"
  by (simp add: final_status_def)

lemma counted_mset: "mset xs = mset ys \<Longrightarrow> counted name ls xs = counted name ls ys"
  unfolding counted_def by (metis mset_filter size_mset)

lemma gauge_mset: "mset xs = mset ys \<Longrightarrow> gauge name ls xs = gauge name ls ys"
  unfolding gauge_def using counted_mset by (metis mset_filter size_mset)

text \<open>Events of requests that overlap come in any order; every request's own are all there.\<close>

definition events_of :: "(scope \<times> app_run) list \<Rightarrow> telemetry list" where
  "events_of rs = concat (map (\<lambda>(sc, a). http_metrics sc a) rs)"

definition counted_as :: "string \<Rightarrow> string \<Rightarrow> nat \<Rightarrow> scope \<times> app_run \<Rightarrow> bool" where
  "counted_as verb route status r = (case r of (sc, a) \<Rightarrow>
     measured sc \<and> sc_method sc = verb \<and> route_label a = route \<and> final_status (ar_messages a) = status)"

lemma events_of_Cons: "events_of ((sc, a) # rs) = http_metrics sc a @ events_of rs"
  by (simp add: events_of_def)

lemma gauge_append: "gauge name ls (xs @ ys) = gauge name ls xs + gauge name ls ys"
  by (simp add: gauge_def)

lemma dec_eq [simp]: "dec m = dec n \<longleftrightarrow> m = n"
  by (blast dest: dec_inj)

lemma one_request_counted:
  "counted requests_total [(''method'', verb), (''route'', route), (''status'', dec status)] (http_metrics sc a) =
     (if counted_as verb route status (sc, a) then 1 else 0)"
  "gauge requests_in_progress [(''method'', verb)] (http_metrics sc a) = 0"
  by (auto simp: counted_def gauge_def http_metrics_def before_request_def after_request_def counted_as_def)

text \<open>
  C40. Every request is accounted for. When the requests of an interval are all finished, in whatever
  order their events interleaved and whether or not the application raised, no method is left in
  progress, and the counter of a method, route and status is the number of measured requests of that
  method and route that ended with that status, 500 for one that ended before a response began.
\<close>

theorem http_requests_accounted:
  assumes "mset events = mset (events_of rs)"
  shows "gauge requests_in_progress [(''method'', verb)] events = 0 \<and>
    counted requests_total [(''method'', verb), (''route'', route), (''status'', dec status)] events =
      length (filter (counted_as verb route status) rs)"
proof -
  have "gauge requests_in_progress [(''method'', verb)] (events_of rs) = 0 \<and>
    counted requests_total [(''method'', verb), (''route'', route), (''status'', dec status)] (events_of rs) =
      length (filter (counted_as verb route status) rs)"
  proof (induction rs)
    case Nil
    then show ?case by (simp add: events_of_def gauge_def counted_def)
  next
    case (Cons r rs)
    then show ?case by (cases r) (simp add: events_of_Cons gauge_append one_request_counted)
  qed
  then show ?thesis using gauge_mset [OF assms] counted_mset [OF assms] by simp
qed

text \<open>Two overlapping requests, one of which raises before it answers.\<close>

definition overlapping :: "(scope \<times> app_run) list" where
  "overlapping = [(\<lparr>sc_type = ''http'', sc_path = ''/v1/reservations'', sc_method = ''POST''\<rparr>,
      \<lparr>ar_messages = [Response_Start 201, Other_Message ''body''], ar_raises = False, ar_route = Some ''/v1/reservations'',
       ar_started = 0, ar_finished = 5\<rparr>),
    (\<lparr>sc_type = ''http'', sc_path = ''/v1/reservations'', sc_method = ''POST''\<rparr>,
      \<lparr>ar_messages = [], ar_raises = True, ar_route = Some ''/v1/reservations'', ar_started = 1, ar_finished = 4\<rparr>)]"

theorem http_requests_accounted_witness:
  "\<exists>events. mset events = mset (events_of overlapping) \<and> events \<noteq> events_of overlapping \<and>
     counted requests_total [(''method'', ''POST''), (''route'', ''/v1/reservations''), (''status'', dec 500)] events = 1"
proof -
  let ?events = "rev (events_of overlapping)"
  have same: "mset ?events = mset (events_of overlapping)" by simp
  have "?events \<noteq> events_of overlapping"
    by (simp add: events_of_def overlapping_def http_metrics_def before_request_def after_request_def measured_def)
  moreover have "length (filter (counted_as ''POST'' ''/v1/reservations'' 500) overlapping) = 1"
    by (simp add: overlapping_def counted_as_def measured_def route_label_def final_status_def send_with_status_def)
  ultimately show ?thesis using http_requests_accounted [OF same] same by metis
qed

end
