(* ===== verification/Catalogue.thy ===== *)
theory Catalogue
  imports Schema
begin

section \<open>The catalogue of a database\<close>

text \<open>
  What the migrations under \<open>migrations/versions\<close> change: tables with their columns and named
  constraints, and indexes. A table is described with SQLAlchemy's elements, as both the migrations and
  \<open>repository/models.py\<close> write it, and named by the naming convention of \<open>models.py\<close>; each
  operation of the migrations is a function that fails where PostgreSQL refuses the statement.
\<close>

subsection \<open>Columns and constraints\<close>

datatype sql_type = Sql_Uuid | Varchar nat | Sql_Text | Sql_Integer | Sql_Boolean | Timestamp_Tz | Jsonb

text \<open>The expression of a server default; \<open>Quoted\<close> is a literal in quotes, \<open>Cast\<close> one with a type.\<close>

datatype server_default = Now | Number int | Truth bool | Quoted string | Cast string string

datatype operand = Column string | Length_Of string | Int_Literal int | Text_Literal string

datatype comparison = Equal | Unequal | Less_Equal | Greater_Equal | Greater

datatype condition =
  Compare operand comparison operand | Is_Null string | Not_Null string | One_Of string "string list"
| Between string int int | Or condition condition

datatype delete_rule = Restrict | Cascade

datatype constraint =
  Primary_Key "string list" | Unique "string list" | Check condition
| Foreign_Key string string string delete_rule

record column =
  col_name :: string
  col_type :: sql_type
  col_nullable :: bool
  col_default :: "server_default option"

record table =
  tab_name :: string
  tab_columns :: "column list"
  tab_constraints :: "(string \<times> constraint) list"

record index =
  ix_name :: string
  ix_table :: string
  ix_columns :: "string list"

record catalogue =
  tables :: "table list"
  indexes :: "index list"

definition empty_catalogue :: catalogue where
  "empty_catalogue = \<lparr>tables = [], indexes = []\<rparr>"

subsection \<open>When a row passes a check\<close>

text \<open>SQL's three values: a condition on a null is unknown, and a check refuses only what is false.\<close>

datatype cell = Null | Int_Cell int | Text_Cell string | Uuid_Cell uuid

fun operand_cell :: "(string \<Rightarrow> cell) \<Rightarrow> operand \<Rightarrow> cell" where
  "operand_cell row (Column c) = row c"
| "operand_cell row (Length_Of c) = (case row c of Text_Cell s \<Rightarrow> Int_Cell (int (length s)) | _ \<Rightarrow> Null)"
| "operand_cell row (Int_Literal n) = Int_Cell n"
| "operand_cell row (Text_Literal s) = Text_Cell s"

fun compare_cells :: "cell \<Rightarrow> comparison \<Rightarrow> cell \<Rightarrow> bool option" where
  "compare_cells (Int_Cell a) Equal (Int_Cell b) = Some (a = b)"
| "compare_cells (Int_Cell a) Unequal (Int_Cell b) = Some (a \<noteq> b)"
| "compare_cells (Int_Cell a) Less_Equal (Int_Cell b) = Some (a \<le> b)"
| "compare_cells (Int_Cell a) Greater_Equal (Int_Cell b) = Some (b \<le> a)"
| "compare_cells (Int_Cell a) Greater (Int_Cell b) = Some (b < a)"
| "compare_cells (Text_Cell a) Equal (Text_Cell b) = Some (a = b)"
| "compare_cells (Text_Cell a) Unequal (Text_Cell b) = Some (a \<noteq> b)"
| "compare_cells _ _ _ = None"

definition sql_or :: "bool option \<Rightarrow> bool option \<Rightarrow> bool option" where
  "sql_or a b = (if a = Some True \<or> b = Some True then Some True
     else if a = Some False \<and> b = Some False then Some False else None)"

fun condition_value :: "(string \<Rightarrow> cell) \<Rightarrow> condition \<Rightarrow> bool option" where
  "condition_value row (Compare a c b) = compare_cells (operand_cell row a) c (operand_cell row b)"
| "condition_value row (Is_Null c) = Some (row c = Null)"
| "condition_value row (Not_Null c) = Some (row c \<noteq> Null)"
| "condition_value row (One_Of c vs) = (case row c of Text_Cell s \<Rightarrow> Some (s \<in> set vs) | _ \<Rightarrow> None)"
| "condition_value row (Between c a b) = (case row c of Int_Cell n \<Rightarrow> Some (a \<le> n \<and> n \<le> b) | _ \<Rightarrow> None)"
| "condition_value row (Or a b) = sql_or (condition_value row a) (condition_value row b)"

definition passes :: "(string \<Rightarrow> cell) \<Rightarrow> constraint \<Rightarrow> bool" where
  "passes row k = (case k of Check c \<Rightarrow> condition_value row c \<noteq> Some False | _ \<Rightarrow> True)"

subsection \<open>Describing a table\<close>

text \<open>
  \<open>Enum(..., native_enum=False)\<close> is a text column as long as its longest value unless a length is
  given, with a check of its values under the enumeration's name when it creates one. \<open>op.f\<close> marks
  a name that the convention has already been applied to.
\<close>

datatype element_type = Plain sql_type | Enumeration "string list" string bool "nat option"

datatype given_name = Converted string | Given string | Unnamed

datatype element =
  Col string element_type bool "server_default option"
| Con given_name constraint

fun stored_type :: "element_type \<Rightarrow> sql_type" where
  "stored_type (Plain t) = t"
| "stored_type (Enumeration vs _ _ n) = Varchar (case n of Some k \<Rightarrow> k | None \<Rightarrow> Max (set (map length vs)))"

text \<open>\<open>NAMING_CONVENTION\<close>; only the convention of checks uses the given name, so it alone applies to one.\<close>

fun joined_names :: "string list \<Rightarrow> string" where
  "joined_names [] = []"
| "joined_names [c] = c"
| "joined_names (c # cs) = c @ ''_'' @ joined_names cs"

fun conventional :: "string \<Rightarrow> given_name \<Rightarrow> constraint \<Rightarrow> string option" where
  "conventional t (Converted n) k = Some n"
| "conventional t (Given n) (Check c) = Some (''ck_'' @ t @ ''_'' @ n)"
| "conventional t (Given n) k = Some n"
| "conventional t Unnamed (Primary_Key cs) = Some (''pk_'' @ t)"
| "conventional t Unnamed (Unique cs) = Some (''uq_'' @ t @ ''_'' @ joined_names cs)"
| "conventional t Unnamed (Foreign_Key c rt rc d) = Some (''fk_'' @ t @ ''_'' @ c @ ''_'' @ rt)"
| "conventional t Unnamed (Check c) = None"

fun element_columns :: "element \<Rightarrow> column list" where
  "element_columns (Col c ty nullable df) =
     [\<lparr>col_name = c, col_type = stored_type ty, col_nullable = nullable, col_default = df\<rparr>]"
| "element_columns (Con _ _) = []"

fun element_constraints :: "element \<Rightarrow> (given_name \<times> constraint) list" where
  "element_constraints (Col c (Enumeration vs n True _) _ _) = [(Given n, Check (One_Of c vs))]"
| "element_constraints (Col _ _ _ _) = []"
| "element_constraints (Con n k) = [(n, k)]"

definition all_constraints :: "element list \<Rightarrow> (given_name \<times> constraint) list" where
  "all_constraints es = concat (map element_constraints es)"

text \<open>A table may be described when each of its constraints gets a name.\<close>

definition nameable :: "string \<Rightarrow> element list \<Rightarrow> bool" where
  "nameable t es \<longleftrightarrow> list_all (\<lambda>(n, k). conventional t n k \<noteq> None) (all_constraints es)"

definition named_constraints :: "string \<Rightarrow> element list \<Rightarrow> (string \<times> constraint) list" where
  "named_constraints t es = map (\<lambda>(n, k). (the (conventional t n k), k)) (all_constraints es)"

definition described :: "string \<Rightarrow> element list \<Rightarrow> table" where
  "described t es = \<lparr>tab_name = t, tab_columns = concat (map element_columns es),
     tab_constraints = named_constraints t es\<rparr>"

subsection \<open>The operations of the migrations\<close>

type_synonym ddl = "catalogue \<Rightarrow> catalogue option"

primrec run_ddl :: "ddl list \<Rightarrow> ddl" where
  "run_ddl [] c = Some c"
| "run_ddl (f # fs) c = (case f c of None \<Rightarrow> None | Some c' \<Rightarrow> run_ddl fs c')"

definition table_at :: "string \<Rightarrow> catalogue \<Rightarrow> table option" where
  "table_at t c = find (\<lambda>x. tab_name x = t) (tables c)"

definition has_index :: "string \<Rightarrow> catalogue \<Rightarrow> bool" where
  "has_index i c \<longleftrightarrow> list_ex (\<lambda>x. ix_name x = i) (indexes c)"

text \<open>Tables and indexes share one name space.\<close>

definition name_taken :: "string \<Rightarrow> catalogue \<Rightarrow> bool" where
  "name_taken n c \<longleftrightarrow> table_at n c \<noteq> None \<or> has_index n c"

definition column_in :: "string \<Rightarrow> table \<Rightarrow> bool" where
  "column_in n x \<longleftrightarrow> list_ex (\<lambda>y. col_name y = n) (tab_columns x)"

definition constraint_in :: "string \<Rightarrow> table \<Rightarrow> bool" where
  "constraint_in n x \<longleftrightarrow> list_ex (\<lambda>k. fst k = n) (tab_constraints x)"

definition has_column :: "string \<Rightarrow> string \<Rightarrow> catalogue \<Rightarrow> bool" where
  "has_column t n c = (case table_at t c of None \<Rightarrow> False | Some x \<Rightarrow> column_in n x)"

fun refers_to :: "string \<Rightarrow> constraint \<Rightarrow> bool" where
  "refers_to t (Foreign_Key _ rt _ _) = (rt = t)"
| "refers_to t _ = False"

fun targets :: "constraint \<Rightarrow> (string \<times> string) list" where
  "targets (Foreign_Key _ rt rc _) = [(rt, rc)]"
| "targets _ = []"

definition all_targets :: "(string \<times> constraint) list \<Rightarrow> (string \<times> string) list" where
  "all_targets ks = concat (map (targets \<circ> snd) ks)"

text \<open>One table changed, if it is there and the change is possible.\<close>

definition on_table :: "string \<Rightarrow> (table \<Rightarrow> table option) \<Rightarrow> ddl" where
  "on_table t f c = (case table_at t c of
     None \<Rightarrow> None
   | Some x \<Rightarrow> map_option (\<lambda>x'. c\<lparr>tables := map (\<lambda>y. if tab_name y = t then x' else y) (tables c)\<rparr>) (f x))"

definition create_table :: "string \<Rightarrow> element list \<Rightarrow> ddl" where
  "create_table t es c =
     (if nameable t es \<and> \<not> name_taken t c \<and>
         list_all (\<lambda>(rt, rc). has_column rt rc c) (all_targets (named_constraints t es))
      then Some (c\<lparr>tables := tables c @ [described t es]\<rparr>) else None)"

text \<open>A table another one refers to is not dropped; its indexes go with it.\<close>

definition drop_table :: "string \<Rightarrow> ddl" where
  "drop_table t c =
     (if table_at t c = None \<or> list_ex (\<lambda>x. tab_name x \<noteq> t \<and> list_ex (\<lambda>k. refers_to t (snd k)) (tab_constraints x)) (tables c)
      then None
      else Some (c\<lparr>tables := filter (\<lambda>x. tab_name x \<noteq> t) (tables c), indexes := filter (\<lambda>i. ix_table i \<noteq> t) (indexes c)\<rparr>))"

definition create_index :: "string \<Rightarrow> string \<Rightarrow> string list \<Rightarrow> ddl" where
  "create_index i t cs c =
     (if \<not> name_taken i c \<and> list_all (\<lambda>n. has_column t n c) cs
      then Some (c\<lparr>indexes := indexes c @ [\<lparr>ix_name = i, ix_table = t, ix_columns = cs\<rparr>]\<rparr>) else None)"

definition drop_index :: "string \<Rightarrow> ddl" where
  "drop_index i c = (if has_index i c then Some (c\<lparr>indexes := filter (\<lambda>x. ix_name x \<noteq> i) (indexes c)\<rparr>) else None)"

definition rename_index :: "string \<Rightarrow> string \<Rightarrow> ddl" where
  "rename_index old new c =
     (if has_index old c \<and> \<not> name_taken new c
      then Some (c\<lparr>indexes := map (\<lambda>x. if ix_name x = old then x\<lparr>ix_name := new\<rparr> else x) (indexes c)\<rparr>) else None)"

text \<open>The foreign keys and the indexes follow a renamed table.\<close>

fun retarget :: "string \<Rightarrow> string \<Rightarrow> constraint \<Rightarrow> constraint" where
  "retarget old new (Foreign_Key c rt rc d) = Foreign_Key c (if rt = old then new else rt) rc d"
| "retarget old new k = k"

definition rename_table :: "string \<Rightarrow> string \<Rightarrow> ddl" where
  "rename_table old new c =
     (if table_at old c \<noteq> None \<and> \<not> name_taken new c
      then Some (c\<lparr>tables := map (\<lambda>x. \<lparr>tab_name = (if tab_name x = old then new else tab_name x),
             tab_columns = tab_columns x,
             tab_constraints = map (\<lambda>(n, k). (n, retarget old new k)) (tab_constraints x)\<rparr>) (tables c),
           indexes := map (\<lambda>i. i\<lparr>ix_table := (if ix_table i = old then new else ix_table i)\<rparr>) (indexes c)\<rparr>)
      else None)"

definition rename_in :: "string \<Rightarrow> string \<Rightarrow> table \<Rightarrow> table option" where
  "rename_in old new x = (if constraint_in old x \<and> \<not> constraint_in new x
     then Some (x\<lparr>tab_constraints := map (\<lambda>(n, k). (if n = old then new else n, k)) (tab_constraints x)\<rparr>) else None)"

definition rename_constraint :: "string \<Rightarrow> string \<Rightarrow> string \<Rightarrow> ddl" where
  "rename_constraint t old new = on_table t (rename_in old new)"

definition extended :: "element \<Rightarrow> table \<Rightarrow> table option" where
  "extended e x = (if nameable (tab_name x) [e] \<and> list_all (\<lambda>n. \<not> column_in (col_name n) x) (element_columns e)
     then Some (x\<lparr>tab_columns := tab_columns x @ element_columns e,
            tab_constraints := tab_constraints x @ named_constraints (tab_name x) [e]\<rparr>) else None)"

definition add_column :: "string \<Rightarrow> element \<Rightarrow> ddl" where
  "add_column t e = on_table t (extended e)"

text \<open>The constraints and the indexes on a dropped column go with it.\<close>

fun operand_mentions :: "string \<Rightarrow> operand \<Rightarrow> bool" where
  "operand_mentions c (Column n) = (n = c)"
| "operand_mentions c (Length_Of n) = (n = c)"
| "operand_mentions c _ = False"

fun condition_mentions :: "string \<Rightarrow> condition \<Rightarrow> bool" where
  "condition_mentions c (Compare a _ b) = (operand_mentions c a \<or> operand_mentions c b)"
| "condition_mentions c (Is_Null n) = (n = c)"
| "condition_mentions c (Not_Null n) = (n = c)"
| "condition_mentions c (One_Of n _) = (n = c)"
| "condition_mentions c (Between n _ _) = (n = c)"
| "condition_mentions c (Or a b) = (condition_mentions c a \<or> condition_mentions c b)"

fun mentions :: "string \<Rightarrow> constraint \<Rightarrow> bool" where
  "mentions c (Primary_Key cs) = (c \<in> set cs)"
| "mentions c (Unique cs) = (c \<in> set cs)"
| "mentions c (Check p) = condition_mentions c p"
| "mentions c (Foreign_Key n _ _ _) = (n = c)"

definition shortened :: "string \<Rightarrow> table \<Rightarrow> table option" where
  "shortened n x = (if column_in n x
     then Some (x\<lparr>tab_columns := filter (\<lambda>y. col_name y \<noteq> n) (tab_columns x),
            tab_constraints := filter (\<lambda>k. \<not> mentions n (snd k)) (tab_constraints x)\<rparr>) else None)"

definition drop_column :: "string \<Rightarrow> string \<Rightarrow> ddl" where
  "drop_column t n c = map_option
     (\<lambda>c'. c'\<lparr>indexes := filter (\<lambda>i. \<not> (ix_table i = t \<and> n \<in> set (ix_columns i))) (indexes c')\<rparr>)
     (on_table t (shortened n) c)"

definition not_nullable :: "string \<Rightarrow> table \<Rightarrow> table option" where
  "not_nullable n x = (if column_in n x
     then Some (x\<lparr>tab_columns := map (\<lambda>y. if col_name y = n then y\<lparr>col_nullable := False\<rparr> else y) (tab_columns x)\<rparr>) else None)"

text \<open>Only the catalogue's part: that no row holds a null there is up to the rows.\<close>

definition set_not_null :: "string \<Rightarrow> string \<Rightarrow> ddl" where
  "set_not_null t n = on_table t (not_nullable n)"

definition constrained :: "given_name \<Rightarrow> constraint \<Rightarrow> table \<Rightarrow> table option" where
  "constrained n k x = (case conventional (tab_name x) n k of
     None \<Rightarrow> None
   | Some s \<Rightarrow> if constraint_in s x then None else Some (x\<lparr>tab_constraints := tab_constraints x @ [(s, k)]\<rparr>))"

definition create_constraint :: "given_name \<Rightarrow> string \<Rightarrow> constraint \<Rightarrow> ddl" where
  "create_constraint n t k c =
     (if list_all (\<lambda>(rt, rc). has_column rt rc c) (targets k) then on_table t (constrained n k) c else None)"

text \<open>\<open>op.drop_constraint(name, table, type_=...)\<close> names it by the convention of its type too.\<close>

definition relaxed :: "given_name \<Rightarrow> constraint \<Rightarrow> table \<Rightarrow> table option" where
  "relaxed n like x = (case conventional (tab_name x) n like of
     None \<Rightarrow> None
   | Some s \<Rightarrow> if constraint_in s x
       then Some (x\<lparr>tab_constraints := filter (\<lambda>y. fst y \<noteq> s) (tab_constraints x)\<rparr>) else None)"

definition drop_constraint :: "given_name \<Rightarrow> string \<Rightarrow> constraint \<Rightarrow> ddl" where
  "drop_constraint n t like = on_table t (relaxed n like)"

subsection \<open>What a description says\<close>

lemma described_simps [simp]:
  "tab_name (described t es) = t" "tab_constraints (described t es) = named_constraints t es"
  by (simp_all add: described_def)

fun column_of :: "string \<Rightarrow> element \<Rightarrow> bool" where
  "column_of n (Col c _ _ _) = (c = n)"
| "column_of n (Con _ _) = False"

lemma column_in_described: "column_in n (described t es) = list_ex (column_of n) es"
proof -
  have "list_ex (\<lambda>y. col_name y = n) (element_columns e) = column_of n e" for e by (cases e) simp_all
  then show ?thesis by (induction es) (simp_all add: column_in_def described_def)
qed

fun element_targets :: "element \<Rightarrow> (string \<times> string) list" where
  "element_targets (Con _ k) = targets k"
| "element_targets _ = []"

lemma element_constraints_targets: "concat (map (targets \<circ> snd) (element_constraints e)) = element_targets e"
  by (induction e rule: element_constraints.induct) simp_all

lemma all_targets_described: "all_targets (named_constraints t es) = concat (map element_targets es)"
proof (induction es)
  case (Cons e es)
  have "all_targets (named_constraints t (e # es)) = concat (map (targets \<circ> snd) (element_constraints e)) @ all_targets (named_constraints t es)"
    by (simp add: all_targets_def named_constraints_def all_constraints_def comp_def case_prod_beta)
  with Cons show ?case by (simp add: element_constraints_targets)
qed (simp add: all_targets_def named_constraints_def all_constraints_def)

lemma refers_to_targets: "refers_to t k \<longleftrightarrow> t \<in> fst ` set (targets k)"
  by (cases k) auto

lemma refers_all_targets: "list_ex (\<lambda>k. refers_to t (snd k)) ks \<longleftrightarrow> list_ex (\<lambda>p. fst p = t) (all_targets ks)"
  by (induction ks) (auto simp: all_targets_def refers_to_targets list_ex_iff)

lemma retarget_other: "list_all (\<lambda>p. fst p \<noteq> old) (targets k) \<Longrightarrow> retarget old new k = k"
  by (cases k) auto

lemma retarget_none:
  "list_all (\<lambda>p. fst p \<noteq> old) (all_targets ks) \<Longrightarrow> map (\<lambda>(n, k). (n, retarget old new k)) ks = ks"
  by (induction ks) (auto simp: all_targets_def retarget_other)

definition retitled :: "string \<Rightarrow> table \<Rightarrow> table" where
  "retitled t x = x\<lparr>tab_name := t\<rparr>"

lemma rename_untargeted:
  assumes "list_all (\<lambda>x. list_all (\<lambda>p. fst p \<noteq> old) (all_targets (tab_constraints x))) (tables c)"
    and "table_at old c \<noteq> None" and "\<not> name_taken new c"
  shows "rename_table old new c = Some (c\<lparr>tables := map (\<lambda>x. if tab_name x = old then retitled new x else x) (tables c),
     indexes := map (\<lambda>i. i\<lparr>ix_table := (if ix_table i = old then new else ix_table i)\<rparr>) (indexes c)\<rparr>)"
proof -
  have "\<lparr>tab_name = (if tab_name x = old then new else tab_name x), tab_columns = tab_columns x,
      tab_constraints = map (\<lambda>(n, k). (n, retarget old new k)) (tab_constraints x)\<rparr> =
    (if tab_name x = old then retitled new x else x)" if "x \<in> set (tables c)" for x
    using that assms(1) by (simp add: retarget_none list_all_iff retitled_def)
  then show ?thesis using assms(2,3) by (simp add: rename_table_def)
qed

lemma run_append: "run_ddl (fs @ gs) c = (case run_ddl fs c of None \<Rightarrow> None | Some c' \<Rightarrow> run_ddl gs c')"
  by (induction fs arbitrary: c) (simp_all split: option.split)

lemma filter_all: "list_all P xs \<Longrightarrow> filter P xs = xs"
  by (simp add: list_all_iff)

end
