(* ===== verification/Migrations.thy ===== *)
theory Migrations
  imports Catalogue
begin

section \<open>The migrations\<close>

text \<open>
  The revisions under \<open>migrations/versions\<close> in their order, each with its upgrade and downgrade, as
  operations on the catalogue. The rows a revision rewrites are in theory \<open>Schema_Agreement\<close>.
\<close>

subsection \<open>57944397886c: the initial schema\<close>

text \<open>What every table ends its columns with.\<close>

definition stamped :: "element list" where
  "stamped =
     [Col ''id'' (Plain Sql_Uuid) False None,
      Col ''created_at'' (Plain Timestamp_Tz) False (Some Now),
      Col ''updated_at'' (Plain Timestamp_Tz) False (Some Now)]"

definition initial_providers :: "element list" where
  "initial_providers =
     [Col ''name'' (Plain (Varchar 100)) False None,
      Col ''kind'' (Enumeration [''internal'', ''external''] ''provider_kind'' True None) False None,
      Col ''driver'' (Plain (Varchar 100)) False None,
      Col ''base_url'' (Plain (Varchar 500)) True None,
      Col ''request_timeout_ms'' (Plain Sql_Integer) False (Some (Number 2000)),
      Col ''supports_availability'' (Plain Sql_Boolean) False (Some (Truth True)),
      Col ''supports_hold'' (Plain Sql_Boolean) False (Some (Truth False)),
      Col ''supports_confirm'' (Plain Sql_Boolean) False (Some (Truth False)),
      Col ''supports_release'' (Plain Sql_Boolean) False (Some (Truth False)),
      Col ''is_enabled'' (Plain Sql_Boolean) False (Some (Truth True))] @ stamped @
     [Con (Converted ''ck_inventory_providers_external_provider_requires_base_url'')
        (Check (Or (Compare (Column ''kind'') Unequal (Text_Literal ''external'')) (Not_Null ''base_url''))),
      Con (Converted ''ck_inventory_providers_positive_request_timeout'')
        (Check (Compare (Column ''request_timeout_ms'') Greater (Int_Literal 0))),
      Con (Converted ''pk_inventory_providers'') (Primary_Key [''id'']),
      Con (Converted ''uq_inventory_providers_name'') (Unique [''name''])]"

definition initial_products :: "element list" where
  "initial_products =
     [Col ''sku'' (Plain (Varchar 100)) False None,
      Col ''name'' (Plain (Varchar 255)) False None,
      Col ''is_active'' (Plain Sql_Boolean) False (Some (Truth True))] @ stamped @
     [Con (Converted ''ck_products_name_not_empty'') (Check (Compare (Length_Of ''name'') Greater (Int_Literal 0))),
      Con (Converted ''ck_products_sku_not_empty'') (Check (Compare (Length_Of ''sku'') Greater (Int_Literal 0))),
      Con (Converted ''pk_products'') (Primary_Key [''id'']),
      Con (Converted ''uq_products_sku'') (Unique [''sku''])]"

definition initial_reservations :: "element list" where
  "initial_reservations =
     [Col ''user_id'' (Plain Sql_Uuid) False None,
      Col ''idempotency_key'' (Plain (Varchar 128)) False None,
      Col ''request_fingerprint'' (Plain (Varchar 64)) False None,
      Col ''status'' (Enumeration [''pending'', ''reserving'', ''active'', ''confirming'', ''confirmed'', ''releasing'',
        ''cancelled'', ''expired'', ''failed''] ''reservation_status'' True None) False (Some (Quoted ''pending'')),
      Col ''expires_at'' (Plain Timestamp_Tz) False None,
      Col ''failure_code'' (Plain (Varchar 100)) True None,
      Col ''failure_reason'' (Plain Sql_Text) True None,
      Col ''version'' (Plain Sql_Integer) False (Some (Number 1))] @ stamped @
     [Con (Converted ''ck_reservations_idempotency_key_not_empty'')
        (Check (Compare (Length_Of ''idempotency_key'') Greater (Int_Literal 0))),
      Con (Converted ''ck_reservations_request_fingerprint_sha256'')
        (Check (Compare (Length_Of ''request_fingerprint'') Equal (Int_Literal 64))),
      Con (Converted ''ck_reservations_positive_version'') (Check (Compare (Column ''version'') Greater_Equal (Int_Literal 1))),
      Con (Converted ''pk_reservations'') (Primary_Key [''id'']),
      Con (Converted ''uq_reservations_user_id_idempotency_key'') (Unique [''user_id'', ''idempotency_key''])]"

definition initial_levels :: "element list" where
  "initial_levels =
     [Col ''product_id'' (Plain Sql_Uuid) False None,
      Col ''provider_id'' (Plain Sql_Uuid) False None,
      Col ''on_hand'' (Plain Sql_Integer) False (Some (Number 0)),
      Col ''reserved'' (Plain Sql_Integer) False (Some (Number 0)),
      Col ''allocation_priority'' (Plain Sql_Integer) False (Some (Number 100)),
      Col ''version'' (Plain Sql_Integer) False (Some (Number 1)),
      Col ''observed_at'' (Plain Timestamp_Tz) True None] @ stamped @
     [Con (Converted ''ck_inventory_levels_non_negative_allocation_priority'')
        (Check (Compare (Column ''allocation_priority'') Greater_Equal (Int_Literal 0))),
      Con (Converted ''ck_inventory_levels_non_negative_on_hand'')
        (Check (Compare (Column ''on_hand'') Greater_Equal (Int_Literal 0))),
      Con (Converted ''ck_inventory_levels_reserved_not_above_on_hand'')
        (Check (Compare (Column ''reserved'') Less_Equal (Column ''on_hand''))),
      Con (Converted ''ck_inventory_levels_non_negative_reserved'')
        (Check (Compare (Column ''reserved'') Greater_Equal (Int_Literal 0))),
      Con (Converted ''ck_inventory_levels_positive_version'')
        (Check (Compare (Column ''version'') Greater_Equal (Int_Literal 1))),
      Con (Converted ''fk_inventory_levels_product_id_products'') (Foreign_Key ''product_id'' ''products'' ''id'' Restrict),
      Con (Converted ''fk_inventory_levels_provider_id_inventory_providers'')
        (Foreign_Key ''provider_id'' ''inventory_providers'' ''id'' Restrict),
      Con (Converted ''pk_inventory_levels'') (Primary_Key [''id'']),
      Con (Converted ''uq_inventory_levels_product_id_provider_id'') (Unique [''product_id'', ''provider_id''])]"

definition initial_orders :: "element list" where
  "initial_orders =
     [Col ''reservation_id'' (Plain Sql_Uuid) False None,
      Col ''user_id'' (Plain Sql_Uuid) False None] @ stamped @
     [Con (Converted ''fk_orders_reservation_id_reservations'') (Foreign_Key ''reservation_id'' ''reservations'' ''id'' Restrict),
      Con (Converted ''pk_orders'') (Primary_Key [''id'']),
      Con (Converted ''uq_orders_reservation_id'') (Unique [''reservation_id''])]"

definition initial_credentials :: "element list" where
  "initial_credentials =
     [Col ''provider_id'' (Plain Sql_Uuid) False None,
      Col ''auth_type'' (Enumeration [''none'', ''api_key'', ''bearer'', ''basic'', ''oauth2''] ''provider_auth_type'' True None)
        False (Some (Quoted ''none'')),
      Col ''secret_ref'' (Plain (Varchar 255)) True None,
      Col ''public_config'' (Plain Jsonb) False (Some (Cast ''{}'' ''jsonb''))] @ stamped @
     [Con (Converted ''ck_provider_credentials_authenticated_provider_requires_secret_ref'')
        (Check (Or (Compare (Column ''auth_type'') Equal (Text_Literal ''none'')) (Not_Null ''secret_ref''))),
      Con (Converted ''fk_provider_credentials_provider_id_inventory_providers'')
        (Foreign_Key ''provider_id'' ''inventory_providers'' ''id'' Cascade),
      Con (Converted ''pk_provider_credentials'') (Primary_Key [''id'']),
      Con (Converted ''uq_provider_credentials_provider_id'') (Unique [''provider_id''])]"

definition initial_items :: "element list" where
  "initial_items =
     [Col ''reservation_id'' (Plain Sql_Uuid) False None,
      Col ''product_id'' (Plain Sql_Uuid) False None,
      Col ''requested_quantity'' (Plain Sql_Integer) False None] @ stamped @
     [Con (Converted ''ck_reservation_items_positive_requested_quantity'')
        (Check (Compare (Column ''requested_quantity'') Greater (Int_Literal 0))),
      Con (Converted ''fk_reservation_items_product_id_products'') (Foreign_Key ''product_id'' ''products'' ''id'' Restrict),
      Con (Converted ''fk_reservation_items_reservation_id_reservations'')
        (Foreign_Key ''reservation_id'' ''reservations'' ''id'' Cascade),
      Con (Converted ''pk_reservation_items'') (Primary_Key [''id'']),
      Con (Converted ''uq_reservation_items_reservation_id_product_id'') (Unique [''reservation_id'', ''product_id''])]"

definition initial_allocations :: "element list" where
  "initial_allocations =
     [Col ''reservation_item_id'' (Plain Sql_Uuid) False None,
      Col ''provider_id'' (Plain Sql_Uuid) False None,
      Col ''quantity'' (Plain Sql_Integer) False None,
      Col ''status'' (Enumeration [''pending'', ''held'', ''confirming'', ''confirmed'', ''releasing'', ''released'',
        ''failed'', ''unknown''] ''allocation_status'' True None) False (Some (Quoted ''pending'')),
      Col ''hold_idempotency_key'' (Plain (Varchar 255)) False None,
      Col ''provider_hold_reference'' (Plain (Varchar 255)) True None,
      Col ''failure_code'' (Plain (Varchar 100)) True None,
      Col ''failure_reason'' (Plain Sql_Text) True None] @ stamped @
     [Con (Converted ''ck_inventory_allocations_positive_quantity'')
        (Check (Compare (Column ''quantity'') Greater (Int_Literal 0))),
      Con (Converted ''fk_inventory_allocations_provider_id_inventory_providers'')
        (Foreign_Key ''provider_id'' ''inventory_providers'' ''id'' Restrict),
      Con (Converted ''fk_inventory_allocations_reservation_item_id_reservation_items'')
        (Foreign_Key ''reservation_item_id'' ''reservation_items'' ''id'' Cascade),
      Con (Converted ''pk_inventory_allocations'') (Primary_Key [''id'']),
      Con (Converted ''uq_inventory_allocations_hold_idempotency_key'') (Unique [''hold_idempotency_key'']),
      Con (Converted ''uq_inventory_allocations_reservation_item_id_provider_id'')
        (Unique [''reservation_item_id'', ''provider_id''])]"

definition initial_order_items :: "element list" where
  "initial_order_items =
     [Col ''order_id'' (Plain Sql_Uuid) False None,
      Col ''product_id'' (Plain Sql_Uuid) False None,
      Col ''quantity'' (Plain Sql_Integer) False None] @ stamped @
     [Con (Converted ''ck_order_items_positive_quantity'') (Check (Compare (Column ''quantity'') Greater (Int_Literal 0))),
      Con (Converted ''fk_order_items_order_id_orders'') (Foreign_Key ''order_id'' ''orders'' ''id'' Cascade),
      Con (Converted ''fk_order_items_product_id_products'') (Foreign_Key ''product_id'' ''products'' ''id'' Restrict),
      Con (Converted ''pk_order_items'') (Primary_Key [''id'']),
      Con (Converted ''uq_order_items_order_id_product_id'') (Unique [''order_id'', ''product_id''])]"

definition initial_operations :: "element list" where
  "initial_operations =
     [Col ''allocation_id'' (Plain Sql_Uuid) False None,
      Col ''operation'' (Enumeration [''check'', ''hold'', ''confirm'', ''release''] ''provider_operation_type'' True None)
        False None,
      Col ''status'' (Enumeration [''pending'', ''in_progress'', ''succeeded'', ''failed'', ''unknown'']
        ''provider_operation_status'' True None) False (Some (Quoted ''pending'')),
      Col ''idempotency_key'' (Plain (Varchar 255)) False None,
      Col ''attempt_count'' (Plain Sql_Integer) False (Some (Number 0)),
      Col ''next_attempt_at'' (Plain Timestamp_Tz) True None,
      Col ''locked_at'' (Plain Timestamp_Tz) True None,
      Col ''locked_by'' (Plain (Varchar 255)) True None,
      Col ''external_reference'' (Plain (Varchar 255)) True None,
      Col ''http_status'' (Plain Sql_Integer) True None,
      Col ''error_code'' (Plain (Varchar 100)) True None,
      Col ''error_message'' (Plain Sql_Text) True None,
      Col ''latency_ms'' (Plain Sql_Integer) True None] @ stamped @
     [Con (Converted ''ck_provider_operations_non_negative_attempt_count'')
        (Check (Compare (Column ''attempt_count'') Greater_Equal (Int_Literal 0))),
      Con (Converted ''ck_provider_operations_valid_http_status'')
        (Check (Or (Is_Null ''http_status'') (Between ''http_status'' 100 599))),
      Con (Converted ''ck_provider_operations_non_negative_latency'')
        (Check (Or (Is_Null ''latency_ms'') (Compare (Column ''latency_ms'') Greater_Equal (Int_Literal 0)))),
      Con (Converted ''fk_provider_operations_allocation_id_inventory_allocations'')
        (Foreign_Key ''allocation_id'' ''inventory_allocations'' ''id'' Cascade),
      Con (Converted ''pk_provider_operations'') (Primary_Key [''id'']),
      Con (Converted ''uq_provider_operations_idempotency_key'') (Unique [''idempotency_key''])]"

definition upgrade_initial :: "ddl list" where
  "upgrade_initial =
     [create_table ''inventory_providers'' initial_providers,
      create_table ''products'' initial_products,
      create_table ''reservations'' initial_reservations,
      create_index ''ix_reservations_expiry_worker'' ''reservations'' [''status'', ''expires_at''],
      create_index ''ix_reservations_user_created'' ''reservations'' [''user_id'', ''created_at''],
      create_table ''inventory_levels'' initial_levels,
      create_index ''ix_inventory_levels_product_priority'' ''inventory_levels'' [''product_id'', ''allocation_priority''],
      create_table ''orders'' initial_orders,
      create_table ''provider_credentials'' initial_credentials,
      create_table ''reservation_items'' initial_items,
      create_table ''inventory_allocations'' initial_allocations,
      create_table ''order_items'' initial_order_items,
      create_table ''provider_operations'' initial_operations,
      create_index ''ix_provider_operations_retry_queue'' ''provider_operations'' [''status'', ''next_attempt_at'']]"

definition downgrade_initial :: "ddl list" where
  "downgrade_initial =
     [drop_index ''ix_provider_operations_retry_queue'', drop_table ''provider_operations'', drop_table ''order_items'',
      drop_table ''inventory_allocations'', drop_table ''reservation_items'', drop_table ''provider_credentials'',
      drop_table ''orders'', drop_index ''ix_inventory_levels_product_priority'', drop_table ''inventory_levels'',
      drop_index ''ix_reservations_user_created'', drop_index ''ix_reservations_expiry_worker'',
      drop_table ''reservations'', drop_table ''products'', drop_table ''inventory_providers'']"

subsection \<open>2c984d2b8f1a and 6d92545a1a3f: the release target\<close>

definition target_check :: "string list \<Rightarrow> constraint" where
  "target_check vs = Check (Or (Is_Null ''release_target_status'') (One_Of ''release_target_status'' vs))"

definition target_constraint :: given_name where
  "target_constraint = Given ''ck_reservations_valid_release_target_status''"

definition upgrade_release_target :: "ddl list" where
  "upgrade_release_target =
     [add_column ''reservations'' (Col ''release_target_status'' (Plain (Varchar 20)) True None),
      create_constraint target_constraint ''reservations'' (target_check [''cancelled'', ''expired''])]"

definition downgrade_release_target :: "ddl list" where
  "downgrade_release_target =
     [drop_constraint target_constraint ''reservations'' (target_check []),
      drop_column ''reservations'' ''release_target_status'']"

definition upgrade_failed_target :: "ddl list" where
  "upgrade_failed_target =
     [drop_constraint target_constraint ''reservations'' (target_check []),
      create_constraint target_constraint ''reservations'' (target_check [''cancelled'', ''expired'', ''failed''])]"

definition downgrade_failed_target :: "ddl list" where
  "downgrade_failed_target =
     [drop_constraint target_constraint ''reservations'' (target_check []),
      create_constraint target_constraint ''reservations'' (target_check [''cancelled'', ''expired''])]"

subsection \<open>8e5d7c2a91b4: levels become offers, items name their provider\<close>

definition offer_constraints :: "string \<Rightarrow> string list" where
  "offer_constraints t =
     [''pk_'' @ t, ''uq_'' @ t @ ''_product_id_provider_id'', ''ck_'' @ t @ ''_non_negative_on_hand'',
      ''ck_'' @ t @ ''_non_negative_reserved'', ''ck_'' @ t @ ''_reserved_not_above_on_hand'',
      ''ck_'' @ t @ ''_positive_version'', ''ck_'' @ t @ ''_non_negative_allocation_priority'',
      ''fk_'' @ t @ ''_product_id_products'', ''fk_'' @ t @ ''_provider_id_inventory_providers'']"

definition rename_all :: "string \<Rightarrow> string \<Rightarrow> ddl list" where
  "rename_all old new = map2 (rename_constraint ''product_offers'') (offer_constraints old) (offer_constraints new)"

definition item_provider_key :: constraint where
  "item_provider_key = Foreign_Key ''provider_id'' ''inventory_providers'' ''id'' Restrict"

definition upgrade_offers :: "ddl list" where
  "upgrade_offers =
     [rename_table ''inventory_levels'' ''product_offers'',
      rename_index ''ix_inventory_levels_product_priority'' ''ix_product_offers_product_priority''] @
     rename_all ''inventory_levels'' ''product_offers'' @
     [add_column ''reservation_items'' (Col ''provider_id'' (Plain Sql_Uuid) True None),
      set_not_null ''reservation_items'' ''provider_id'',
      create_constraint (Given ''fk_reservation_items_provider_id_inventory_providers'') ''reservation_items'' item_provider_key]"

definition downgrade_offers :: "ddl list" where
  "downgrade_offers =
     [drop_constraint (Given ''fk_reservation_items_provider_id_inventory_providers'') ''reservation_items'' item_provider_key,
      drop_column ''reservation_items'' ''provider_id''] @
     rename_all ''product_offers'' ''inventory_levels'' @
     [rename_index ''ix_product_offers_product_priority'' ''ix_inventory_levels_product_priority'',
      rename_table ''product_offers'' ''inventory_levels'']"

subsection \<open>21c8e4f6a2b9: routing groups\<close>

definition upgrade_groups :: "ddl list" where
  "upgrade_groups =
     [add_column ''product_offers'' (Col ''routing_group'' (Plain Sql_Uuid) True None),
      create_index ''ix_product_offers_routing_group_priority'' ''product_offers''
        [''product_id'', ''routing_group'', ''allocation_priority'']]"

definition downgrade_groups :: "ddl list" where
  "downgrade_groups =
     [drop_index ''ix_product_offers_routing_group_priority'', drop_column ''product_offers'' ''routing_group'']"

text \<open>The chain of \<open>down_revision\<close>s, oldest first.\<close>

definition revisions :: "(ddl list \<times> ddl list) list" where
  "revisions = [(upgrade_initial, downgrade_initial), (upgrade_release_target, downgrade_release_target),
     (upgrade_failed_target, downgrade_failed_target), (upgrade_offers, downgrade_offers),
     (upgrade_groups, downgrade_groups)]"

text \<open>\<open>alembic upgrade\<close> through the first \<open>n\<close> revisions.\<close>

definition migrated :: "nat \<Rightarrow> catalogue option" where
  "migrated n = run_ddl (concat (map fst (take n revisions))) empty_catalogue"

end
