(* ===== verification/Migration_Chain.thy ===== *)
theory Migration_Chain
  imports Migrations
begin

section \<open>Migrating and undoing it\<close>

text \<open>
  The catalogue after each revision, computed table by table: only the tables of reservations, of
  levels or offers, and of items change after the first revision. Every downgrade undoes its upgrade.
\<close>

subsection \<open>The initial tables\<close>

lemmas initials = initial_providers_def initial_products_def initial_reservations_def initial_levels_def
  initial_orders_def initial_credentials_def initial_items_def initial_allocations_def initial_order_items_def
  initial_operations_def stamped_def

lemma nameables [simp]: 
  "nameable t initial_providers"  "nameable t initial_products"
  "nameable t initial_reservations"  "nameable t initial_levels"
  "nameable t initial_orders"  "nameable t initial_credentials"
  "nameable t initial_items"  "nameable t initial_allocations"
  "nameable t initial_order_items"  "nameable t initial_operations"
  by (simp_all add: nameable_def all_constraints_def initials)

lemma initial_targets:
  "concat (map element_targets initial_providers) = []"
  "concat (map element_targets initial_products) = []"
  "concat (map element_targets initial_reservations) = []"
  "concat (map element_targets initial_levels) = [(''products'', ''id''), (''inventory_providers'', ''id'')]"
  "concat (map element_targets initial_orders) = [(''reservations'', ''id'')]"
  "concat (map element_targets initial_credentials) = [(''inventory_providers'', ''id'')]"
  "concat (map element_targets initial_items) = [(''products'', ''id''), (''reservations'', ''id'')]"
  "concat (map element_targets initial_allocations) = [(''inventory_providers'', ''id''), (''reservation_items'', ''id'')]"
  "concat (map element_targets initial_order_items) = [(''orders'', ''id''), (''products'', ''id'')]"
  "concat (map element_targets initial_operations) = [(''inventory_allocations'', ''id'')]"
  by (simp_all add: initials)

lemma initial_columns:
  "list_ex (column_of ''id'') initial_providers"
  "list_ex (column_of ''id'') initial_products"
  "list_ex (column_of ''id'') initial_reservations"
  "list_ex (column_of ''id'') initial_orders"
  "list_ex (column_of ''id'') initial_items"
  "list_ex (column_of ''id'') initial_allocations"
  "list_ex (column_of ''status'') initial_reservations"
  "list_ex (column_of ''expires_at'') initial_reservations"
  "list_ex (column_of ''user_id'') initial_reservations"
  "list_ex (column_of ''created_at'') initial_reservations"
  "list_ex (column_of ''product_id'') initial_levels"
  "list_ex (column_of ''allocation_priority'') initial_levels"
  "list_ex (column_of ''status'') initial_operations"
  "list_ex (column_of ''next_attempt_at'') initial_operations"
  by (simp_all add: initials)


text \<open>The catalogue after any revision: three tables and the indexes change, the others stay.\<close>

definition chain :: "table \<Rightarrow> table \<Rightarrow> table \<Rightarrow> index list \<Rightarrow> catalogue" where
  "chain res levels its ixs = \<lparr>tables =
     [described ''inventory_providers'' initial_providers, described ''products'' initial_products, res, levels,
      described ''orders'' initial_orders, described ''provider_credentials'' initial_credentials, its,
      described ''inventory_allocations'' initial_allocations, described ''order_items'' initial_order_items,
      described ''provider_operations'' initial_operations], indexes = ixs\<rparr>"

abbreviation reservations_0 :: table where
  "reservations_0 \<equiv> described ''reservations'' initial_reservations"

abbreviation levels_0 :: table where
  "levels_0 \<equiv> described ''inventory_levels'' initial_levels"

abbreviation items_0 :: table where
  "items_0 \<equiv> described ''reservation_items'' initial_items"

definition indexes_of :: "string \<Rightarrow> string \<Rightarrow> index list" where
  "indexes_of t priority =
     [\<lparr>ix_name = ''ix_reservations_expiry_worker'', ix_table = ''reservations'', ix_columns = [''status'', ''expires_at'']\<rparr>,
      \<lparr>ix_name = ''ix_reservations_user_created'', ix_table = ''reservations'', ix_columns = [''user_id'', ''created_at'']\<rparr>,
      \<lparr>ix_name = priority, ix_table = t, ix_columns = [''product_id'', ''allocation_priority'']\<rparr>,
      \<lparr>ix_name = ''ix_provider_operations_retry_queue'', ix_table = ''provider_operations'',
        ix_columns = [''status'', ''next_attempt_at'']\<rparr>]"

abbreviation indexes_0 :: "index list" where
  "indexes_0 \<equiv> indexes_of ''inventory_levels'' ''ix_inventory_levels_product_priority''"

lemma initial_up: "run_ddl upgrade_initial empty_catalogue = Some (chain reservations_0 levels_0 items_0 indexes_0)"
  by (simp add: upgrade_initial_def empty_catalogue_def create_table_def create_index_def name_taken_def table_at_def has_index_def
    all_targets_described initial_targets has_column_def column_in_described initial_columns chain_def indexes_of_def)

lemma initial_down: "run_ddl downgrade_initial (chain reservations_0 levels_0 items_0 indexes_0) = Some empty_catalogue"
  by (simp add: downgrade_initial_def empty_catalogue_def drop_table_def drop_index_def table_at_def has_index_def
    refers_all_targets all_targets_described initial_targets chain_def indexes_of_def)

subsection \<open>The release target\<close>

definition target_column :: column where
  "target_column = \<lparr>col_name = ''release_target_status'', col_type = Varchar 20, col_nullable = True, col_default = None\<rparr>"

definition target_name :: string where
  "target_name = ''ck_reservations_ck_reservations_valid_release_target_status''"

definition reservations_1 :: "string list \<Rightarrow> table" where
  "reservations_1 vs = reservations_0\<lparr>tab_columns := tab_columns reservations_0 @ [target_column],
     tab_constraints := tab_constraints reservations_0 @ [(target_name, target_check vs)]\<rparr>"

lemma on_table_chain:
  assumes "tab_name r = ''reservations''" "tab_name l = ''inventory_levels'' \<or> tab_name l = ''product_offers''"
    "tab_name i = ''reservation_items''"
  shows "on_table ''reservations'' f (chain r l i x) = map_option (\<lambda>r'. chain r' l i x) (f r)"
    and "on_table (tab_name l) f (chain r l i x) = map_option (\<lambda>l'. chain r l' i x) (f l)"
    and "on_table ''reservation_items'' f (chain r l i x) = map_option (\<lambda>i'. chain r l i' x) (f i)"
  using assms by (auto simp: on_table_def table_at_def chain_def)

lemma reservation_constraints:
  "list_all (\<lambda>k. fst k \<noteq> target_name \<and> \<not> mentions ''release_target_status'' (snd k)) (named_constraints ''reservations'' initial_reservations)"
  by (simp add: named_constraints_def all_constraints_def initials target_name_def)

lemma reservation_columns:
  "list_all (\<lambda>y. col_name y \<noteq> ''release_target_status'') (tab_columns reservations_0)"
  by (simp add: described_def initials)

lemma target_named: "conventional ''reservations'' target_constraint (target_check vs) = Some target_name"
  by (simp add: target_constraint_def target_check_def target_name_def)


lemma named_new: "list_all (\<lambda>k. fst k \<noteq> target_name) (named_constraints ''reservations'' initial_reservations)"
  using reservation_constraints by (simp add: list_all_iff)

lemma target_steps:
  "extended (Col ''release_target_status'' (Plain (Varchar 20)) True None) reservations_0 =
     Some (reservations_0\<lparr>tab_columns := tab_columns reservations_0 @ [target_column]\<rparr>)"
  "constrained target_constraint (target_check vs) (reservations_0\<lparr>tab_columns := tab_columns reservations_0 @ [target_column]\<rparr>) =
     Some (reservations_1 vs)"
  "relaxed target_constraint (target_check ws) (reservations_1 vs) =
     Some (reservations_0\<lparr>tab_columns := tab_columns reservations_0 @ [target_column]\<rparr>)"
  "shortened ''release_target_status'' (reservations_0\<lparr>tab_columns := tab_columns reservations_0 @ [target_column]\<rparr>) =
     Some reservations_0"
proof -
  note cols = reservation_columns and cons = reservation_constraints and new = named_new
  show "extended (Col ''release_target_status'' (Plain (Varchar 20)) True None) reservations_0 =
     Some (reservations_0\<lparr>tab_columns := tab_columns reservations_0 @ [target_column]\<rparr>)"
    using cols
    by (simp add: extended_def nameable_def all_constraints_def named_constraints_def column_in_def list_ex_iff list_all_iff
        target_column_def)
  show "constrained target_constraint (target_check vs) (reservations_0\<lparr>tab_columns := tab_columns reservations_0 @ [target_column]\<rparr>) =
     Some (reservations_1 vs)"
    using new by (simp add: constrained_def target_named constraint_in_def list_ex_iff list_all_iff reservations_1_def)
  show "relaxed target_constraint (target_check ws) (reservations_1 vs) =
     Some (reservations_0\<lparr>tab_columns := tab_columns reservations_0 @ [target_column]\<rparr>)"
    using filter_all [OF new] by (simp add: relaxed_def target_named constraint_in_def reservations_1_def)
  show "shortened ''release_target_status'' (reservations_0\<lparr>tab_columns := tab_columns reservations_0 @ [target_column]\<rparr>) =
     Some reservations_0"
    using filter_all [OF cols] cons
    by (simp add: shortened_def column_in_def target_column_def list_all_iff filter_id_conv [THEN iffD2])
qed

lemma reservations_1_name [simp]: "tab_name (reservations_1 vs) = ''reservations''"
  by (simp add: reservations_1_def)

lemma no_targets [simp]: "targets (target_check vs) = []"
  by (simp add: target_check_def)

lemma release_target_up:
  "run_ddl upgrade_release_target (chain reservations_0 levels_0 items_0 indexes_0) =
     Some (chain (reservations_1 [''cancelled'', ''expired'']) levels_0 items_0 indexes_0)"
  by (simp add: upgrade_release_target_def add_column_def create_constraint_def on_table_chain target_steps)

lemma release_target_down:
  "run_ddl downgrade_release_target (chain (reservations_1 [''cancelled'', ''expired'']) levels_0 items_0 indexes_0) =
     Some (chain reservations_0 levels_0 items_0 indexes_0)"
  by (simp add: downgrade_release_target_def drop_column_def drop_constraint_def on_table_chain target_steps)
    (simp add: chain_def indexes_of_def)

lemma failed_target_up:
  "run_ddl upgrade_failed_target (chain (reservations_1 [''cancelled'', ''expired'']) levels_0 items_0 indexes_0) =
     Some (chain (reservations_1 [''cancelled'', ''expired'', ''failed'']) levels_0 items_0 indexes_0)"
  by (simp add: upgrade_failed_target_def drop_constraint_def create_constraint_def on_table_chain target_steps)

lemma failed_target_down:
  "run_ddl downgrade_failed_target (chain (reservations_1 [''cancelled'', ''expired'', ''failed'']) levels_0 items_0 indexes_0) =
     Some (chain (reservations_1 [''cancelled'', ''expired'']) levels_0 items_0 indexes_0)"
  by (simp add: downgrade_failed_target_def drop_constraint_def create_constraint_def on_table_chain target_steps)


subsection \<open>Offers\<close>

definition offer_keys :: "string \<Rightarrow> (string \<times> constraint) list" where
  "offer_keys t =
     [(''ck_'' @ t @ ''_non_negative_allocation_priority'', Check (Compare (Column ''allocation_priority'') Greater_Equal (Int_Literal 0))),
      (''ck_'' @ t @ ''_non_negative_on_hand'', Check (Compare (Column ''on_hand'') Greater_Equal (Int_Literal 0))),
      (''ck_'' @ t @ ''_reserved_not_above_on_hand'', Check (Compare (Column ''reserved'') Less_Equal (Column ''on_hand''))),
      (''ck_'' @ t @ ''_non_negative_reserved'', Check (Compare (Column ''reserved'') Greater_Equal (Int_Literal 0))),
      (''ck_'' @ t @ ''_positive_version'', Check (Compare (Column ''version'') Greater_Equal (Int_Literal 1))),
      (''fk_'' @ t @ ''_product_id_products'', Foreign_Key ''product_id'' ''products'' ''id'' Restrict),
      (''fk_'' @ t @ ''_provider_id_inventory_providers'', Foreign_Key ''provider_id'' ''inventory_providers'' ''id'' Restrict),
      (''pk_'' @ t, Primary_Key [''id'']),
      (''uq_'' @ t @ ''_product_id_provider_id'', Unique [''product_id'', ''provider_id''])]"

lemma level_keys: "named_constraints ''inventory_levels'' initial_levels = offer_keys ''inventory_levels''"
  by (simp add: named_constraints_def all_constraints_def initials offer_keys_def)

definition offers_0 :: table where
  "offers_0 = \<lparr>tab_name = ''product_offers'', tab_columns = tab_columns levels_0, tab_constraints = offer_keys ''product_offers''\<rparr>"

primrec steps :: "(table \<Rightarrow> table option) list \<Rightarrow> table \<Rightarrow> table option" where
  "steps [] x = Some x"
| "steps (f # fs) x = (case f x of None \<Rightarrow> None | Some x' \<Rightarrow> steps fs x')"

lemma rename_names:
  "steps (map2 rename_in (offer_constraints ''inventory_levels'') (offer_constraints ''product_offers''))
     \<lparr>tab_name = t, tab_columns = cs, tab_constraints = offer_keys ''inventory_levels''\<rparr> =
   Some \<lparr>tab_name = t, tab_columns = cs, tab_constraints = offer_keys ''product_offers''\<rparr>"
  "steps (map2 rename_in (offer_constraints ''product_offers'') (offer_constraints ''inventory_levels''))
     \<lparr>tab_name = t, tab_columns = cs, tab_constraints = offer_keys ''product_offers''\<rparr> =
   Some \<lparr>tab_name = t, tab_columns = cs, tab_constraints = offer_keys ''inventory_levels''\<rparr>"
  by (simp_all add: offer_constraints_def offer_keys_def rename_in_def constraint_in_def)


lemma rename_all_tables:
  "rename_all old new = map (on_table ''product_offers'') (map2 rename_in (offer_constraints old) (offer_constraints new))"
  by (simp add: rename_all_def rename_constraint_def offer_constraints_def)

lemma run_steps:
  assumes "\<forall>f\<in>set fs. \<forall>y y'. f y = Some y' \<longrightarrow> tab_name y' = tab_name y"
    and "tab_name r = ''reservations''" "tab_name l = ''product_offers''" "tab_name i = ''reservation_items''"
  shows "run_ddl (map (on_table ''product_offers'') fs) (chain r l i x) = map_option (\<lambda>l'. chain r l' i x) (steps fs l)"
  using assms
proof (induction fs arbitrary: l)
  case (Cons f fs)
  have here: "on_table ''product_offers'' f (chain r l i x) = map_option (\<lambda>l'. chain r l' i x) (f l)"
    using on_table_chain(2) [of r l i f x] Cons.prems by simp
  show ?case
  proof (cases "f l")
    case (Some l')
    then have "tab_name l' = ''product_offers''" using Cons.prems by fastforce
    with Cons here Some show ?thesis by simp
  qed (simp add: here)
qed simp

lemma rename_in_name: "\<forall>f\<in>set (map2 rename_in as bs). \<forall>y y'. f y = Some y' \<longrightarrow> tab_name y' = tab_name y"
  by (auto simp: rename_in_def split: if_splits)

definition provider_column :: column where
  "provider_column = \<lparr>col_name = ''provider_id'', col_type = Sql_Uuid, col_nullable = False, col_default = None\<rparr>"

definition items_1 :: table where
  "items_1 = items_0\<lparr>tab_columns := tab_columns items_0 @ [provider_column],
     tab_constraints := tab_constraints items_0 @
       [(''fk_reservation_items_provider_id_inventory_providers'', item_provider_key)]\<rparr>"

lemma changed_names [simp]: "tab_name items_1 = ''reservation_items''" "tab_name offers_0 = ''product_offers''"
  by (simp_all add: items_1_def offers_0_def)

lemma item_columns: "list_all (\<lambda>y. col_name y \<noteq> ''provider_id'') (tab_columns items_0)"
  by (simp add: described_def initials)

lemma item_constraints:
  "list_all (\<lambda>k. fst k \<noteq> ''fk_reservation_items_provider_id_inventory_providers'' \<and> \<not> mentions ''provider_id'' (snd k))
     (named_constraints ''reservation_items'' initial_items)"
  by (simp add: named_constraints_def all_constraints_def initials)

lemma item_steps:
  "extended (Col ''provider_id'' (Plain Sql_Uuid) True None) items_0 =
     Some (items_0\<lparr>tab_columns := tab_columns items_0 @ [provider_column\<lparr>col_nullable := True\<rparr>]\<rparr>)"
  "not_nullable ''provider_id'' (items_0\<lparr>tab_columns := tab_columns items_0 @ [provider_column\<lparr>col_nullable := True\<rparr>]\<rparr>) =
     Some (items_0\<lparr>tab_columns := tab_columns items_0 @ [provider_column]\<rparr>)"
  "constrained (Given ''fk_reservation_items_provider_id_inventory_providers'') item_provider_key
     (items_0\<lparr>tab_columns := tab_columns items_0 @ [provider_column]\<rparr>) = Some items_1"
  "relaxed (Given ''fk_reservation_items_provider_id_inventory_providers'') item_provider_key items_1 =
     Some (items_0\<lparr>tab_columns := tab_columns items_0 @ [provider_column]\<rparr>)"
  "shortened ''provider_id'' (items_0\<lparr>tab_columns := tab_columns items_0 @ [provider_column]\<rparr>) = Some items_0"
proof -
  note cols = item_columns and cons = item_constraints
  have new: "list_all (\<lambda>k. fst k \<noteq> ''fk_reservation_items_provider_id_inventory_providers'')
      (named_constraints ''reservation_items'' initial_items)" using cons by (simp add: list_all_iff)
  show "extended (Col ''provider_id'' (Plain Sql_Uuid) True None) items_0 =
     Some (items_0\<lparr>tab_columns := tab_columns items_0 @ [provider_column\<lparr>col_nullable := True\<rparr>]\<rparr>)"
    using cols
    by (simp add: extended_def nameable_def all_constraints_def named_constraints_def column_in_def list_ex_iff list_all_iff
        provider_column_def)
  show "not_nullable ''provider_id'' (items_0\<lparr>tab_columns := tab_columns items_0 @ [provider_column\<lparr>col_nullable := True\<rparr>]\<rparr>) =
     Some (items_0\<lparr>tab_columns := tab_columns items_0 @ [provider_column]\<rparr>)"
  proof -
    have "map (\<lambda>y. if col_name y = ''provider_id'' then y\<lparr>col_nullable := False\<rparr> else y) (tab_columns items_0) = tab_columns items_0"
      by (rule map_idI) (use cols in \<open>simp add: list_all_iff\<close>)
    then show ?thesis by (simp add: not_nullable_def column_in_def provider_column_def)
  qed
  show "constrained (Given ''fk_reservation_items_provider_id_inventory_providers'') item_provider_key
     (items_0\<lparr>tab_columns := tab_columns items_0 @ [provider_column]\<rparr>) = Some items_1"
    using new by (simp add: constrained_def item_provider_key_def constraint_in_def list_ex_iff list_all_iff items_1_def)
  show "relaxed (Given ''fk_reservation_items_provider_id_inventory_providers'') item_provider_key items_1 =
     Some (items_0\<lparr>tab_columns := tab_columns items_0 @ [provider_column]\<rparr>)"
    using filter_all [OF new] by (simp add: relaxed_def item_provider_key_def constraint_in_def items_1_def)
  show "shortened ''provider_id'' (items_0\<lparr>tab_columns := tab_columns items_0 @ [provider_column]\<rparr>) = Some items_0"
    using filter_all [OF cols] cons
    by (simp add: shortened_def column_in_def provider_column_def list_all_iff filter_id_conv [THEN iffD2])
qed

abbreviation reservations_2 :: table where
  "reservations_2 \<equiv> reservations_1 [''cancelled'', ''expired'', ''failed'']"

abbreviation indexes_1 :: "index list" where
  "indexes_1 \<equiv> indexes_of ''product_offers'' ''ix_product_offers_product_priority''"

lemma chain_targets:
  assumes "old = ''inventory_levels'' \<or> old = ''product_offers''" and "tab_constraints l = offer_keys t"
  shows "list_all (\<lambda>x. list_all (\<lambda>p. fst p \<noteq> old) (all_targets (tab_constraints x))) (tables (chain reservations_2 l items_0 ix))"
proof -
  have "all_targets (tab_constraints reservations_2) = []" "all_targets (offer_keys t) = [(''products'', ''id''), (''inventory_providers'', ''id'')]"
    using all_targets_described [of "''reservations''" initial_reservations] initial_targets(3)
    by (simp_all add: reservations_1_def all_targets_def target_check_def offer_keys_def)
  then show ?thesis
    using assms by (auto simp: chain_def all_targets_described initial_targets)
qed

lemma offers_up:
  "run_ddl upgrade_offers (chain reservations_2 levels_0 items_0 indexes_0) =
     Some (chain reservations_2 offers_0 items_1 indexes_1)"
proof -
  let ?mid = "\<lparr>tab_name = ''product_offers'', tab_columns = tab_columns levels_0, tab_constraints = offer_keys ''inventory_levels''\<rparr>"
  have "rename_table ''inventory_levels'' ''product_offers'' (chain reservations_2 levels_0 items_0 indexes_0) =
      Some (chain reservations_2 ?mid items_0 (indexes_of ''product_offers'' ''ix_inventory_levels_product_priority''))"
    using rename_untargeted [OF chain_targets [where t = "''inventory_levels''" and l = levels_0]]
    by (simp add: level_keys table_at_def chain_def name_taken_def has_index_def indexes_of_def retitled_def described_def)
  moreover have "rename_index ''ix_inventory_levels_product_priority'' ''ix_product_offers_product_priority''
      (chain reservations_2 ?mid items_0 (indexes_of ''product_offers'' ''ix_inventory_levels_product_priority'')) =
      Some (chain reservations_2 ?mid items_0 indexes_1)"
    by (simp add: rename_index_def chain_def indexes_of_def has_index_def name_taken_def table_at_def)
  moreover have "run_ddl (rename_all ''inventory_levels'' ''product_offers'') (chain reservations_2 ?mid items_0 indexes_1) =
      Some (chain reservations_2 offers_0 items_0 indexes_1)"
    unfolding rename_all_tables
    by (simp only: run_steps [OF rename_in_name] reservations_1_name described_simps table.simps rename_names offers_0_def) simp
  moreover have "has_column ''inventory_providers'' ''id'' (chain r l i x)" for r l i x
    by (simp add: has_column_def table_at_def chain_def column_in_described initial_columns)
  ultimately show ?thesis
    by (simp add: upgrade_offers_def run_append add_column_def set_not_null_def create_constraint_def on_table_chain
        item_steps item_provider_key_def [symmetric]) (simp add: item_provider_key_def)
qed


lemma offers_down:
  "run_ddl downgrade_offers (chain reservations_2 offers_0 items_1 indexes_1) =
     Some (chain reservations_2 levels_0 items_0 indexes_0)"
proof -
  let ?mid = "\<lparr>tab_name = ''product_offers'', tab_columns = tab_columns levels_0, tab_constraints = offer_keys ''inventory_levels''\<rparr>"
  have "run_ddl (rename_all ''product_offers'' ''inventory_levels'') (chain reservations_2 offers_0 items_0 indexes_1) =
      Some (chain reservations_2 ?mid items_0 indexes_1)"
    unfolding rename_all_tables
    by (simp only: run_steps [OF rename_in_name] reservations_1_name described_simps table.simps rename_names offers_0_def) simp
  moreover have "rename_index ''ix_product_offers_product_priority'' ''ix_inventory_levels_product_priority''
      (chain reservations_2 ?mid items_0 indexes_1) =
      Some (chain reservations_2 ?mid items_0 (indexes_of ''product_offers'' ''ix_inventory_levels_product_priority''))"
    by (simp add: rename_index_def chain_def indexes_of_def has_index_def name_taken_def table_at_def)
  moreover have "rename_table ''product_offers'' ''inventory_levels''
      (chain reservations_2 ?mid items_0 (indexes_of ''product_offers'' ''ix_inventory_levels_product_priority'')) =
      Some (chain reservations_2 levels_0 items_0 indexes_0)"
    using rename_untargeted [OF chain_targets [where t = "''inventory_levels''" and l = ?mid]]
    by (simp add: level_keys table_at_def chain_def name_taken_def has_index_def indexes_of_def retitled_def described_def)
  moreover have "drop_column ''reservation_items'' ''provider_id''
      (chain reservations_2 offers_0 (items_0\<lparr>tab_columns := tab_columns items_0 @ [provider_column]\<rparr>) indexes_1) =
      Some (chain reservations_2 offers_0 items_0 indexes_1)"
    by (simp add: drop_column_def on_table_chain item_steps) (simp add: chain_def indexes_of_def)
  ultimately show ?thesis
    by (simp add: downgrade_offers_def run_append drop_constraint_def on_table_chain item_steps)
qed

definition group_column :: column where
  "group_column = \<lparr>col_name = ''routing_group'', col_type = Sql_Uuid, col_nullable = True, col_default = None\<rparr>"

definition offers_1 :: table where
  "offers_1 = offers_0\<lparr>tab_columns := tab_columns offers_0 @ [group_column]\<rparr>"

definition indexes_2 :: "index list" where
  "indexes_2 = indexes_1 @ [\<lparr>ix_name = ''ix_product_offers_routing_group_priority'', ix_table = ''product_offers'',
     ix_columns = [''product_id'', ''routing_group'', ''allocation_priority'']\<rparr>]"

lemma offer_columns:
  "list_all (\<lambda>y. col_name y \<noteq> ''routing_group'') (tab_columns offers_0)"
  "column_in ''product_id'' offers_0" "column_in ''allocation_priority'' offers_0"
  by (simp_all add: offers_0_def described_def initials column_in_def)

lemma groups_up:
  "run_ddl upgrade_groups (chain reservations_2 offers_0 items_1 indexes_1) =
     Some (chain reservations_2 offers_1 items_1 indexes_2)"
proof -
  have "extended (Col ''routing_group'' (Plain Sql_Uuid) True None) offers_0 = Some offers_1"
    using offer_columns(1)
    by (simp add: extended_def nameable_def all_constraints_def named_constraints_def column_in_def list_ex_iff list_all_iff
        group_column_def offers_1_def)
  moreover have "on_table ''product_offers'' f (chain reservations_2 offers_0 items_1 x) =
      map_option (\<lambda>l. chain reservations_2 l items_1 x) (f offers_0)" for f x
    using on_table_chain(2) [of reservations_2 offers_0 items_1 f x] by simp
  moreover have "has_column ''product_offers'' n (chain reservations_2 offers_1 items_1 x) = (n = ''routing_group'' \<or> column_in n offers_0)"
    for n x
    by (auto simp: has_column_def table_at_def chain_def offers_1_def column_in_def group_column_def)
  ultimately show ?thesis
    using offer_columns(2,3)
    by (simp add: upgrade_groups_def add_column_def create_index_def)
      (simp add: name_taken_def table_at_def has_index_def chain_def indexes_of_def indexes_2_def offers_1_def)
qed

lemma groups_down:
  "run_ddl downgrade_groups (chain reservations_2 offers_1 items_1 indexes_2) =
     Some (chain reservations_2 offers_0 items_1 indexes_1)"
proof -
  have "list_all (\<lambda>k. \<not> mentions ''routing_group'' (snd k)) (tab_constraints offers_0)"
    by (simp add: offers_0_def offer_keys_def)
  with offer_columns(1) have "shortened ''routing_group'' offers_1 = Some offers_0"
    by (simp add: shortened_def offers_1_def column_in_def group_column_def list_all_iff filter_id_conv [THEN iffD2])
  moreover have "on_table ''product_offers'' f (chain reservations_2 offers_1 items_1 x) =
      map_option (\<lambda>l. chain reservations_2 l items_1 x) (f offers_1)" for f x
    using on_table_chain(2) [of reservations_2 offers_1 items_1 f x] by (simp add: offers_1_def)
  moreover have "drop_index ''ix_product_offers_routing_group_priority'' (chain r l i indexes_2) = Some (chain r l i indexes_1)" for r l i
    by (simp add: drop_index_def has_index_def chain_def indexes_2_def indexes_of_def)
  ultimately show ?thesis
    by (simp add: downgrade_groups_def drop_column_def) (simp add: chain_def indexes_of_def)
qed

subsection \<open>The chain\<close>

fun catalogue_after :: "nat \<Rightarrow> catalogue" where
  "catalogue_after 0 = empty_catalogue"
| "catalogue_after (Suc 0) = chain reservations_0 levels_0 items_0 indexes_0"
| "catalogue_after (Suc (Suc 0)) = chain (reservations_1 [''cancelled'', ''expired'']) levels_0 items_0 indexes_0"
| "catalogue_after (Suc (Suc (Suc 0))) = chain reservations_2 levels_0 items_0 indexes_0"
| "catalogue_after (Suc (Suc (Suc (Suc 0)))) = chain reservations_2 offers_0 items_1 indexes_1"
| "catalogue_after _ = chain reservations_2 offers_1 items_1 indexes_2"

lemma revision_steps:
  assumes "n < 5"
  shows "run_ddl (fst (revisions ! n)) (catalogue_after n) = Some (catalogue_after (Suc n)) \<and>
    run_ddl (snd (revisions ! n)) (catalogue_after (Suc n)) = Some (catalogue_after n)"
proof -
  consider "n = 0" | "n = 1" | "n = 2" | "n = 3" | "n = 4" using assms by linarith
  then show ?thesis
    by cases (simp_all add: revisions_def initial_up initial_down release_target_up release_target_down failed_target_up
        failed_target_down offers_up offers_down groups_up groups_down numeral_2_eq_2 numeral_3_eq_3 eval_nat_numeral)
qed

lemma length_revisions [simp]: "length revisions = 5"
  by (simp add: revisions_def)

lemma migrated_Suc: "n < 5 \<Longrightarrow> migrated (Suc n) = (case migrated n of None \<Rightarrow> None | Some c \<Rightarrow> run_ddl (fst (revisions ! n)) c)"
  by (simp add: migrated_def take_Suc_conv_app_nth run_append)

lemma migrated_after: "n \<le> 5 \<Longrightarrow> migrated n = Some (catalogue_after n)"
proof (induction n)
  case (Suc n)
  then show ?case using revision_steps [of n] by (simp add: migrated_Suc)
qed (simp add: migrated_def)

definition downgrade_path :: "nat \<Rightarrow> nat \<Rightarrow> ddl list" where
  "downgrade_path m n = concat (map snd (rev (drop n (take m revisions))))"

text \<open>
  C32. Migrations can be undone. From the empty database the revisions run to any point of the chain,
  and from there the downgrades lead back to every earlier point: the same tables, columns, named
  constraints and indexes, in the same order.
\<close>

theorem migrations_undo:
  assumes "n \<le> m" and "m \<le> length revisions"
  shows "\<exists>c c'. migrated m = Some c \<and> migrated n = Some c' \<and> run_ddl (downgrade_path m n) c = Some c'"
  using assms
proof (induction m rule: dec_induct)
  case base
  then show ?case by (simp add: migrated_after downgrade_path_def)
next
  case (step m)
  then obtain c c' where before: "migrated m = Some c" "migrated n = Some c'" "run_ddl (downgrade_path m n) c = Some c'" by auto
  have "downgrade_path (Suc m) n = snd (revisions ! m) @ downgrade_path m n"
    using step by (simp add: downgrade_path_def take_Suc_conv_app_nth)
  with before step revision_steps [of m] migrated_after [of m] migrated_after [of "Suc m"] show ?case
    by (simp add: run_append)
qed

theorem migrations_undo_witness:
  "\<exists>c c'. migrated 5 = Some c \<and> migrated 1 = Some c' \<and> run_ddl (downgrade_path 5 1) c = Some c'"
  using migrations_undo [of 1 5] by simp

end
