(* ===== verification/Models.thy ===== *)
theory Models
  imports Migration_Chain
begin

section \<open>The tables the program declares\<close>

text \<open>
  The classes of \<open>repository/models.py\<close> as descriptions of tables, named by its naming
  convention, and that the migrations lead to exactly these.
\<close>

subsection \<open>Column enumerations\<close>

fun allocation_value :: "allocation_status \<Rightarrow> string" where
  "allocation_value A_Pending = ''pending''"
| "allocation_value A_Held = ''held''"
| "allocation_value A_Confirming = ''confirming''"
| "allocation_value A_Confirmed = ''confirmed''"
| "allocation_value A_Releasing = ''releasing''"
| "allocation_value A_Released = ''released''"
| "allocation_value A_Failed = ''failed''"
| "allocation_value A_Unknown = ''unknown''"

fun operation_value :: "operation_type \<Rightarrow> string" where
  "operation_value Op_Check = ''check''"
| "operation_value Op_Hold = ''hold''"
| "operation_value Op_Confirm = ''confirm''"
| "operation_value Op_Release = ''release''"

fun operation_status_value :: "operation_status \<Rightarrow> string" where
  "operation_status_value Op_Pending = ''pending''"
| "operation_status_value Op_In_Progress = ''in_progress''"
| "operation_status_value Op_Succeeded = ''succeeded''"
| "operation_status_value Op_Failed = ''failed''"
| "operation_status_value Op_Unknown = ''unknown''"

definition enumerated :: "string \<Rightarrow> string list \<Rightarrow> element_type" where
  "enumerated n vs = Enumeration vs n True None"

subsection \<open>The mixins\<close>

definition uuid_primary_key :: "element list" where
  "uuid_primary_key = [Col ''id'' (Plain Sql_Uuid) False None, Con Unnamed (Primary_Key [''id''])]"

definition timestamps :: "element list" where
  "timestamps =
     [Col ''created_at'' (Plain Timestamp_Tz) False (Some Now),
      Col ''updated_at'' (Plain Timestamp_Tz) False (Some Now)]"

definition mixins :: "element list" where
  "mixins = uuid_primary_key @ timestamps"

subsection \<open>The models\<close>

definition product_model :: "element list" where
  "product_model =
     [Col ''sku'' (Plain (Varchar 100)) False None, Con Unnamed (Unique [''sku'']),
      Col ''name'' (Plain (Varchar 255)) False None,
      Col ''is_active'' (Plain Sql_Boolean) False (Some (Truth True))] @ mixins @
     [Con (Given ''sku_not_empty'') (Check (Compare (Length_Of ''sku'') Greater (Int_Literal 0))),
      Con (Given ''name_not_empty'') (Check (Compare (Length_Of ''name'') Greater (Int_Literal 0)))]"

definition provider_model :: "element list" where
  "provider_model =
     [Col ''name'' (Plain (Varchar 100)) False None, Con Unnamed (Unique [''name'']),
      Col ''kind'' (enumerated ''provider_kind'' (map kind_value [Internal, External])) False None,
      Col ''driver'' (Plain (Varchar 100)) False None,
      Col ''base_url'' (Plain (Varchar 500)) True None,
      Col ''request_timeout_ms'' (Plain Sql_Integer) False (Some (Number 2000)),
      Col ''supports_availability'' (Plain Sql_Boolean) False (Some (Truth True)),
      Col ''supports_hold'' (Plain Sql_Boolean) False (Some (Truth False)),
      Col ''supports_confirm'' (Plain Sql_Boolean) False (Some (Truth False)),
      Col ''supports_release'' (Plain Sql_Boolean) False (Some (Truth False)),
      Col ''is_enabled'' (Plain Sql_Boolean) False (Some (Truth True))] @ mixins @
     [Con (Given ''external_provider_requires_base_url'')
        (Check (Or (Compare (Column ''kind'') Unequal (Text_Literal ''external'')) (Not_Null ''base_url''))),
      Con (Given ''positive_request_timeout'') (Check (Compare (Column ''request_timeout_ms'') Greater (Int_Literal 0)))]"

definition credential_model :: "element list" where
  "credential_model =
     [Col ''provider_id'' (Plain Sql_Uuid) False None,
      Con Unnamed (Foreign_Key ''provider_id'' ''inventory_providers'' ''id'' Cascade),
      Col ''auth_type'' (enumerated ''provider_auth_type'' (map auth_value [Auth_None, Auth_Api_Key, Auth_Bearer,
        Auth_Basic, Auth_OAuth2])) False (Some (Quoted ''none'')),
      Col ''secret_ref'' (Plain (Varchar 255)) True None,
      Col ''public_config'' (Plain Jsonb) False (Some (Cast ''{}'' ''jsonb''))] @ mixins @
     [Con Unnamed (Unique [''provider_id'']),
      Con (Given ''authenticated_provider_requires_secret_ref'')
        (Check (Or (Compare (Column ''auth_type'') Equal (Text_Literal ''none'')) (Not_Null ''secret_ref'')))]"

definition offer_model :: "element list" where
  "offer_model =
     [Col ''product_id'' (Plain Sql_Uuid) False None,
      Con Unnamed (Foreign_Key ''product_id'' ''products'' ''id'' Restrict),
      Col ''provider_id'' (Plain Sql_Uuid) False None,
      Con Unnamed (Foreign_Key ''provider_id'' ''inventory_providers'' ''id'' Restrict),
      Col ''on_hand'' (Plain Sql_Integer) False (Some (Number 0)),
      Col ''reserved'' (Plain Sql_Integer) False (Some (Number 0)),
      Col ''allocation_priority'' (Plain Sql_Integer) False (Some (Number 100)),
      Col ''routing_group'' (Plain Sql_Uuid) True None,
      Col ''version'' (Plain Sql_Integer) False (Some (Number 1)),
      Col ''observed_at'' (Plain Timestamp_Tz) True None] @ mixins @
     [Con Unnamed (Unique [''product_id'', ''provider_id'']),
      Con (Given ''non_negative_on_hand'') (Check (Compare (Column ''on_hand'') Greater_Equal (Int_Literal 0))),
      Con (Given ''non_negative_reserved'') (Check (Compare (Column ''reserved'') Greater_Equal (Int_Literal 0))),
      Con (Given ''reserved_not_above_on_hand'') (Check (Compare (Column ''reserved'') Less_Equal (Column ''on_hand''))),
      Con (Given ''positive_version'') (Check (Compare (Column ''version'') Greater_Equal (Int_Literal 1))),
      Con (Given ''non_negative_allocation_priority'')
        (Check (Compare (Column ''allocation_priority'') Greater_Equal (Int_Literal 0)))]"

definition reservation_model :: "element list" where
  "reservation_model =
     [Col ''user_id'' (Plain Sql_Uuid) False None,
      Col ''idempotency_key'' (Plain (Varchar 128)) False None,
      Col ''request_fingerprint'' (Plain (Varchar 64)) False None,
      Col ''status'' (enumerated ''reservation_status'' (map status_model_value all_status_models))
        False (Some (Quoted ''pending'')),
      Col ''expires_at'' (Plain Timestamp_Tz) False None,
      Col ''release_target_status'' (Enumeration (map status_model_value all_status_models)
        ''reservation_release_target_status'' False (Some 20)) True None,
      Col ''failure_code'' (Plain (Varchar 100)) True None,
      Col ''failure_reason'' (Plain Sql_Text) True None,
      Col ''version'' (Plain Sql_Integer) False (Some (Number 1))] @ mixins @
     [Con Unnamed (Unique [''user_id'', ''idempotency_key'']),
      Con (Given ''idempotency_key_not_empty'') (Check (Compare (Length_Of ''idempotency_key'') Greater (Int_Literal 0))),
      Con (Given ''request_fingerprint_sha256'')
        (Check (Compare (Length_Of ''request_fingerprint'') Equal (Int_Literal 64))),
      Con (Given ''valid_release_target_status'')
        (Check (Or (Is_Null ''release_target_status'')
          (One_Of ''release_target_status'' [''cancelled'', ''expired'', ''failed'']))),
      Con (Given ''positive_version'') (Check (Compare (Column ''version'') Greater_Equal (Int_Literal 1)))]"

definition item_model :: "element list" where
  "item_model =
     [Col ''reservation_id'' (Plain Sql_Uuid) False None,
      Con Unnamed (Foreign_Key ''reservation_id'' ''reservations'' ''id'' Cascade),
      Col ''product_id'' (Plain Sql_Uuid) False None,
      Con Unnamed (Foreign_Key ''product_id'' ''products'' ''id'' Restrict),
      Col ''provider_id'' (Plain Sql_Uuid) False None,
      Con Unnamed (Foreign_Key ''provider_id'' ''inventory_providers'' ''id'' Restrict),
      Col ''requested_quantity'' (Plain Sql_Integer) False None] @ mixins @
     [Con Unnamed (Unique [''reservation_id'', ''product_id'']),
      Con (Given ''positive_requested_quantity'')
        (Check (Compare (Column ''requested_quantity'') Greater (Int_Literal 0)))]"

definition allocation_model :: "element list" where
  "allocation_model =
     [Col ''reservation_item_id'' (Plain Sql_Uuid) False None,
      Con Unnamed (Foreign_Key ''reservation_item_id'' ''reservation_items'' ''id'' Cascade),
      Col ''provider_id'' (Plain Sql_Uuid) False None,
      Con Unnamed (Foreign_Key ''provider_id'' ''inventory_providers'' ''id'' Restrict),
      Col ''quantity'' (Plain Sql_Integer) False None,
      Col ''status'' (enumerated ''allocation_status'' (map allocation_value [A_Pending, A_Held, A_Confirming,
        A_Confirmed, A_Releasing, A_Released, A_Failed, A_Unknown])) False (Some (Quoted ''pending'')),
      Col ''hold_idempotency_key'' (Plain (Varchar 255)) False None,
      Col ''provider_hold_reference'' (Plain (Varchar 255)) True None,
      Col ''failure_code'' (Plain (Varchar 100)) True None,
      Col ''failure_reason'' (Plain Sql_Text) True None] @ mixins @
     [Con Unnamed (Unique [''reservation_item_id'', ''provider_id'']),
      Con Unnamed (Unique [''hold_idempotency_key'']),
      Con (Given ''positive_quantity'') (Check (Compare (Column ''quantity'') Greater (Int_Literal 0)))]"

definition operation_model :: "element list" where
  "operation_model =
     [Col ''allocation_id'' (Plain Sql_Uuid) False None,
      Con Unnamed (Foreign_Key ''allocation_id'' ''inventory_allocations'' ''id'' Cascade),
      Col ''operation'' (enumerated ''provider_operation_type'' (map operation_value [Op_Check, Op_Hold, Op_Confirm,
        Op_Release])) False None,
      Col ''status'' (enumerated ''provider_operation_status'' (map operation_status_value [Op_Pending, Op_In_Progress,
        Op_Succeeded, Op_Failed, Op_Unknown])) False (Some (Quoted ''pending'')),
      Col ''idempotency_key'' (Plain (Varchar 255)) False None,
      Col ''attempt_count'' (Plain Sql_Integer) False (Some (Number 0)),
      Col ''next_attempt_at'' (Plain Timestamp_Tz) True None,
      Col ''locked_at'' (Plain Timestamp_Tz) True None,
      Col ''locked_by'' (Plain (Varchar 255)) True None,
      Col ''external_reference'' (Plain (Varchar 255)) True None,
      Col ''http_status'' (Plain Sql_Integer) True None,
      Col ''error_code'' (Plain (Varchar 100)) True None,
      Col ''error_message'' (Plain Sql_Text) True None,
      Col ''latency_ms'' (Plain Sql_Integer) True None] @ mixins @
     [Con Unnamed (Unique [''idempotency_key'']),
      Con (Given ''non_negative_attempt_count'') (Check (Compare (Column ''attempt_count'') Greater_Equal (Int_Literal 0))),
      Con (Given ''non_negative_latency'')
        (Check (Or (Is_Null ''latency_ms'') (Compare (Column ''latency_ms'') Greater_Equal (Int_Literal 0)))),
      Con (Given ''valid_http_status'') (Check (Or (Is_Null ''http_status'') (Between ''http_status'' 100 599)))]"

definition order_model :: "element list" where
  "order_model =
     [Col ''reservation_id'' (Plain Sql_Uuid) False None,
      Con Unnamed (Foreign_Key ''reservation_id'' ''reservations'' ''id'' Restrict),
      Col ''user_id'' (Plain Sql_Uuid) False None] @ mixins @
     [Con Unnamed (Unique [''reservation_id''])]"

definition order_item_model :: "element list" where
  "order_item_model =
     [Col ''order_id'' (Plain Sql_Uuid) False None,
      Con Unnamed (Foreign_Key ''order_id'' ''orders'' ''id'' Cascade),
      Col ''product_id'' (Plain Sql_Uuid) False None,
      Con Unnamed (Foreign_Key ''product_id'' ''products'' ''id'' Restrict),
      Col ''quantity'' (Plain Sql_Integer) False None] @ mixins @
     [Con Unnamed (Unique [''order_id'', ''product_id'']),
      Con (Given ''positive_quantity'') (Check (Compare (Column ''quantity'') Greater (Int_Literal 0)))]"

text \<open>\<open>Base.metadata\<close>, in an order in which the tables can be created.\<close>

definition model_tables :: "table list" where
  "model_tables =
     [described ''inventory_providers'' provider_model, described ''products'' product_model,
      described ''reservations'' reservation_model, described ''product_offers'' offer_model,
      described ''orders'' order_model, described ''provider_credentials'' credential_model,
      described ''reservation_items'' item_model, described ''inventory_allocations'' allocation_model,
      described ''order_items'' order_item_model, described ''provider_operations'' operation_model]"

definition model_indexes :: "index list" where
  "model_indexes =
     [\<lparr>ix_name = ''ix_product_offers_product_priority'', ix_table = ''product_offers'',
        ix_columns = [''product_id'', ''allocation_priority'']\<rparr>,
      \<lparr>ix_name = ''ix_product_offers_routing_group_priority'', ix_table = ''product_offers'',
        ix_columns = [''product_id'', ''routing_group'', ''allocation_priority'']\<rparr>,
      \<lparr>ix_name = ''ix_reservations_expiry_worker'', ix_table = ''reservations'', ix_columns = [''status'', ''expires_at'']\<rparr>,
      \<lparr>ix_name = ''ix_reservations_user_created'', ix_table = ''reservations'', ix_columns = [''user_id'', ''created_at'']\<rparr>,
      \<lparr>ix_name = ''ix_provider_operations_retry_queue'', ix_table = ''provider_operations'',
        ix_columns = [''status'', ''next_attempt_at'']\<rparr>]"

lemmas models = product_model_def provider_model_def credential_model_def offer_model_def reservation_model_def
  item_model_def allocation_model_def operation_model_def order_model_def order_item_model_def mixins_def
  uuid_primary_key_def timestamps_def enumerated_def all_status_models_def

subsection \<open>The migrations lead to the models\<close>

text \<open>The order of columns, constraints and indexes does not matter.\<close>

definition same_table :: "table \<Rightarrow> table \<Rightarrow> bool" where
  "same_table x y \<longleftrightarrow> tab_name x = tab_name y \<and> set (tab_columns x) = set (tab_columns y) \<and>
     set (tab_constraints x) = set (tab_constraints y)"

lemmas table_parts = same_table_def described_def named_constraints_def all_constraints_def

lemma same_products: "same_table (described ''products'' initial_products) (described ''products'' product_model)"
  by (simp add: table_parts initials models insert_commute)

lemma same_orders: "same_table (described ''orders'' initial_orders) (described ''orders'' order_model)"
  by (simp add: table_parts initials models insert_commute)

lemma same_providers:
  "same_table (described ''inventory_providers'' initial_providers) (described ''inventory_providers'' provider_model)"
  by (simp add: table_parts initials models insert_commute)

lemma same_credentials:
  "same_table (described ''provider_credentials'' initial_credentials) (described ''provider_credentials'' credential_model)"
  by (simp add: table_parts initials models insert_commute)

lemma same_allocations:
  "same_table (described ''inventory_allocations'' initial_allocations) (described ''inventory_allocations'' allocation_model)"
  by (simp add: table_parts initials models insert_commute)

lemma same_order_items: "same_table (described ''order_items'' initial_order_items) (described ''order_items'' order_item_model)"
  by (simp add: table_parts initials models insert_commute)

lemma same_operations:
  "same_table (described ''provider_operations'' initial_operations) (described ''provider_operations'' operation_model)"
  by (simp add: table_parts initials models insert_commute)

lemma same_items: "same_table items_1 (described ''reservation_items'' item_model)"
  by (simp add: table_parts items_1_def provider_column_def item_provider_key_def initials models insert_commute)

lemma same_offers: "same_table offers_1 (described ''product_offers'' offer_model)"
  by (simp add: table_parts offers_1_def offers_0_def group_column_def offer_keys_def initials models insert_commute)

text \<open>The one check the migrations name otherwise: alembic applies the convention to its whole name again.\<close>

definition reservations_named :: table where
  "reservations_named = reservations_2\<lparr>tab_constraints := named_constraints ''reservations'' initial_reservations @
     [(''ck_reservations_valid_release_target_status'', target_check [''cancelled'', ''expired'', ''failed''])]\<rparr>"

lemma same_reservations: "same_table reservations_named (described ''reservations'' reservation_model)"
  by (simp add: table_parts reservations_named_def reservations_1_def target_column_def target_check_def initials models
      insert_commute)

lemma renamed_target:
  "rename_in target_name ''ck_reservations_valid_release_target_status'' reservations_2 = Some reservations_named"
  by (simp add: rename_in_def constraint_in_def reservations_1_def reservations_named_def named_constraints_def
      all_constraints_def initials target_name_def)

text \<open>
  C31. The migrations build the schema the program declares. Upgrading an empty database through every
  revision succeeds, and the tables, columns, constraints and indexes it then has are those of the
  models, under the names the naming convention gives them; but for one check of \<open>reservations\<close>,
  whose prefix is there twice.
\<close>

theorem migrations_build_the_models:
  "\<exists>c c'. migrated (length revisions) = Some c \<and>
     rename_constraint ''reservations'' ''ck_reservations_ck_reservations_valid_release_target_status''
       ''ck_reservations_valid_release_target_status'' c = Some c' \<and>
     list_all2 same_table (tables c') model_tables \<and> set (indexes c') = set model_indexes"
proof -
  have "rename_constraint ''reservations'' ''ck_reservations_ck_reservations_valid_release_target_status''
      ''ck_reservations_valid_release_target_status'' (chain reservations_2 offers_1 items_1 indexes_2) =
    Some (chain reservations_named offers_1 items_1 indexes_2)"
    using renamed_target by (simp add: rename_constraint_def on_table_chain offers_1_def target_name_def)
  moreover have "list_all2 same_table (tables (chain reservations_named offers_1 items_1 indexes_2)) model_tables"
    by (simp add: chain_def model_tables_def same_products same_orders same_providers same_credentials same_allocations
        same_order_items same_operations same_items same_offers same_reservations)
  moreover have "set (indexes (chain reservations_named offers_1 items_1 indexes_2)) = set model_indexes"
    by (simp add: chain_def model_indexes_def indexes_2_def indexes_of_def insert_commute)
  ultimately show ?thesis using migrated_after [of 5] by (simp add: eval_nat_numeral)
qed

end
