(* ===== verification/Schema_Agreement.thy ===== *)
theory Schema_Agreement
  imports Models Catalog
begin

section \<open>Insertions answer as the declared tables say\<close>

text \<open>
  Theory \<open>Schema\<close> writes out what each insertion checks. Here its answers are compared with the
  tables the models declare: a stored row passes every check of its table, a violation names a
  constraint of the table, and a check only when the row fails it.
\<close>

subsection \<open>Rows as cells\<close>

text \<open>A column the program never sets has its server default, or is null.\<close>

definition text_or_null :: "string option \<Rightarrow> cell" where
  "text_or_null s = (case s of None \<Rightarrow> Null | Some t \<Rightarrow> Text_Cell t)"

definition cells :: "(string \<times> cell) list \<Rightarrow> string \<Rightarrow> cell" where
  "cells kvs c = (case map_of kvs c of None \<Rightarrow> Null | Some x \<Rightarrow> x)"

definition product_cells :: "product_row \<Rightarrow> string \<Rightarrow> cell" where
  "product_cells r = cells [(''id'', Uuid_Cell (p_id r)), (''sku'', Text_Cell (p_sku r)), (''name'', Text_Cell (p_name r))]"

definition provider_cells :: "provider_row \<Rightarrow> string \<Rightarrow> cell" where
  "provider_cells r = cells
     [(''id'', Uuid_Cell (v_id r)), (''name'', Text_Cell (v_name r)), (''kind'', Text_Cell (kind_value (v_kind r))),
      (''driver'', Text_Cell (v_driver r)), (''base_url'', text_or_null (v_base_url r)),
      (''request_timeout_ms'', Int_Cell (v_timeout_ms r))]"

definition credential_cells :: "credential_row \<Rightarrow> string \<Rightarrow> cell" where
  "credential_cells r = cells
     [(''provider_id'', Uuid_Cell (c_provider r)), (''auth_type'', Text_Cell (auth_value (c_auth r))),
      (''secret_ref'', text_or_null (c_secret_ref r))]"

definition offer_cells :: "offer_row \<Rightarrow> string \<Rightarrow> cell" where
  "offer_cells r = cells
     [(''product_id'', Uuid_Cell (o_product r)), (''provider_id'', Uuid_Cell (o_provider r)),
      (''on_hand'', Int_Cell (o_on_hand r)), (''reserved'', Int_Cell (o_reserved r)),
      (''allocation_priority'', Int_Cell (o_priority r)), (''version'', Int_Cell (o_version r))]"

definition reservation_cells :: "reservation_row \<Rightarrow> string \<Rightarrow> cell" where
  "reservation_cells r = cells
     [(''id'', Uuid_Cell (r_id r)), (''user_id'', Uuid_Cell (r_user r)), (''idempotency_key'', Text_Cell (r_key r)),
      (''request_fingerprint'', Text_Cell (r_fingerprint r)), (''status'', Text_Cell (status_model_value (r_status r))),
      (''release_target_status'', text_or_null (map_option status_model_value (r_target r))),
      (''failure_code'', text_or_null (r_failure_code r)), (''failure_reason'', text_or_null (r_failure_reason r)),
      (''version'', Int_Cell 1)]"

definition item_cells :: "item_row \<Rightarrow> string \<Rightarrow> cell" where
  "item_cells r = cells
     [(''id'', Uuid_Cell (ri_id r)), (''reservation_id'', Uuid_Cell (ri_reservation r)),
      (''product_id'', Uuid_Cell (ri_product r)), (''provider_id'', Uuid_Cell (ri_provider r)),
      (''requested_quantity'', Int_Cell (ri_quantity r))]"

definition allocation_cells :: "allocation_row \<Rightarrow> string \<Rightarrow> cell" where
  "allocation_cells r = cells
     [(''id'', Uuid_Cell (al_id r)), (''reservation_item_id'', Uuid_Cell (al_item r)),
      (''provider_id'', Uuid_Cell (al_provider r)), (''quantity'', Int_Cell (al_quantity r)),
      (''status'', Text_Cell (allocation_value (al_status r))), (''hold_idempotency_key'', Text_Cell (al_hold_key r)),
      (''provider_hold_reference'', text_or_null (al_reference r))]"

definition operation_cells :: "operation_row \<Rightarrow> string \<Rightarrow> cell" where
  "operation_cells r = cells
     [(''id'', Uuid_Cell (op_id r)), (''allocation_id'', Uuid_Cell (op_allocation r)),
      (''operation'', Text_Cell (operation_value (op_type r))), (''status'', Text_Cell (operation_status_value (op_status r))),
      (''idempotency_key'', Text_Cell (op_key r)), (''attempt_count'', Int_Cell (op_attempts r)),
      (''external_reference'', text_or_null (op_reference r))]"

definition order_cells :: "order_row \<Rightarrow> string \<Rightarrow> cell" where
  "order_cells r = cells
     [(''id'', Uuid_Cell (od_id r)), (''reservation_id'', Uuid_Cell (od_reservation r)), (''user_id'', Uuid_Cell (od_user r))]"

definition order_item_cells :: "order_item_row \<Rightarrow> string \<Rightarrow> cell" where
  "order_item_cells r = cells
     [(''id'', Uuid_Cell (oi_id r)), (''order_id'', Uuid_Cell (oi_order r)), (''product_id'', Uuid_Cell (oi_product r)),
      (''quantity'', Int_Cell (oi_quantity r))]"

subsection \<open>What an answer may be\<close>

definition fits :: "sql_type \<Rightarrow> cell \<Rightarrow> bool" where
  "fits ty x = (case (ty, x) of (Varchar n, Text_Cell s) \<Rightarrow> length s \<le> n | (Sql_Integer, Int_Cell i) \<Rightarrow> int4 i | _ \<Rightarrow> True)"

definition answers :: "table \<Rightarrow> (string \<Rightarrow> cell) \<Rightarrow> exn + 'a \<Rightarrow> bool" where
  "answers x row result = (case result of
     Inr _ \<Rightarrow> list_all (\<lambda>k. passes row (snd k)) (tab_constraints x)
   | Inl (IntegrityError n) \<Rightarrow> list_ex (\<lambda>k. fst k = n \<and> ((\<exists>c. snd k = Check c) \<longrightarrow> \<not> passes row (snd k))) (tab_constraints x)
   | Inl DataError \<Rightarrow> list_ex (\<lambda>y. \<not> fits (col_type y) (row (col_name y))) (tab_columns x)
   | Inl _ \<Rightarrow> False)"

lemma answers_insertion:
  assumes "over \<Longrightarrow> list_ex (\<lambda>y. \<not> fits (col_type y) (row (col_name y))) (tab_columns x)"
    and "\<not> over \<Longrightarrow> \<forall>c\<in>set cs. snd c \<Longrightarrow> list_all (\<lambda>k. passes row (snd k)) (tab_constraints x)"
    and "list_all (\<lambda>(n, holds). holds \<or>
      list_ex (\<lambda>k. fst k = n \<and> ((\<exists>c. snd k = Check c) \<longrightarrow> \<not> passes row (snd k))) (tab_constraints x)) cs"
  shows "answers x row (if over then Inl DataError else case check_constraints cs of Inl e \<Rightarrow> Inl e | Inr _ \<Rightarrow> Inr d)"
proof (cases over)
  case False
  show ?thesis
  proof (cases "check_constraints cs")
    case (Inl e)
    from check_constraints_Inl [OF this] obtain n where "e = IntegrityError n" "(n, False) \<in> set cs" by blast
    with assms(3) Inl False show ?thesis by (auto simp: answers_def list_all_iff)
  next
    case (Inr u)
    then have "\<forall>c\<in>set cs. snd c" by (simp add: check_constraints_Inr)
    with assms(2) False Inr show ?thesis by (simp add: answers_def)
  qed
qed (use assms(1) in \<open>simp add: answers_def\<close>)

lemmas answers_checks = answers_insertion [of False, simplified]

lemma value_iffs [simp]:
  "kind_value k = ''external'' \<longleftrightarrow> k = External" "kind_value k = ''internal'' \<longleftrightarrow> k = Internal"
  "status_model_value s = ''cancelled'' \<longleftrightarrow> s = M_Cancelled" "status_model_value s = ''expired'' \<longleftrightarrow> s = M_Expired"
  "status_model_value s = ''failed'' \<longleftrightarrow> s = M_Failed" "auth_value a = ''none'' \<longleftrightarrow> a = Auth_None"
  by (cases k; cases s; cases a; simp)+

lemmas table_constraints = described_def named_constraints_def all_constraints_def passes_def models fits_def cells_def
  text_or_null_def sql_or_def

lemma insert_product_answers: "answers (described ''products'' product_model) (product_cells r) (insert_product r d)"
  unfolding insert_product_def
  by (rule answers_insertion) (auto simp: table_constraints product_cells_def)

lemma insert_provider_answers:
  "answers (described ''inventory_providers'' provider_model) (provider_cells r) (insert_provider r d)"
  unfolding insert_provider_def
  by (rule answers_insertion)
    (auto simp: table_constraints provider_cells_def provider_columns_fit_def provider_checks_def split: option.splits,
      (metis provider_kind.exhaust)+)

lemma insert_item_answers: "answers (described ''reservation_items'' item_model) (item_cells r) (insert_item r d)"
  unfolding insert_item_def
  by (rule answers_insertion) (auto simp: table_constraints item_cells_def)

lemma insert_order_answers: "answers (described ''orders'' order_model) (order_cells r) (insert_order r d)"
  unfolding insert_order_def by (rule answers_checks) (simp_all add: table_constraints order_cells_def)

lemma insert_order_item_answers:
  "answers (described ''order_items'' order_item_model) (order_item_cells r) (insert_order_item r d)"
  unfolding insert_order_item_def by (rule answers_checks) (auto simp: table_constraints order_item_cells_def)

lemma insert_reservation_answers:
  "answers (described ''reservations'' reservation_model) (reservation_cells r) (insert_reservation r d)"
  unfolding insert_reservation_def
  by (rule answers_insertion)
    (auto simp: table_constraints reservation_cells_def split: option.splits, (cases "r_status r"; simp)+)

lemma insert_allocation_answers:
  "answers (described ''inventory_allocations'' allocation_model) (allocation_cells r) (insert_allocation r d)"
  unfolding insert_allocation_def
  by (rule answers_insertion)
    (auto simp: table_constraints allocation_cells_def split: option.splits, (cases "al_status r"; simp)+)

lemma insert_operation_answers:
  "answers (described ''provider_operations'' operation_model) (operation_cells r) (insert_operation r d)"
  unfolding insert_operation_def
  by (rule answers_insertion)
    (auto simp: table_constraints operation_cells_def split: option.splits,
      (cases "op_status r"; simp; fail | cases "op_type r"; simp)+)

lemma upsert_credential_answers:
  "answers (described ''provider_credentials'' credential_model) (credential_cells r) (upsert_credential r d)"
  by (auto simp: upsert_credential_def answers_def table_constraints credential_cells_def split: option.splits,
      (cases "c_auth r"; simp)+)

lemma offer_checks_answer:
  "answers (described ''product_offers'' offer_model) (offer_cells r)
     (case check_constraints (offer_checks r) of Inl e \<Rightarrow> Inl e | Inr _ \<Rightarrow> Inr d)"
  by (rule answers_checks) (auto simp: table_constraints offer_cells_def offer_checks_def)


end
