(* ===== verification/Item_Sellers.thy ===== *)
theory Item_Sellers
  imports Schema
begin

section \<open>The sellers of old items\<close>

text \<open>
  Revision 8e5d7c2a91b4 gives every stored item the seller it was made at. The two updates it runs are
  functions of the tables they read; the column is then made mandatory, which fails if an item got
  none.
\<close>

text \<open>A row of \<open>reservation_items\<close> before the revision.\<close>

record plain_item =
  pi_id :: uuid
  pi_reservation :: uuid
  pi_product :: uuid
  pi_quantity :: int

text \<open>
  \<open>UPDATE ... FROM inventory_allocations\<close>: an item with several allocations takes one of them,
  whichever the database joins, here \<open>pick\<close>.
\<close>

definition allocated_seller ::
  "(allocation_row list \<Rightarrow> allocation_row) \<Rightarrow> allocation_row list \<Rightarrow> plain_item \<Rightarrow> uuid option" where
  "allocated_seller pick as i = (let found = filter (\<lambda>a. al_item a = pi_id i) as in
     if found = [] then None else Some (al_provider (pick found)))"

text \<open>\<open>ORDER BY offer.allocation_priority, offer.provider_id LIMIT 1\<close>\<close>

definition first_offer :: "offer_row list \<Rightarrow> uuid \<Rightarrow> uuid option" where
  "first_offer os p = (case sort_key (\<lambda>y. (o_priority y, o_provider y)) (filter (\<lambda>y. o_product y = p) os) of
     [] \<Rightarrow> None | y # _ \<Rightarrow> Some (o_provider y))"

definition seller_of_item ::
  "(allocation_row list \<Rightarrow> allocation_row) \<Rightarrow> allocation_row list \<Rightarrow> offer_row list \<Rightarrow> plain_item \<Rightarrow> uuid option" where
  "seller_of_item pick as os i = (case allocated_seller pick as i of
     Some v \<Rightarrow> Some v | None \<Rightarrow> first_offer os (pi_product i))"

definition with_seller :: "plain_item \<Rightarrow> uuid \<Rightarrow> item_row" where
  "with_seller i v = \<lparr>ri_id = pi_id i, ri_reservation = pi_reservation i, ri_product = pi_product i,
     ri_provider = v, ri_quantity = pi_quantity i\<rparr>"

fun upgrade_items ::
  "(allocation_row list \<Rightarrow> allocation_row) \<Rightarrow> allocation_row list \<Rightarrow> offer_row list \<Rightarrow> plain_item list \<Rightarrow> item_row list option" where
  "upgrade_items pick as os [] = Some []"
| "upgrade_items pick as os (i # is) = (case seller_of_item pick as os i of
     None \<Rightarrow> None
   | Some v \<Rightarrow> map_option (\<lambda>rest. with_seller i v # rest) (upgrade_items pick as os is))"

text \<open>\<open>op.drop_column("reservation_items", "provider_id")\<close>\<close>

definition downgrade_item :: "item_row \<Rightarrow> plain_item" where
  "downgrade_item r = \<lparr>pi_id = ri_id r, pi_reservation = ri_reservation r, pi_product = ri_product r, pi_quantity = ri_quantity r\<rparr>"

subsection \<open>Which seller an item gets\<close>

definition best_offer :: "offer_row list \<Rightarrow> uuid \<Rightarrow> uuid \<Rightarrow> bool" where
  "best_offer os p v \<longleftrightarrow> (\<exists>y\<in>set os. o_product y = p \<and> o_provider y = v \<and>
     (\<forall>y'\<in>set os. o_product y' = p \<longrightarrow> (o_priority y, o_provider y) \<le> (o_priority y', o_provider y')))"

lemma first_offer_None: "first_offer os p = None \<longleftrightarrow> (\<forall>y\<in>set os. o_product y \<noteq> p)"
proof -
  have "first_offer os p = None \<longleftrightarrow> sort_key (\<lambda>y. (o_priority y, o_provider y)) (filter (\<lambda>y. o_product y = p) os) = []"
    by (simp add: first_offer_def split: list.split)
  then show ?thesis by (simp add: sort_key_Nil filter_empty_conv)
qed

lemma first_offer_Some:
  assumes "first_offer os p = Some v"
  shows "best_offer os p v"
proof -
  let ?key = "\<lambda>y. (o_priority y, o_provider y)" and ?os = "filter (\<lambda>y. o_product y = p) os"
  obtain y' rest where sorted: "sort_key ?key ?os = y' # rest" and v: "v = o_provider y'"
    using assms by (auto simp: first_offer_def split: list.splits)
  have mem: "set (y' # rest) = set ?os" using set_sort [of ?key ?os] sorted by simp
  have "sorted (map ?key (y' # rest))" using sorted_sort_key [of ?key ?os] sorted by simp
  then have least: "\<forall>z\<in>set (y' # rest). ?key y' \<le> ?key z" by simp
  have "y' \<in> set os" "o_product y' = p" using mem by auto
  moreover have "?key y' \<le> ?key z" if "z \<in> set os" "o_product z = p" for z
    using least that unfolding mem by simp
  ultimately show ?thesis unfolding best_offer_def v by blast
qed

definition seller_fits :: "allocation_row list \<Rightarrow> offer_row list \<Rightarrow> plain_item \<Rightarrow> item_row \<Rightarrow> bool" where
  "seller_fits as os i r \<longleftrightarrow> downgrade_item r = i \<and>
     (if list_ex (\<lambda>a. al_item a = pi_id i) as
      then list_ex (\<lambda>a. al_item a = pi_id i \<and> al_provider a = ri_provider r) as
      else best_offer os (pi_product i) (ri_provider r))"

lemma seller_of_item_Some:
  assumes pick: "\<And>xs. xs \<noteq> [] \<Longrightarrow> pick xs \<in> set xs" and v: "seller_of_item pick as os i = Some v"
  shows "seller_fits as os i (with_seller i v)"
proof (cases "filter (\<lambda>a. al_item a = pi_id i) as = []")
  case True
  then have "\<not> list_ex (\<lambda>a. al_item a = pi_id i) as" by (simp add: filter_empty_conv list_ex_iff)
  with True v first_offer_Some show ?thesis
    by (simp add: seller_of_item_def allocated_seller_def seller_fits_def downgrade_item_def with_seller_def)
next
  case False
  with v pick [OF False] show ?thesis
    by (auto simp: seller_of_item_def allocated_seller_def seller_fits_def downgrade_item_def with_seller_def list_ex_iff)
qed

text \<open>
  C34. Old items keep their sellers. Whichever allocation the database joins, the revision records for
  each item a seller it was allocated at, or, without an allocation, the seller the old routing would
  have tried first, and changes nothing else of it; it fails exactly when an item has neither an
  allocation nor an offer of its product; and the downgrade gives the items back.
\<close>

theorem old_items_keep_their_sellers:
  assumes "\<And>xs. xs \<noteq> [] \<Longrightarrow> pick xs \<in> set xs"
  shows "(upgrade_items pick as os is = None \<longleftrightarrow>
      list_ex (\<lambda>i. list_all (\<lambda>a. al_item a \<noteq> pi_id i) as \<and> list_all (\<lambda>y. o_product y \<noteq> pi_product i) os) is) \<and>
    (\<forall>rs. upgrade_items pick as os is = Some rs \<longrightarrow> list_all2 (seller_fits as os) is rs \<and> map downgrade_item rs = is)"
proof -
  have none: "seller_of_item pick as os i = None \<longleftrightarrow>
      list_all (\<lambda>a. al_item a \<noteq> pi_id i) as \<and> list_all (\<lambda>y. o_product y \<noteq> pi_product i) os" for i
    by (auto simp: seller_of_item_def allocated_seller_def first_offer_None filter_empty_conv list_all_iff Let_def
        split: option.split)
  have "upgrade_items pick as os is = None \<longleftrightarrow>
      list_ex (\<lambda>i. list_all (\<lambda>a. al_item a \<noteq> pi_id i) as \<and> list_all (\<lambda>y. o_product y \<noteq> pi_product i) os) is"
    by (induction "is") (auto simp: none [symmetric] split: option.split)
  moreover have "list_all2 (seller_fits as os) is rs \<and> map downgrade_item rs = is" if "upgrade_items pick as os is = Some rs" for rs
    using that
  proof (induction "is" arbitrary: rs)
    case (Cons i "is")
    then obtain v rest where v: "seller_of_item pick as os i = Some v" "upgrade_items pick as os is = Some rest"
      and rs: "rs = with_seller i v # rest" by (auto split: option.splits)
    have "seller_fits as os i (with_seller i v)" by (rule seller_of_item_Some [OF assms v(1)])
    with Cons.IH [OF v(2)] rs show ?case by (simp add: downgrade_item_def with_seller_def)
  qed simp
  ultimately show ?thesis by blast
qed

text \<open>An item without an allocation, of a product two sellers offer.\<close>

definition lost_item :: plain_item where
  "lost_item = \<lparr>pi_id = 3, pi_reservation = 2, pi_product = 1, pi_quantity = 4\<rparr>"

definition offer_by :: "uuid \<Rightarrow> int \<Rightarrow> offer_row" where
  "offer_by v priority = \<lparr>o_product = 1, o_provider = v, o_on_hand = 9, o_reserved = 0, o_priority = priority, o_group = None,
     o_version = 1, o_observed = None\<rparr>"

theorem old_items_keep_their_sellers_witness:
  "\<exists>rs. upgrade_items hd [] [offer_by 7 200, offer_by 8 100] [lost_item] = Some rs \<and> map downgrade_item rs = [lost_item] \<and>
     list_all2 (seller_fits [] [offer_by 7 200, offer_by 8 100]) [lost_item] rs"
  using old_items_keep_their_sellers [of hd "[]" "[offer_by 7 200, offer_by 8 100]" "[lost_item]"]
  by (cases "upgrade_items hd [] [offer_by 7 200, offer_by 8 100] [lost_item]") (auto simp: lost_item_def offer_by_def)

end
