(* ===== verification/Api_System.thy ===== *)
theory Api_System
  imports Api_Properties Closed_Reservations
begin

section \<open>The API as a client of the system\<close>

text \<open>
  The routers of \<open>controller/\<close> put together as \<open>create_app\<close> and \<open>build_app\<close> of
  \<open>controller/main.py\<close> do: which request reaches which endpoint. How the framework picks a route
  and what it answers to a request no route takes, its own pages and \<open>/metrics\<close> among them, are the
  parameters \<open>ap_dispatch\<close> and \<open>ap_unrouted\<close>; the latter reads no table. A session is a sequence of
  requests while other processes work: a run of the system.
\<close>

subsection \<open>Routes\<close>

datatype segment = Lit string | Param

datatype endpoint =
  Post_Reservation | Get_Reservation | Post_Confirm | Post_Cancel
| Get_Levels | Get_Level | Delete_Level | Put_Level
| Get_Providers | Post_Provider | Get_Provider | Patch_Provider | Post_Enable | Post_Disable | Put_Credentials
| Get_Products | Get_Product | Post_Product
| Get_Liveness | Get_Readiness

record route =
  rt_method :: string
  rt_path :: "segment list"
  rt_endpoint :: endpoint

definition route :: "string \<Rightarrow> segment list \<Rightarrow> endpoint \<Rightarrow> route" where
  "route verb path e = \<lparr>rt_method = verb, rt_path = path, rt_endpoint = e\<rparr>"

definition reservation_routes :: "route list" where
  "reservation_routes = (let prefix = [Lit ''v1'', Lit ''reservations''] in
     [route ''POST'' prefix Post_Reservation,
      route ''GET'' (prefix @ [Param]) Get_Reservation,
      route ''POST'' (prefix @ [Param, Lit ''confirm'']) Post_Confirm,
      route ''POST'' (prefix @ [Param, Lit ''cancel'']) Post_Cancel])"

definition inventory_routes :: "route list" where
  "inventory_routes = (let prefix = [Lit ''internal'', Lit ''v1'', Lit ''products''];
       level = [Param, Lit ''providers'', Param, Lit ''inventory''] in
     [route ''GET'' (prefix @ [Param, Lit ''inventory'']) Get_Levels,
      route ''GET'' (prefix @ level) Get_Level,
      route ''DELETE'' (prefix @ level) Delete_Level,
      route ''PUT'' (prefix @ level) Put_Level])"

definition provider_routes :: "route list" where
  "provider_routes = (let prefix = [Lit ''internal'', Lit ''v1'', Lit ''providers''] in
     [route ''GET'' prefix Get_Providers,
      route ''POST'' prefix Post_Provider,
      route ''GET'' (prefix @ [Param]) Get_Provider,
      route ''PATCH'' (prefix @ [Param]) Patch_Provider,
      route ''POST'' (prefix @ [Param, Lit ''enable'']) Post_Enable,
      route ''POST'' (prefix @ [Param, Lit ''disable'']) Post_Disable,
      route ''PUT'' (prefix @ [Param, Lit ''credentials'']) Put_Credentials])"

definition product_routes :: "route list" where
  "product_routes = (let prefix = [Lit ''internal'', Lit ''v1'', Lit ''products''] in
     [route ''GET'' prefix Get_Products,
      route ''GET'' (prefix @ [Param]) Get_Product,
      route ''POST'' prefix Post_Product])"

definition operations_routes :: "route list" where
  "operations_routes =
     [route ''GET'' [Lit ''health'', Lit ''live''] Get_Liveness,
      route ''GET'' [Lit ''health'', Lit ''ready''] Get_Readiness]"

text \<open>\<open>create_app\<close>, with the routers of the services it is given.\<close>

definition create_app :: "bool \<Rightarrow> bool \<Rightarrow> bool \<Rightarrow> route list" where
  "create_app inventory_management provider_management product_management =
     reservation_routes @ (if inventory_management then inventory_routes else []) @
     (if provider_management then provider_routes else []) @ (if product_management then product_routes else [])"

definition app_routes :: "route list" where
  "app_routes = create_app True True True @ operations_routes"

text \<open>
  How the framework documents its routing: the first route of the request's method whose path matches,
  a parameter taking one segment that is not empty. The application below has the framework's routing
  as a parameter, \<open>ap_dispatch\<close>; \<open>first_match\<close> is an instance of it.
\<close>

fun captured :: "segment list \<Rightarrow> string list \<Rightarrow> string list option" where
  "captured [] [] = Some []"
| "captured (Lit s # ss) (t # ts) = (if t = s then captured ss ts else None)"
| "captured (Param # ss) (t # ts) = (if t = [] then None else map_option ((#) t) (captured ss ts))"
| "captured _ _ = None"

record api_request =
  hq_method :: string
  hq_path :: "string list"
  hq_user :: "string option"
  hq_key :: "string option"
  hq_body :: "json option"

definition takes_request :: "api_request \<Rightarrow> route \<Rightarrow> bool" where
  "takes_request q r \<longleftrightarrow> rt_method r = hq_method q \<and> captured (rt_path r) (hq_path q) \<noteq> None"

definition first_match :: "route list \<Rightarrow> api_request \<Rightarrow> (route \<times> string list) option" where
  "first_match rs q = map_option (\<lambda>r. (r, the (captured (rt_path r) (hq_path q)))) (find (takes_request q) rs)"

subsection \<open>Endpoints\<close>

text \<open>What the driver answers to \<open>SELECT 1\<close>, and what \<open>Database.is_ready\<close> makes of it.\<close>

datatype probe = Selects int | Os_Error | Sql_Error | Raises exn

definition is_ready :: "probe \<Rightarrow> exn + bool" where
  "is_ready p = (case p of
     Selects n \<Rightarrow> Inr (n = 1) | Os_Error \<Rightarrow> Inr False | Sql_Error \<Rightarrow> Inr False | Raises e \<Rightarrow> Inl e)"

text \<open>What an endpoint is given besides the request.\<close>

record app =
  ap_codec :: codec
  ap_netloc :: "string \<Rightarrow> bool"
  ap_collation :: "string \<Rightarrow> nat"
  ap_ttl :: duration
  ap_probe :: "probe"
  ap_dispatch :: "route list \<Rightarrow> api_request \<Rightarrow> (route \<times> string list) option"
  ap_unrouted :: "api_request \<Rightarrow> http_response"

definition path_param :: "string list \<Rightarrow> nat \<Rightarrow> string" where
  "path_param ps i = (if i < length ps then ps ! i else [])"

definition run_endpoint ::
  "environment \<Rightarrow> app \<Rightarrow> (database \<Rightarrow> database) \<Rightarrow> endpoint \<Rightarrow> string list \<Rightarrow> api_request \<Rightarrow> world \<Rightarrow> http_response \<times> world" where
  "run_endpoint E a other e ps q = (let c = ap_codec a in case e of
     Post_Reservation \<Rightarrow> post_reservation E c other (ap_ttl a) (hq_user q) (hq_key q) (hq_body q)
   | Get_Reservation \<Rightarrow> get_reservation E c (path_param ps 0) (hq_user q)
   | Post_Confirm \<Rightarrow> post_confirm E c (path_param ps 0) (hq_user q)
   | Post_Cancel \<Rightarrow> post_cancel E c (path_param ps 0) (hq_user q)
   | Get_Levels \<Rightarrow> get_levels E c (path_param ps 0)
   | Get_Level \<Rightarrow> get_level E c (path_param ps 0) (path_param ps 1)
   | Delete_Level \<Rightarrow> delete_level E c (path_param ps 0) (path_param ps 1)
   | Put_Level \<Rightarrow> put_level E c (path_param ps 0) (path_param ps 1) (hq_body q)
   | Get_Providers \<Rightarrow> get_providers E (ap_collation a)
   | Post_Provider \<Rightarrow> post_provider E (ap_netloc a) c (hq_body q)
   | Get_Provider \<Rightarrow> get_provider_by_id E c (path_param ps 0)
   | Patch_Provider \<Rightarrow> patch_provider E (ap_netloc a) c (path_param ps 0) (hq_body q)
   | Post_Enable \<Rightarrow> post_enable E (ap_netloc a) c (path_param ps 0)
   | Post_Disable \<Rightarrow> post_disable E c (path_param ps 0)
   | Put_Credentials \<Rightarrow> put_credentials E c (path_param ps 0) (hq_body q)
   | Get_Products \<Rightarrow> get_products E (ap_collation a)
   | Get_Product \<Rightarrow> get_product_by_id E c (path_param ps 0)
   | Post_Product \<Rightarrow> post_product E (hq_body q)
   | Get_Liveness \<Rightarrow> Pair get_liveness
   | Get_Readiness \<Rightarrow> answer (lift_sum (is_ready (ap_probe a))) (\<lambda>up. get_readiness (Some up)))"

definition respond ::
  "environment \<Rightarrow> app \<Rightarrow> (database \<Rightarrow> database) \<Rightarrow> api_request \<Rightarrow> world \<Rightarrow> http_response \<times> world" where
  "respond E a other q w = (case ap_dispatch a app_routes q of
     None \<Rightarrow> (ap_unrouted a q, w)
   | Some (r, ps) \<Rightarrow> run_endpoint E a other (rt_endpoint r) ps q w)"

text \<open>
  Requests in turn, each with its response, while the other processes commit runs of the system: between
  them, and, as \<open>d\<close>, before a creation inserts.
\<close>

inductive serves :: "environment \<Rightarrow> app \<Rightarrow> world \<Rightarrow> (api_request \<times> http_response) list \<Rightarrow> world \<Rightarrow> bool" for E a where
  quiet: "serves E a w [] w"
| meanwhile: "commits False E (w_db w) d \<Longrightarrow> serves E a (w\<lparr>w_db := d\<rparr>) rs w' \<Longrightarrow> serves E a w rs w'"
| request: "commits False E (w_db w) d \<Longrightarrow> respond E a (\<lambda>_. d) q w = (p, w1) \<Longrightarrow> serves E a w1 rs w' \<Longrightarrow>
    serves E a w ((q, p) # rs) w'"

subsection \<open>Every request reaches one endpoint\<close>

fun apart :: "segment list \<Rightarrow> segment list \<Rightarrow> bool" where
  "apart [] [] = False"
| "apart (Lit s # ss) (Lit t # ts) = (s \<noteq> t \<or> apart ss ts)"
| "apart (_ # ss) (_ # ts) = apart ss ts"
| "apart _ _ = True"

lemma apart_captured: "apart ss ts \<Longrightarrow> captured ss xs = None \<or> captured ts xs = None"
proof (induction ss arbitrary: ts xs)
  case Nil
  then show ?case by (cases ts; cases "hd ts"; cases xs) auto
next
  case (Cons s ss)
  then show ?case by (cases s; cases ts; cases "hd ts"; cases xs) auto
qed

definition disjoint_routes :: "route list \<Rightarrow> bool" where
  "disjoint_routes rs \<longleftrightarrow> sorted_wrt (\<lambda>r s. rt_method r \<noteq> rt_method s \<or> apart (rt_path r) (rt_path s)) rs"

lemma one_route:
  "disjoint_routes rs \<Longrightarrow> length (filter (takes_request q) rs) \<le> 1"
proof (induction rs)
  case (Cons r rs)
  have "\<not> takes_request q s" if "takes_request q r" "s \<in> set rs" for s
    using that Cons.prems apart_captured [of "rt_path r" "rt_path s" "hq_path q"]
    by (auto simp: takes_request_def disjoint_routes_def)
  then show ?case using Cons by (auto simp: disjoint_routes_def filter_empty_conv)
qed simp

lemma app_disjoint: "disjoint_routes app_routes"
  by (simp add: disjoint_routes_def app_routes_def reservation_routes_def inventory_routes_def provider_routes_def
      product_routes_def operations_routes_def create_app_def route_def Let_def)

subsection \<open>Requests are runs of the system\<close>

text \<open>What an endpoint does to the database, for any preorder of databases.\<close>

definition within_of :: "(database \<Rightarrow> database \<Rightarrow> bool) \<Rightarrow> (world \<Rightarrow> 'a \<times> world) \<Rightarrow> world \<Rightarrow> bool" where
  "within_of R m w \<longleftrightarrow> R (w_db w) (w_db (snd (m w)))"

lemma transaction_query: "w_db (snd (transaction E (db_query f) w)) = w_db w"
  by (simp add: transaction_def db_query_def begin_transaction_def)

lemma get_reads: "w_db (snd (get E rid w)) = w_db w"
  by (metis get_db prod.collapse)

locale effects =
  fixes R :: "database \<Rightarrow> database \<Rightarrow> bool"
  assumes stays: "R d d" and follows: "R d d1 \<Longrightarrow> R d1 d2 \<Longrightarrow> R d d2"
begin

lemma within_reading: "w_db (snd (m w)) = w_db w \<Longrightarrow> within_of R m w"
  by (simp add: within_of_def stays)

lemma within_ret: "within_of R (ret x) w" "within_of R (raise e) w" "within_of R (lift_sum r) w" "within_of R (Pair p) w"
  by (simp_all add: within_reading prog_simps)

lemma within_andThen: "within_of R m w \<Longrightarrow> (\<And>x v. within_of R (f x) v) \<Longrightarrow> within_of R (andThen m f) w"
  unfolding within_of_def andThen_def by (auto split: prod.split sum.split intro: follows)

lemma within_lift: "(\<And>x. within_of R (f x) w) \<Longrightarrow> within_of R (andThen (lift_sum r) f) w"
  by (cases r) (simp_all add: within_of_def andThen_def lift_sum_def stays)

lemma within_answer: "within_of R m w \<Longrightarrow> within_of R (answer m f) w"
  by (auto simp: within_of_def answer_def split: prod.split sum.split)

lemma within_valid: "(\<And>y. within_of R (f y) w) \<Longrightarrow> within_of R (with_valid x f) w"
  by (cases x) (simp_all add: with_valid_def within_of_def stays)

lemma within_cases:
  "(\<And>y. within_of R (f y) w) \<Longrightarrow> within_of R g w \<Longrightarrow> within_of R (case x of None \<Rightarrow> g | Some y \<Rightarrow> f y) w"
  "within_of R m w \<Longrightarrow> within_of R n w \<Longrightarrow> within_of R (if b then m else n) w"
  by (simp_all split: option.split)

lemma within_found: "within_of R (found_or_404 rid x) w"
  unfolding found_or_404_def by (intro within_cases within_ret)

lemma within_pair:
  "(\<And>y z. within_of R (f y z) w) \<Longrightarrow> within_of R (case x of (y, z) \<Rightarrow> f y z) w"
  "(\<And>y z. within_of R (g y z v) w) \<Longrightarrow> within_of R ((case x of (y, z) \<Rightarrow> g y z) v) w"
  by (cases x, simp)+

lemma within_query: "within_of R (transaction E (db_query f)) w" "within_of R (get E rid) w"
  by (simp_all add: within_reading transaction_query get_reads)

lemmas within_intros = within_answer within_pair within_found within_ret within_query within_cases within_andThen within_valid

text \<open>The endpoints that read are within every preorder.\<close>

lemma within_require: "within_of R (require_product E p) w" "within_of R (require_provider E v) w"
  unfolding require_product_def require_provider_def product_exists_def provider_exists_def
  by (intro within_intros)+

lemma within_reads:
  "within_of R (get_reservation E c rid user) w" "within_of R (get_levels E c pid) w" "within_of R (get_level E c pid vid) w"
  "within_of R (get_providers E coll) w" "within_of R (get_provider_by_id E c vid) w"
  "within_of R (get_products E coll) w" "within_of R (get_product_by_id E c pid) w"
  unfolding get_reservation_def get_levels_def get_level_def get_providers_def get_provider_by_id_def get_products_def
    get_product_by_id_def list_product_inventory_def get_inventory_level_def list_providers_def get_provider_def
    list_products_def get_product_def
  by (intro within_intros within_require)+

end

interpretation reading: effects "(=)"
  by unfold_locales simp_all

interpretation system: effects "commits False E" for E
  by unfold_locales (auto intro: commits.idle commits.in_turn)

lemma system_within: "(\<And>r w'. m w = (r, w') \<Longrightarrow> commits False E (w_db w) (w_db w')) \<Longrightarrow> within_of (commits False E) m w"
  by (metis within_of_def prod.collapse)

lemma services_within [simp]:
  "within_of (commits False E) (confirm E rid user) w" "within_of (commits False E) (cancel E rid user) w"
  "within_of (commits False E) (create_product E sku name) w"
  "within_of (commits False E) (register_provider E netloc_ok rg) w"
  "within_of (commits False E) (update_provider E netloc_ok pid up) w"
  "within_of (commits False E) (enable_provider E netloc_ok pid) w"
  "within_of (commits False E) (disable_provider E pid) w"
  "within_of (commits False E) (set_provider_credentials E pid c) w"
  "within_of (commits False E) (set_inventory_level E p v n k g) w"
  "within_of (commits False E) (remove_inventory_level E p v) w"
  by (simp_all add: system_within commits.confirming commits.cancelling commits.selling commits.registering
      commits.reconfiguring commits.enabling commits.disabling commits.authorizing commits.stocking commits.delisting)

lemma create_within [simp]:
  "commits False E (w_db w) d \<Longrightarrow> within_of (commits False E) (create E (\<lambda>_. d) ttl user its key) w"
  by (rule system_within) (rule commits.creating)

lemma endpoints_within:
  "within_of (commits False E) (post_confirm E c rid user) w" "within_of (commits False E) (post_cancel E c rid user) w"
  "within_of (commits False E) (delete_level E c pid vid) w" "within_of (commits False E) (put_level E c pid vid body) w"
  "within_of (commits False E) (post_provider E netloc_ok c body) w"
  "within_of (commits False E) (patch_provider E netloc_ok c vid body) w"
  "within_of (commits False E) (post_enable E netloc_ok c vid) w" "within_of (commits False E) (post_disable E c vid) w"
  "within_of (commits False E) (put_credentials E c vid body) w" "within_of (commits False E) (post_product E body) w"
  unfolding post_confirm_def post_cancel_def delete_level_def put_level_def post_provider_def patch_provider_def
    post_enable_def post_disable_def put_credentials_def post_product_def
  by (intro system.within_intros services_within)+

lemma post_within:
  "commits False E (w_db w) d \<Longrightarrow> within_of (commits False E) (post_reservation E c (\<lambda>_. d) ttl user key body) w"
  unfolding post_reservation_def by (intro system.within_valid system.within_pair system.within_answer system.within_lift create_within)

lemma respond_within:
  assumes "commits False E (w_db w) d"
  shows "within_of (commits False E) (respond E a (\<lambda>_. d) q) w"
proof (cases "ap_dispatch a app_routes q")
  case None
  then show ?thesis by (simp add: within_of_def respond_def commits.idle)
next
  case (Some found)
  have "within_of (commits False E) (run_endpoint E a (\<lambda>_. d) e ps q) w" for e ps
    unfolding run_endpoint_def Let_def
    by (cases e) (simp_all add: endpoints_within system.within_reads system.within_ret system.within_answer post_within assms)
  with Some show ?thesis by (simp add: within_of_def respond_def split: prod.split)
qed

text \<open>A \<open>GET\<close> changes no table.\<close>

lemma get_routes: "r \<in> set app_routes \<Longrightarrow> rt_method r = ''GET'' \<Longrightarrow>
  rt_endpoint r \<in> {Get_Reservation, Get_Levels, Get_Level, Get_Providers, Get_Provider, Get_Products, Get_Product,
    Get_Liveness, Get_Readiness}"
  by (auto simp: app_routes_def create_app_def reservation_routes_def inventory_routes_def provider_routes_def
      product_routes_def operations_routes_def route_def Let_def)

lemma gets_read:
  assumes "hq_method q = ''GET''"
    and routed: "\<And>r ps. ap_dispatch a app_routes q = Some (r, ps) \<Longrightarrow> r \<in> set app_routes \<and> rt_method r = hq_method q"
  shows "within_of (=) (respond E a other q) w"
proof (cases "ap_dispatch a app_routes q")
  case None
  then show ?thesis by (simp add: within_of_def respond_def)
next
  case (Some found)
  then obtain r ps where Some: "ap_dispatch a app_routes q = Some (r, ps)" by (cases found) simp
  with assms have "rt_endpoint r \<in> {Get_Reservation, Get_Levels, Get_Level, Get_Providers, Get_Provider, Get_Products,
      Get_Product, Get_Liveness, Get_Readiness}"
    using get_routes [of r] routed [OF Some] by simp
  then have "within_of (=) (run_endpoint E a other (rt_endpoint r) ps q) w" for ps
    by (auto simp: run_endpoint_def reading.within_reads reading.within_ret reading.within_answer)
  with Some show ?thesis by (simp add: within_of_def respond_def)
qed

lemma serves_commits: "serves E a w rs w' \<Longrightarrow> commits False E (w_db w) (w_db w')"
proof (induction rule: serves.induct)
  case (quiet w)
  then show ?case by (rule commits.idle)
next
  case (meanwhile w d rs w')
  then show ?case by (auto intro: commits.in_turn)
next
  case (request w d q p w1 rs w')
  then have "commits False E (w_db w) (w_db w1)"
    using respond_within [of E w d a q] by (simp add: within_of_def)
  with request.IH show ?case by (blast intro: commits.in_turn)
qed

text \<open>
  C7. The API is a client of the system. Whatever requests arrive, in whatever order, well formed or
  not, and whatever the other processes commit between and inside them, a session is a run of the
  system without guards, so everything proved of those runs holds of it: a reservation that is
  confirmed or cancelled keeps its row and its items. When the framework routes a request only to
  a route of its method, a \<open>GET\<close> changes no table.
\<close>

theorem sessions_are_system_runs:
  assumes start: "commits False E empty_database (w_db w)" and session: "serves E a w rs w'"
    and routed: "\<And>q r ps. ap_dispatch a app_routes q = Some (r, ps) \<Longrightarrow> r \<in> set app_routes \<and> rt_method r = hq_method q"
  shows "commits False E empty_database (w_db w') \<and>
    (\<forall>rid r. find_reservation rid (w_db w) = Some r \<and> r_status r \<in> {M_Confirmed, M_Cancelled} \<longrightarrow>
       find_reservation rid (w_db w') = Some r \<and> items_of rid (w_db w') = items_of rid (w_db w)) \<and>
    (\<forall>q. hq_method q = ''GET'' \<longrightarrow> w_db (snd (respond E a other q w')) = w_db w')"
proof -
  have run: "commits False E (w_db w) (w_db w')" using session by (rule serves_commits)
  have "keeps_closed (w_db w) (w_db w')"
    using commits_closed [OF start unique_empty] commits_closed [OF run] by (simp add: keeps_closed_def)
  then have "find_reservation rid (w_db w') = Some r \<and> items_of rid (w_db w') = items_of rid (w_db w)"
    if "find_reservation rid (w_db w) = Some r" "r_status r \<in> {M_Confirmed, M_Cancelled}" for rid r
    using that unfolding keeps_closed_def closed_def row_of_def by (metis (no_types) insertE prod.inject singletonD)
  moreover have "w_db (snd (respond E a other q w')) = w_db w'" if "hq_method q = ''GET''" for q
    using gets_read [of q a, OF that routed] by (simp add: within_of_def)
  ultimately show ?thesis using commits.in_turn [OF start run] by blast
qed

text \<open>\<open>first_match\<close> routes so, and the order of the routes plays no part in it.\<close>

lemma first_match_routed: "first_match rs q = Some (r, ps) \<Longrightarrow> r \<in> set rs \<and> rt_method r = hq_method q"
  by (auto simp: first_match_def takes_request_def find_Some_iff)

lemma app_unambiguous: "length (filter (takes_request q) app_routes) \<le> 1"
  using one_route [OF app_disjoint] .

text \<open>A late cancellation: another request has confirmed the reservation.\<close>

definition sample_app :: app where
  "sample_app = \<lparr>ap_codec = sample_codec, ap_netloc = (\<lambda>_. True), ap_collation = length, ap_ttl = 600,
     ap_probe = Selects 1, ap_dispatch = first_match,
     ap_unrouted = (\<lambda>_. \<lparr>hr_status = 404, hr_body = Json (JObj [(''detail'', JStr ''Not Found'')])\<rparr>)\<rparr>"

definition cancel_request :: api_request where
  "cancel_request = \<lparr>hq_method = ''POST'', hq_path = [''v1'', ''reservations'', ''r'', ''cancel''], hq_user = Some ''alice'',
     hq_key = None, hq_body = None\<rparr>"

lemma cancel_routed:
  "respond offline sample_app other cancel_request w = post_cancel offline sample_codec ''r'' (Some ''alice'') w"
  by (simp add: respond_def first_match_def path_param_def takes_request_def cancel_request_def app_routes_def create_app_def reservation_routes_def
      route_def Let_def run_endpoint_def sample_app_def)

lemma late_cancellation: "fst (post_cancel offline sample_codec ''r'' (Some ''alice'') (world_of confirmed_database)) =
    handle_reservation_not_cancellable 1000"
proof -
  have "owned_reservation 1000 7 confirmed_database = Some (set_status M_Confirmed reserved_row)"
    by (simp add: owned_reservation_def confirmed_database_def with_row_def set_status_def row_simps)
  moreover have "both (k_text_uuid sample_codec ''r'') (Option.bind (Some ''alice'') (k_text_uuid sample_codec)) = Some (1000, 7)"
    by (simp add: both_def sample_codec_def)
  ultimately show ?thesis
    by (simp add: post_cancel_def with_valid_def answer_def andThen_def cancel_def reservation_transaction_cases transaction_def
        repo_cancel_def prog_simps set_status_def error_response_def exception_handler_def begin_transaction_def
        split: prod.split sum.split)
qed

theorem sessions_are_system_runs_witness:
  "\<exists>w'. serves offline sample_app (world_of confirmed_database)
       [(cancel_request, handle_reservation_not_cancellable 1000)] w' \<and>
     find_reservation 1000 (w_db w') = Some (set_status M_Confirmed reserved_row)"
proof -
  let ?w = "world_of confirmed_database"
  obtain w' where "respond offline sample_app (\<lambda>_. confirmed_database) cancel_request ?w =
      (handle_reservation_not_cancellable 1000, w')"
    using late_cancellation unfolding cancel_routed by (metis prod.collapse)
  then have session: "serves offline sample_app ?w [(cancel_request, handle_reservation_not_cancellable 1000)] w'"
    using serves.request [OF _ _ serves.quiet] commits.idle by (metis world_of_db)
  have "commits False offline empty_database (w_db ?w)" using commits.in_turn [OF reserved confirmed] by simp
  moreover have "find_reservation 1000 (w_db ?w) = Some (set_status M_Confirmed reserved_row)"
    "r_status (set_status M_Confirmed reserved_row) = M_Confirmed"
    by (simp_all add: confirmed_database_def with_row_def find_reservation_def set_status_def row_simps)
  ultimately have "find_reservation 1000 (w_db w') = Some (set_status M_Confirmed reserved_row)"
    using sessions_are_system_runs [OF _ session, of "\<lambda>d. d"] first_match_routed by (simp add: sample_app_def)
  with session show ?thesis by blast
qed

end
