(* ===== verification/Management_Ports.thy ===== *)
theory Management_Ports
  imports Catalog_Properties
begin

section \<open>The management services over their repository ports\<close>

text \<open>
  The services of \<open>service/product.py\<close>, \<open>service/provider_management.py\<close> and
  \<open>service/inventory_management.py\<close> as they are written: over a repository port, a protocol the SQL
  repositories implement. Over the SQL ports they are the operations of \<open>Catalog\<close>.
\<close>

subsection \<open>Ports\<close>

record 's product_port =
  pp_list :: "('s, exn, product_row list) prog"
  pp_get :: "uuid \<Rightarrow> ('s, exn, product_row option) prog"
  pp_add :: "product_row \<Rightarrow> ('s, exn, unit) prog"

record 's provider_port =
  vp_list :: "('s, exn, provider_row list) prog"
  vp_get :: "uuid \<Rightarrow> ('s, exn, provider_row option) prog"
  vp_add :: "provider_row \<Rightarrow> ('s, exn, unit) prog"
  vp_update :: "provider_row \<Rightarrow> ('s, exn, bool) prog"
  vp_set_enabled :: "uuid \<Rightarrow> bool \<Rightarrow> ('s, exn, provider_row option) prog"
  vp_upsert_credentials :: "credential_row \<Rightarrow> ('s, exn, credential_row) prog"
  vp_get_credentials :: "uuid \<Rightarrow> ('s, exn, credential_row option) prog"

record 's level_port =
  lp_product_exists :: "uuid \<Rightarrow> ('s, exn, bool) prog"
  lp_provider_exists :: "uuid \<Rightarrow> ('s, exn, bool) prog"
  lp_list :: "uuid \<Rightarrow> ('s, exn, offer_row list) prog"
  lp_get :: "uuid \<Rightarrow> uuid \<Rightarrow> ('s, exn, offer_row option) prog"
  lp_remove :: "uuid \<Rightarrow> uuid \<Rightarrow> ('s, exn, bool) prog"
  lp_set :: "uuid \<Rightarrow> uuid \<Rightarrow> int \<Rightarrow> int \<Rightarrow> uuid option \<Rightarrow> ('s, exn, offer_row) prog"

subsection \<open>Services\<close>

definition some_or :: "exn \<Rightarrow> 'a option \<Rightarrow> ('s, exn, 'a) prog" where
  [prog_simps]: "some_or e x = (case x of None \<Rightarrow> raise e | Some y \<Rightarrow> ret y)"

definition port_create_product :: "'s product_port \<Rightarrow> ('s, exn, uuid) prog \<Rightarrow> string \<Rightarrow> string \<Rightarrow> ('s, exn, product_row) prog" where
  "port_create_product P ids sku_text name_text =
     (let sku = py_strip sku_text; name = py_strip name_text in
      if sku = [] then raise (InvalidProductConfigurationError ''Product SKU must not be blank.'')
      else if 100 < length sku
        then raise (InvalidProductConfigurationError ''Product SKU must not exceed 100 characters.'')
      else if name = [] then raise (InvalidProductConfigurationError ''Product name must not be blank.'')
      else if 255 < length name
        then raise (InvalidProductConfigurationError ''Product name must not exceed 255 characters.'')
      else
        andThen ids (\<lambda>pid.
          let p = \<lparr>p_id = pid, p_sku = sku, p_name = name, p_active = True\<rparr> in
          andThen (pp_add P p) (\<lambda>_. ret p)))"

definition port_get_product :: "'s product_port \<Rightarrow> uuid \<Rightarrow> ('s, exn, product_row) prog" where
  "port_get_product P pid = andThen (pp_get P pid) (some_or (ProductNotFoundError pid))"

definition port_get_provider :: "'s provider_port \<Rightarrow> uuid \<Rightarrow> ('s, exn, provider_row) prog" where
  "port_get_provider P pid = andThen (vp_get P pid) (some_or (ProviderNotFoundError pid))"

definition port_register_provider ::
  "'s provider_port \<Rightarrow> ('s, exn, uuid) prog \<Rightarrow> (string \<Rightarrow> bool) \<Rightarrow> register_command \<Rightarrow> ('s, exn, provider_row) prog" where
  "port_register_provider P ids netloc_ok c =
     andThen ids (\<lambda>pid.
     andThen (lift_sum (validate_provider netloc_ok (registered_row pid c))) (\<lambda>_.
     andThen (vp_add P (registered_row pid c)) (\<lambda>_. ret (registered_row pid c))))"

definition port_update_provider ::
  "'s provider_port \<Rightarrow> (string \<Rightarrow> bool) \<Rightarrow> uuid \<Rightarrow> update_command \<Rightarrow> ('s, exn, provider_row) prog" where
  "port_update_provider P netloc_ok pid c =
     (if up_name c = None \<and> up_base_url c = None \<and> up_timeout_ms c = None \<and> up_capabilities c = None
      then raise (InvalidProviderConfigurationError ''Provider update must include at least one mutable field.'')
      else
        andThen (port_get_provider P pid) (\<lambda>current.
        andThen (lift_sum (validate_provider netloc_ok (updated_row current c))) (\<lambda>_.
        andThen (vp_update P (updated_row current c)) (\<lambda>saved.
          if saved then ret (updated_row current c) else raise (ProviderNotFoundError pid)))))"

definition port_enable_provider ::
  "'s provider_port \<Rightarrow> (string \<Rightarrow> bool) \<Rightarrow> uuid \<Rightarrow> ('s, exn, provider_row) prog" where
  "port_enable_provider P netloc_ok pid =
     andThen (port_get_provider P pid) (\<lambda>r.
       if v_enabled r then ret r
       else andThen (lift_sum (validate_provider netloc_ok r)) (\<lambda>_.
         andThen (vp_set_enabled P pid True) (some_or (ProviderNotFoundError pid))))"

definition port_disable_provider :: "'s provider_port \<Rightarrow> uuid \<Rightarrow> ('s, exn, provider_row) prog" where
  "port_disable_provider P pid =
     andThen (port_get_provider P pid) (\<lambda>r.
       if \<not> v_enabled r then ret r
       else andThen (vp_set_enabled P pid False) (some_or (ProviderNotFoundError pid)))"

definition submitted_credential :: "uuid \<Rightarrow> credentials_command \<Rightarrow> credential_row" where
  "submitted_credential pid c =
     \<lparr>c_provider = pid, c_auth = cr_auth c, c_secret_ref = cr_secret_ref c, c_config = cr_config c\<rparr>"

definition port_set_credentials ::
  "'s provider_port \<Rightarrow> uuid \<Rightarrow> credentials_command \<Rightarrow> ('s, exn, credential_row) prog" where
  "port_set_credentials P pid c =
     andThen (port_get_provider P pid) (\<lambda>r.
     andThen (lift_sum (validate_credentials (v_kind r) c)) (\<lambda>_.
       vp_upsert_credentials P (submitted_credential pid c)))"

definition port_require_product :: "'s level_port \<Rightarrow> uuid \<Rightarrow> ('s, exn, unit) prog" where
  "port_require_product P p = andThen (lp_product_exists P p) (\<lambda>found.
     if found then ret () else raise (ProductNotFoundError p))"

definition port_require_provider :: "'s level_port \<Rightarrow> uuid \<Rightarrow> ('s, exn, unit) prog" where
  "port_require_provider P v = andThen (lp_provider_exists P v) (\<lambda>found.
     if found then ret () else raise (ProviderNotFoundError v))"

definition port_list_inventory :: "'s level_port \<Rightarrow> uuid \<Rightarrow> ('s, exn, offer_row list) prog" where
  "port_list_inventory P p = andThen (port_require_product P p) (\<lambda>_. lp_list P p)"

definition port_get_level :: "'s level_port \<Rightarrow> uuid \<Rightarrow> uuid \<Rightarrow> ('s, exn, offer_row) prog" where
  "port_get_level P p v =
     andThen (port_require_product P p) (\<lambda>_.
     andThen (port_require_provider P v) (\<lambda>_.
     andThen (lp_get P p v) (some_or (InventoryLevelNotFoundError p v))))"

definition port_remove_level :: "'s level_port \<Rightarrow> uuid \<Rightarrow> uuid \<Rightarrow> ('s, exn, unit) prog" where
  "port_remove_level P p v =
     andThen (port_require_product P p) (\<lambda>_.
     andThen (port_require_provider P v) (\<lambda>_.
     andThen (lp_remove P p v) (\<lambda>removed.
       if removed then ret () else raise (InventoryLevelNotFoundError p v))))"

definition port_set_level ::
  "'s level_port \<Rightarrow> uuid \<Rightarrow> uuid \<Rightarrow> int \<Rightarrow> int \<Rightarrow> uuid option \<Rightarrow> ('s, exn, offer_row) prog" where
  "port_set_level P p v on_hand priority routing =
     andThen (port_require_product P p) (\<lambda>_.
     andThen (port_require_provider P v) (\<lambda>_.
       lp_set P p v on_hand priority routing))"

subsection \<open>The SQL repositories\<close>

definition sql_get_product :: "environment \<Rightarrow> uuid \<Rightarrow> product_row option io" where
  "sql_get_product E pid = transaction E (db_query (find_product pid))"

definition sql_products :: "environment \<Rightarrow> (string \<Rightarrow> nat) \<Rightarrow> world product_port" where
  "sql_products E collation = \<lparr>
     pp_list = list_products E collation,
     pp_get = sql_get_product E,
     pp_add = insert_product_io E\<rparr>"

definition sql_get_provider :: "environment \<Rightarrow> uuid \<Rightarrow> provider_row option io" where
  "sql_get_provider E pid = transaction E (db_query (find_provider pid))"

definition sql_upsert_credentials :: "environment \<Rightarrow> credential_row \<Rightarrow> credential_row io" where
  "sql_upsert_credentials E c =
     (let row = c\<lparr>c_config := jsonb_members (c_config c)\<rparr> in
      andThen (transaction E (try_write (upsert_credential row))) (\<lambda>_. ret row))"

definition sql_providers :: "environment \<Rightarrow> (string \<Rightarrow> nat) \<Rightarrow> world provider_port" where
  "sql_providers E collation = \<lparr>
     vp_list = list_providers E collation,
     vp_get = sql_get_provider E,
     vp_add = add_provider E,
     vp_update = save_provider E,
     vp_set_enabled = set_enabled E,
     vp_upsert_credentials = sql_upsert_credentials E,
     vp_get_credentials = get_credentials E\<rparr>"

definition sql_list_levels :: "environment \<Rightarrow> uuid \<Rightarrow> offer_row list io" where
  "sql_list_levels E p = transaction E (db_query (\<lambda>d.
     sort_key (\<lambda>r. (o_priority r, o_provider r)) (filter (\<lambda>r. o_product r = p) (offers d))))"

definition sql_get_level :: "environment \<Rightarrow> uuid \<Rightarrow> uuid \<Rightarrow> offer_row option io" where
  "sql_get_level E p v = transaction E (db_query (find_offer p v))"

definition sql_levels :: "environment \<Rightarrow> world level_port" where
  "sql_levels E = \<lparr>
     lp_product_exists = product_exists E,
     lp_provider_exists = provider_exists E,
     lp_list = sql_list_levels E,
     lp_get = sql_get_level E,
     lp_remove = (\<lambda>p v. transaction E (remove_level p v)),
     lp_set = (\<lambda>p v on_hand priority routing. transaction E (set_level p v on_hand priority routing))\<rparr>"

text \<open>Over them the services are the operations of the system.\<close>

lemma some_or_case: "some_or e = (\<lambda>x. case x of None \<Rightarrow> raise e | Some y \<Rightarrow> ret y)"
  by (rule ext) (simp add: some_or_def)

lemma sql_services:
  "port_create_product (sql_products E coll) (fresh_uuid E) sku name = create_product E sku name"
  "port_get_product (sql_products E coll) pid = get_product E pid"
  "port_get_provider (sql_providers E coll) vid = get_provider E vid"
  "port_register_provider (sql_providers E coll) (fresh_uuid E) netloc_ok rg = register_provider E netloc_ok rg"
  "port_update_provider (sql_providers E coll) netloc_ok vid up = update_provider E netloc_ok vid up"
  "port_enable_provider (sql_providers E coll) netloc_ok vid = enable_provider E netloc_ok vid"
  "port_disable_provider (sql_providers E coll) vid = disable_provider E vid"
  "port_set_credentials (sql_providers E coll) vid cr = set_provider_credentials E vid cr"
  by (simp_all add: port_create_product_def create_product_def port_get_product_def get_product_def
      port_get_provider_def get_provider_def port_register_provider_def register_provider_def
      port_update_provider_def update_provider_def port_enable_provider_def enable_provider_def
      port_disable_provider_def disable_provider_def port_set_credentials_def set_provider_credentials_def
      sql_products_def sql_providers_def sql_get_product_def sql_get_provider_def sql_upsert_credentials_def submitted_credential_def stored_credential_def
      some_or_case Let_def cong: if_cong)

lemma sql_level_services:
  "port_list_inventory (sql_levels E) p = list_product_inventory E p"
  "port_get_level (sql_levels E) p v = get_inventory_level E p v"
  "port_remove_level (sql_levels E) p v = remove_inventory_level E p v"
  "port_set_level (sql_levels E) p v n k g = set_inventory_level E p v n k g"
  by (simp_all add: port_list_inventory_def list_product_inventory_def port_get_level_def get_inventory_level_def
      port_remove_level_def remove_inventory_level_def port_set_level_def set_inventory_level_def
      port_require_product_def require_product_def port_require_provider_def require_provider_def sql_levels_def
      sql_list_levels_def sql_get_level_def some_or_case)

end
