(* ===== verification/Concurrent_Management.thy ===== *)
theory Concurrent_Management
  imports Management_Ports Sample_Run
begin

section \<open>Management requests among each other\<close>

text \<open>
  A management request takes several transactions. Over a contended port, other requests commit before
  each of them; the contract of the provider repository holds all the same, so stored configurations
  stay valid. What is lost between reading and writing is shown last.
\<close>

subsection \<open>Other requests in between\<close>

text \<open>
  What another request's transaction does to the providers: it inserts or updates a validated
  configuration, toggles one, or stores credentials. An update's kind and driver are those its request
  read, which no transaction changes.
\<close>

datatype provider_write =
  Insert_Row provider_row | Update_Row provider_row | Toggle_Row uuid bool | Store_Credential credential_row

definition same_kind :: "provider_row \<Rightarrow> provider_row \<Rightarrow> bool" where
  "same_kind x y \<longleftrightarrow> v_id y = v_id x \<and> v_kind y = v_kind x \<and> v_driver y = v_driver x"

definition grown :: "database \<Rightarrow> database \<Rightarrow> bool" where
  "grown d d' \<longleftrightarrow> (\<forall>i x. find_provider i d = Some x \<longrightarrow> (\<exists>y. find_provider i d' = Some y \<and> same_kind x y))"

definition on_success :: "(database \<Rightarrow> exn + database) \<Rightarrow> database \<Rightarrow> database" where
  "on_success f d = (case f d of Inl e \<Rightarrow> d | Inr d' \<Rightarrow> d')"

definition provider_write :: "(string \<Rightarrow> bool) \<Rightarrow> provider_write \<Rightarrow> database \<Rightarrow> database" where
  "provider_write netloc_ok a d = (case a of
     Insert_Row r \<Rightarrow> if validate_provider netloc_ok r = Inr () then on_success (insert_provider r) d else d
   | Update_Row r \<Rightarrow>
       if validate_provider netloc_ok r = Inr () \<and>
          (case find_provider (v_id r) d of None \<Rightarrow> False | Some x \<Rightarrow> same_kind x r)
       then on_success (update_provider_row r) d else d
   | Toggle_Row pid b \<Rightarrow> map_provider pid (\<lambda>r. r\<lparr>v_enabled := b\<rparr>) d
   | Store_Credential c \<Rightarrow> on_success (upsert_credential c) d)"

text \<open>
  \<open>ot_writes n\<close> are the provider transactions that commit just before the request's next one, when
  \<open>n\<close> clock readings were made, and \<open>ot_rest\<close> is what happens to the other tables.
\<close>

record rivals =
  ot_writes :: "nat \<Rightarrow> provider_write list"
  ot_rest :: "nat \<Rightarrow> database \<Rightarrow> database"

definition nobody :: rivals where
  "nobody = \<lparr>ot_writes = (\<lambda>_. []), ot_rest = (\<lambda>_ d. d)\<rparr>"

definition meanwhile_db :: "(string \<Rightarrow> bool) \<Rightarrow> rivals \<Rightarrow> nat \<Rightarrow> database \<Rightarrow> database" where
  "meanwhile_db netloc_ok ot n d =
     fold (provider_write netloc_ok) (ot_writes ot n) ((ot_rest ot n d)\<lparr>providers := providers d\<rparr>)"

definition contend :: "(string \<Rightarrow> bool) \<Rightarrow> rivals \<Rightarrow> 'a io \<Rightarrow> 'a io" where
  "contend netloc_ok ot m w = m (w\<lparr>w_db := meanwhile_db netloc_ok ot (w_ticks w) (w_db w)\<rparr>)"

definition contended_providers ::
  "(string \<Rightarrow> bool) \<Rightarrow> rivals \<Rightarrow> environment \<Rightarrow> (string \<Rightarrow> nat) \<Rightarrow> world provider_port" where
  "contended_providers netloc_ok ot E collation =
     (let P = sql_providers E collation in \<lparr>
     vp_list = contend netloc_ok ot (vp_list P),
     vp_get = (\<lambda>pid. contend netloc_ok ot (vp_get P pid)),
     vp_add = (\<lambda>r. contend netloc_ok ot (vp_add P r)),
     vp_update = (\<lambda>r. contend netloc_ok ot (vp_update P r)),
     vp_set_enabled = (\<lambda>pid b. contend netloc_ok ot (vp_set_enabled P pid b)),
     vp_upsert_credentials = (\<lambda>r. contend netloc_ok ot (vp_upsert_credentials P r)),
     vp_get_credentials = (\<lambda>pid. contend netloc_ok ot (vp_get_credentials P pid))\<rparr>)"

subsection \<open>The contract of a provider repository\<close>

text \<open>
  What the service relies on: a table of configurations that only grows, its rows keeping their
  identifier, kind and driver; reading answers what is stored; a successful write stores what it is
  given. The state is sound when every stored configuration is valid and names are unique.
\<close>

lemma grown_refl: "grown d d"
  by (simp add: grown_def same_kind_def)

lemma grown_trans: "grown d d1 \<Longrightarrow> grown d1 d2 \<Longrightarrow> grown d d2"
  unfolding grown_def same_kind_def by metis

lemma grownD: "grown d d' \<Longrightarrow> find_provider i d = Some x \<Longrightarrow> \<exists>y. find_provider i d' = Some y \<and> same_kind x y"
  by (simp add: grown_def)

locale provider_contract =
  fixes port :: "'s provider_port" and ids :: "('s, exn, uuid) prog"
    and netloc_ok :: "string \<Rightarrow> bool" and db :: "'s \<Rightarrow> database"
  assumes ids_law: "ids s = (i, s') \<Longrightarrow> db s' = db s"
    and get_law: "providers_ok netloc_ok (db s) \<Longrightarrow> vp_get port pid s = (g, s') \<Longrightarrow>
      providers_ok netloc_ok (db s') \<and> grown (db s) (db s') \<and> (\<forall>x. g = Inr x \<longrightarrow> x = find_provider pid (db s'))"
    and add_law: "providers_ok netloc_ok (db s) \<Longrightarrow> validate_provider netloc_ok x = Inr () \<Longrightarrow> vp_add port x s = (a, s') \<Longrightarrow>
      providers_ok netloc_ok (db s') \<and> grown (db s) (db s') \<and> (\<forall>u. a = Inr u \<longrightarrow> find_provider (v_id x) (db s') = Some x)"
    and update_law: "providers_ok netloc_ok (db s) \<Longrightarrow> validate_provider netloc_ok x = Inr () \<Longrightarrow>
      find_provider (v_id x) (db s) = Some y \<Longrightarrow> same_kind y x \<Longrightarrow> vp_update port x s = (u, s') \<Longrightarrow>
      providers_ok netloc_ok (db s') \<and> grown (db s) (db s') \<and>
      (u = Inr True \<longrightarrow> (\<exists>on. find_provider (v_id x) (db s') = Some (x\<lparr>v_enabled := on\<rparr>)))"
    and toggle_law: "providers_ok netloc_ok (db s) \<Longrightarrow> vp_set_enabled port pid b s = (t, s') \<Longrightarrow>
      providers_ok netloc_ok (db s') \<and> grown (db s) (db s') \<and>
      (\<forall>x. t = Inr (Some x) \<longrightarrow> find_provider pid (db s') = Some x \<and> v_enabled x = b)"
begin

lemma got:
  assumes "providers_ok netloc_ok (db s)" and "port_get_provider port pid s = (r, s')"
  shows "providers_ok netloc_ok (db s') \<and> grown (db s) (db s') \<and> (\<forall>x. r = Inr x \<longrightarrow> find_provider pid (db s') = Some x)"
proof -
  obtain g s1 where get: "vp_get port pid s = (g, s1)" by fastforce
  with assms(2) have "s' = s1" "\<forall>x. r = Inr x \<longrightarrow> g = Inr (Some x)"
    by (auto simp: port_get_provider_def prog_simps split: sum.splits option.splits)
  with get_law [OF assms(1) get] show ?thesis by auto
qed

lemma registered:
  assumes "providers_ok netloc_ok (db s)" and "port_register_provider port ids netloc_ok c s = (r, s')"
  shows "providers_ok netloc_ok (db s') \<and> grown (db s) (db s') \<and>
    (\<forall>x. r = Inr x \<longrightarrow> find_provider (v_id x) (db s') = Some x \<and> \<not> v_enabled x)"
proof -
  obtain i s1 where ids: "ids s = (i, s1)" by fastforce
  have same: "db s1 = db s" using ids_law [OF ids] .
  show ?thesis
  proof (cases i)
    case (Inl e)
    with assms ids same show ?thesis by (auto simp: port_register_provider_def andThen_def grown_refl)
  next
    case (Inr pid)
    let ?x = "registered_row pid c"
    obtain a s2 where add: "vp_add port ?x s1 = (a, s2)" by fastforce
    show ?thesis
    proof (cases "validate_provider netloc_ok ?x")
      case (Inl e)
      with assms ids same \<open>i = Inr pid\<close> show ?thesis
        by (auto simp: port_register_provider_def andThen_def lift_sum_def grown_refl)
    next
      case (Inr u)
      then have "validate_provider netloc_ok ?x = Inr ()" by simp
      from add_law [OF _ this add] assms(1) same have law: "providers_ok netloc_ok (db s2)" "grown (db s) (db s2)"
        "\<forall>u. a = Inr u \<longrightarrow> find_provider (v_id ?x) (db s2) = Some ?x" by simp_all
      from assms(2) ids \<open>i = Inr pid\<close> Inr add have "s' = s2" "\<forall>x. r = Inr x \<longrightarrow> x = ?x \<and> (\<exists>u. a = Inr u)"
        by (auto simp: port_register_provider_def andThen_def lift_sum_def ret_def split: sum.splits)
      moreover have "\<not> v_enabled ?x" by (simp add: registered_row_def)
      ultimately show ?thesis using law by metis
    qed
  qed
qed

lemma updated:
  assumes "providers_ok netloc_ok (db s)" and "port_update_provider port netloc_ok pid c s = (r, s')"
  shows "providers_ok netloc_ok (db s') \<and> grown (db s) (db s') \<and>
    (\<forall>x. r = Inr x \<longrightarrow> (\<exists>b. find_provider pid (db s') = Some (x\<lparr>v_enabled := b\<rparr>)))"
proof (cases "up_name c = None \<and> up_base_url c = None \<and> up_timeout_ms c = None \<and> up_capabilities c = None")
  case True
  with assms show ?thesis by (auto simp: port_update_provider_def raise_def grown_refl)
next
  case False
  obtain g s1 where get: "port_get_provider port pid s = (g, s1)" by fastforce
  note read = got [OF assms(1) get]
  show ?thesis
  proof (cases g)
    case (Inl e)
    with assms(2) get False read show ?thesis by (auto simp: port_update_provider_def andThen_def)
  next
    case (Inr y)
    let ?x = "updated_row y c"
    from read Inr have y: "find_provider pid (db s1) = Some y" by simp
    then have id: "v_id y = pid" by (rule find_provider_id)
    show ?thesis
    proof (cases "validate_provider netloc_ok ?x")
      case (Inl e)
      with assms(2) get \<open>g = Inr y\<close> False read show ?thesis by (auto simp: port_update_provider_def andThen_def lift_sum_def)
    next
      case (Inr u)
      obtain a s2 where save: "vp_update port ?x s1 = (a, s2)" by fastforce
      have "validate_provider netloc_ok ?x = Inr ()" "find_provider (v_id ?x) (db s1) = Some y" "same_kind y ?x"
        using Inr y id by (simp_all add: same_kind_def)
      from update_law [OF _ this save] read have law: "providers_ok netloc_ok (db s2)" "grown (db s1) (db s2)"
        "a = Inr True \<longrightarrow> (\<exists>b. find_provider pid (db s2) = Some (?x\<lparr>v_enabled := b\<rparr>))" by (simp_all add: id)
      from assms(2) get \<open>g = Inr y\<close> Inr save False have "s' = s2" "\<forall>x. r = Inr x \<longrightarrow> x = ?x \<and> a = Inr True"
        by (auto simp: port_update_provider_def andThen_def lift_sum_def ret_def raise_def split: sum.splits if_splits)
      with law read show ?thesis by (auto intro: grown_trans)
    qed
  qed
qed

lemma toggled:
  assumes "providers_ok netloc_ok (db s)"
    and "port_enable_provider port netloc_ok pid s = (r, s') \<and> b \<or> port_disable_provider port pid s = (r, s') \<and> \<not> b"
  shows "providers_ok netloc_ok (db s') \<and> grown (db s) (db s') \<and>
    (\<forall>x. r = Inr x \<longrightarrow> find_provider pid (db s') = Some x \<and> v_enabled x = b)"
proof -
  obtain g s1 where get: "port_get_provider port pid s = (g, s1)" by fastforce
  note read = got [OF assms(1) get]
  obtain a s2 where set: "vp_set_enabled port pid b s1 = (a, s2)" by fastforce
  have ok1: "providers_ok netloc_ok (db s1)" using read by blast
  from toggle_law [OF ok1 set] read have law: "providers_ok netloc_ok (db s2)" "grown (db s) (db s2)"
    "\<forall>x. a = Inr (Some x) \<longrightarrow> find_provider pid (db s2) = Some x \<and> v_enabled x = b"
    by (auto intro: grown_trans)
  have "s' = s1 \<and> (\<forall>x. r = Inr x \<longrightarrow> g = Inr x \<and> v_enabled x = b) \<or> s' = s2 \<and> (\<forall>x. r = Inr x \<longrightarrow> a = Inr (Some x))"
    using assms(2) get set
    by (auto simp: port_enable_provider_def port_disable_provider_def prog_simps
        split: sum.splits if_splits option.splits)
  with read law show ?thesis by auto
qed

end

subsection \<open>The SQL repository keeps the contract, whatever commits in between\<close>

lemma find_provider_mapped:
  assumes "\<And>x. v_id (f x) = v_id x"
  shows "find_provider i (map_provider pid f d) =
    (if i = pid then map_option f (find_provider i d) else find_provider i d)"
  using assms by (cases "find_provider i d") (auto simp: find_map_provider dest: find_provider_id)

lemma grown_map:
  "(\<And>x. find_provider pid d = Some x \<Longrightarrow> same_kind x (f x)) \<Longrightarrow> (\<And>x. v_id (f x) = v_id x) \<Longrightarrow> grown d (map_provider pid f d)"
  by (auto simp: grown_def find_provider_mapped same_kind_def)

lemma inserted_row:
  assumes "insert_provider r d = Inr d'"
  shows "find_provider (v_id r) d' = Some r \<and> grown d d'"
proof -
  from assms have "d' = d\<lparr>providers := providers d @ [r]\<rparr>" "find_provider (v_id r) d = None"
    by (auto simp: insert_provider_def check_constraints_Inr simp del: check_constraints.simps split: if_splits sum.splits)
  then show ?thesis by (auto simp: grown_def same_kind_def find_provider_def find_append)
qed

text \<open>An update stores the configuration, but for the flag it does not write.\<close>

lemma updated_row_stored:
  assumes "providers_ok netloc_ok d" and "validate_provider netloc_ok r = Inr ()"
    and x: "find_provider (v_id r) d = Some x" "same_kind x r" and "update_provider_row r d = Inr d'"
  shows "providers_ok netloc_ok d' \<and> grown d d' \<and> find_provider (v_id r) d' = Some (r\<lparr>v_enabled := v_enabled x\<rparr>)"
proof -
  have copy: "copy_mutable r x = r\<lparr>v_enabled := v_enabled x\<rparr>"
    using x(2) by (simp add: copy_mutable_def same_kind_def)
  have d': "d' = map_provider (v_id r) (copy_mutable r) d"
    and names: "\<forall>y\<in>set (providers d). v_id y \<noteq> v_id r \<longrightarrow> v_name y \<noteq> v_name r"
    using assms(5) x(1) by (auto simp: update_provider_row_def check_constraints_Inr list_all_iff
        simp del: check_constraints.simps split: if_splits sum.splits)
  have "validate_provider netloc_ok (r\<lparr>v_enabled := v_enabled x\<rparr>) = validate_provider netloc_ok r"
    by (simp add: validate_provider_def split del: if_split cong: if_cong option.case_cong prod.case_cong)
  moreover have only: "y = x" if "y \<in> set (providers d)" "v_id y = v_id r" for y
    using that x(1) assms(1) provider_by_id [of d "v_id r" y] by (simp add: providers_ok_def)
  ultimately have "providers_ok netloc_ok d'"
    unfolding d'
  proof (intro providers_ok_map [OF assms(1)])
    show "v_id (copy_mutable r y) = v_id y" for y by (simp add: copy_mutable_def)
    show "validate_provider netloc_ok (copy_mutable r y) = Inr () \<and>
        (\<forall>z\<in>set (providers d). v_id z \<noteq> v_id r \<longrightarrow> v_name z \<noteq> v_name (copy_mutable r y))"
      if "y \<in> set (providers d)" "v_id y = v_id r" for y
      using only [OF that] names assms(2) \<open>validate_provider netloc_ok (r\<lparr>v_enabled := v_enabled x\<rparr>) = _\<close>
      by (simp add: copy)
  qed
  moreover have "grown d d'"
    unfolding d' using x by (intro grown_map) (auto simp: copy_mutable_def same_kind_def)
  moreover have "find_provider (v_id r) d' = Some (r\<lparr>v_enabled := v_enabled x\<rparr>)"
    unfolding d' using x(1) copy by (subst find_provider_mapped) (simp_all add: copy_mutable_def)
  ultimately show ?thesis by blast
qed

lemma toggled_row: "grown d (map_provider pid (\<lambda>r. r\<lparr>v_enabled := b\<rparr>) d)"
  by (rule grown_map) (auto simp: same_kind_def dest: find_provider_id)

lemma upserted_providers: "upsert_credential c d = Inr d' \<Longrightarrow> providers d' = providers d"
  by (auto simp: upsert_credential_def split: if_splits)

lemma untouched_providers: "providers d' = providers d \<Longrightarrow> grown d d' \<and> providers_ok netloc_ok d' = providers_ok netloc_ok d"
  by (simp add: grown_def providers_ok_def find_provider_def same_kind_def)

lemma provider_write_ok:
  assumes "providers_ok netloc_ok d"
  shows "providers_ok netloc_ok (provider_write netloc_ok a d) \<and> grown d (provider_write netloc_ok a d)"
proof (cases a)
  case (Insert_Row r)
  then show ?thesis
    using assms by (cases "insert_provider r d")
      (auto simp: provider_write_def on_success_def grown_refl dest: inserted_row intro: providers_ok_insert)
next
  case (Update_Row r)
  then show ?thesis
    using assms by (cases "update_provider_row r d")
      (auto simp: provider_write_def on_success_def grown_refl split: option.split dest: updated_row_stored)
next
  case (Toggle_Row pid b)
  then show ?thesis using assms by (simp add: provider_write_def providers_ok_enabled toggled_row)
next
  case (Store_Credential c)
  then show ?thesis
    using assms untouched_providers [OF upserted_providers, of c d]
    by (cases "upsert_credential c d") (auto simp: provider_write_def on_success_def grown_refl)
qed

lemma meanwhile_ok:
  assumes "providers_ok netloc_ok d"
  shows "providers_ok netloc_ok (meanwhile_db netloc_ok ot n d) \<and> grown d (meanwhile_db netloc_ok ot n d)"
proof -
  have "providers_ok netloc_ok (fold (provider_write netloc_ok) as e) \<and> grown d (fold (provider_write netloc_ok) as e)"
    if "providers_ok netloc_ok e" "grown d e" for as e
    using that by (induction as arbitrary: e) (auto dest: provider_write_ok intro: grown_trans)
  moreover have "providers_ok netloc_ok ((ot_rest ot n d)\<lparr>providers := providers d\<rparr>)"
    "grown d ((ot_rest ot n d)\<lparr>providers := providers d\<rparr>)"
    using assms untouched_providers [of "(ot_rest ot n d)\<lparr>providers := providers d\<rparr>" d netloc_ok] by simp_all
  ultimately show ?thesis by (simp add: meanwhile_db_def)
qed

text \<open>A transaction that follows the rivals' is one on a sound database.\<close>

definition after_rivals :: "(string \<Rightarrow> bool) \<Rightarrow> rivals \<Rightarrow> world \<Rightarrow> world" where
  "after_rivals netloc_ok ot w = w\<lparr>w_db := meanwhile_db netloc_ok ot (w_ticks w) (w_db w)\<rparr>"

lemma contend_after: "contend netloc_ok ot m w = m (after_rivals netloc_ok ot w)"
  by (simp add: contend_def after_rivals_def)

lemma after_ok:
  "providers_ok netloc_ok (w_db w) \<Longrightarrow>
   providers_ok netloc_ok (w_db (after_rivals netloc_ok ot w)) \<and> grown (w_db w) (w_db (after_rivals netloc_ok ot w))"
  by (simp add: after_rivals_def meanwhile_ok)

lemma save_provider_cases:
  assumes "save_provider E x w = (r, w')"
  shows "r = Inr (find_provider (v_id x) (w_db w) \<noteq> None) \<and> update_provider_row x (w_db w) = Inr (w_db w') \<or>
    (\<exists>e. r = Inl e) \<and> w_db w' = w_db w"
proof -
  let ?m = "andThen (db_query (find_provider (v_id x))) (\<lambda>found.
      andThen (try_write (update_provider_row x)) (\<lambda>_. ret (found \<noteq> None)))"
  have saved: "keeps w_saved ?m" by (intro keeps_intros)
  from handle_raise_db [OF assms [unfolded save_provider_def] name_conflict_raises]
  consider y where "transaction E ?m w = (Inr y, w')" "r = Inr y"
    | e e' where "transaction E ?m w = (Inl e, w')" "r = Inl e'" by blast
  then show ?thesis
  proof cases
    case 1
    from transaction_db [OF 1(1) saved] 1(2) show ?thesis
      by (auto simp: prog_simps begin_transaction_def split: sum.splits)
  next
    case 2
    from transaction_db [OF 2(1) saved] 2(2) show ?thesis by auto
  qed
qed

lemma add_provider_cases:
  assumes "add_provider E x w = (r, w')"
  shows "r = Inr () \<and> insert_provider x (w_db w) = Inr (w_db w') \<or> (\<exists>e. r = Inl e) \<and> w_db w' = w_db w"
  using handle_raise_db [OF assms [unfolded add_provider_def] name_conflict_raises]
  by (auto dest: transaction_try_write)

interpretation contended: provider_contract "contended_providers netloc_ok ot E coll" "fresh_uuid E" netloc_ok w_db
  for netloc_ok ot E coll
proof
  let ?P = "contended_providers netloc_ok ot E coll" and ?after = "after_rivals netloc_ok ot"
  show "fresh_uuid E w = (i, w') \<Longrightarrow> w_db w' = w_db w" for w i w'
    by (auto simp: fresh_uuid_def)
  show "providers_ok netloc_ok (w_db w') \<and> grown (w_db w) (w_db w') \<and> (\<forall>x. g = Inr x \<longrightarrow> x = find_provider pid (w_db w'))"
    if "providers_ok netloc_ok (w_db w)" "vp_get ?P pid w = (g, w')" for w pid g w'
    using that(2) after_ok [OF that(1), of ot]
    by (auto simp: contended_providers_def sql_providers_def sql_get_provider_def contend_after transaction_def db_query_def begin_transaction_def)
  show "providers_ok netloc_ok (w_db w') \<and> grown (w_db w) (w_db w') \<and>
      (\<forall>u. a = Inr u \<longrightarrow> find_provider (v_id x) (w_db w') = Some x)"
    if "providers_ok netloc_ok (w_db w)" "validate_provider netloc_ok x = Inr ()" "vp_add ?P x w = (a, w')" for w x a w'
  proof -
    have "add_provider E x (?after w) = (a, w')"
      using that(3) by (simp add: contended_providers_def sql_providers_def sql_get_provider_def contend_after)
    from add_provider_cases [OF this] after_ok [OF that(1), of ot] that(2) show ?thesis
      by (auto dest: inserted_row intro: providers_ok_insert grown_trans)
  qed
  show "providers_ok netloc_ok (w_db w') \<and> grown (w_db w) (w_db w') \<and>
      (u = Inr True \<longrightarrow> (\<exists>on. find_provider (v_id x) (w_db w') = Some (x\<lparr>v_enabled := on\<rparr>)))"
    if "providers_ok netloc_ok (w_db w)" "validate_provider netloc_ok x = Inr ()"
      "find_provider (v_id x) (w_db w) = Some y" "same_kind y x" "vp_update ?P x w = (u, w')" for w x y u w'
  proof -
    note after = after_ok [OF that(1), of ot] and prev = that(3,4)
    obtain z where z: "find_provider (v_id x) (w_db (?after w)) = Some z" "same_kind z x"
      using grownD [OF conjunct2 [OF after] prev(1)] prev(2) unfolding same_kind_def by metis
    have "save_provider E x (?after w) = (u, w')"
      using that(5) by (simp add: contended_providers_def sql_providers_def sql_get_provider_def contend_after)
    from save_provider_cases [OF this] show ?thesis
    proof (elim disjE conjE)
      assume "update_provider_row x (w_db (?after w)) = Inr (w_db w')"
      from updated_row_stored [OF conjunct1 [OF after] that(2) z this] after show ?thesis
        by (blast intro: grown_trans)
    qed (use after in auto)
  qed
  show "providers_ok netloc_ok (w_db w') \<and> grown (w_db w) (w_db w') \<and>
      (\<forall>x. t = Inr (Some x) \<longrightarrow> find_provider pid (w_db w') = Some x \<and> v_enabled x = b)"
    if "providers_ok netloc_ok (w_db w)" "vp_set_enabled ?P pid b w = (t, w')" for w pid b t w'
  proof -
    have run: "set_enabled E pid b (?after w) = (t, w')"
      using that(2) by (simp add: contended_providers_def sql_providers_def sql_get_provider_def contend_after)
    have "t = Inr (find_provider pid (w_db w'))"
      using run by (auto simp: set_enabled_def transaction_def prog_simps)
    then show ?thesis
      using set_enabled_db [OF run] after_ok [OF that(1), of ot]
      by (auto simp: find_provider_mapped providers_ok_enabled intro: grown_trans toggled_row)
  qed
qed

subsection \<open>Requests\<close>

datatype provider_request =
  Register register_command | Patch uuid update_command | Enable uuid | Disable uuid

definition serve_provider ::
  "(string \<Rightarrow> bool) \<Rightarrow> 's provider_port \<Rightarrow> ('s, exn, uuid) prog \<Rightarrow> provider_request \<Rightarrow> ('s, exn, provider_row) prog" where
  "serve_provider netloc_ok P ids q = (case q of
     Register c \<Rightarrow> port_register_provider P ids netloc_ok c
   | Patch pid c \<Rightarrow> port_update_provider P netloc_ok pid c
   | Enable pid \<Rightarrow> port_enable_provider P netloc_ok pid
   | Disable pid \<Rightarrow> port_disable_provider P pid)"

definition answered_flag :: "provider_request \<Rightarrow> bool option" where
  "answered_flag q = (case q of Register _ \<Rightarrow> Some False | Patch _ _ \<Rightarrow> None | Enable _ \<Rightarrow> Some True | Disable _ \<Rightarrow> Some False)"

lemma flag_itself: "x = x\<lparr>v_enabled := b\<rparr> \<longleftrightarrow> v_enabled x = b"
  by (cases x) auto

lemma stored_itself: "find_provider pid d = Some x \<Longrightarrow> find_provider (v_id x) d = Some (x\<lparr>v_enabled := v_enabled x\<rparr>)"
  by (auto dest: find_provider_id)

lemma flagged_id: "find_provider pid d = Some (x\<lparr>v_enabled := b\<rparr>) \<Longrightarrow> v_id x = pid"
  by (auto dest: find_provider_id)

text \<open>
  C13. Concurrent management requests keep the providers valid. A request that registers, changes,
  enables or disables a provider takes two transactions, and any other management requests may commit
  before each of them, whatever they do. Whatever it answers, the stored providers stay valid and
  unique in identifier and name, and none is lost or changes its kind; a hold-capable one can
  confirm and release, an external one has an HTTP base URL. What it answers when it succeeds is
  what is stored then, but for the flag of a \<open>PATCH\<close>, which another request may have changed
  since it was read.
\<close>

theorem concurrent_requests_keep_providers_valid:
  assumes sound: "providers_ok netloc_ok (w_db w)"
    and run: "serve_provider netloc_ok (contended_providers netloc_ok ot E coll) (fresh_uuid E) q w = (r, w')"
  shows "providers_ok netloc_ok (w_db w') \<and> grown (w_db w) (w_db w') \<and>
    (\<forall>x\<in>set (providers (w_db w')). (v_hold x \<longrightarrow> v_confirm x \<and> v_release x) \<and>
      (v_kind x = External \<longrightarrow> v_driver x = ''http'' \<and> v_base_url x \<noteq> None)) \<and>
    (\<forall>x. r = Inr x \<longrightarrow> (\<exists>on. find_provider (v_id x) (w_db w') = Some (x\<lparr>v_enabled := on\<rparr>) \<and>
      (\<forall>b. answered_flag q = Some b \<longrightarrow> on = b \<and> v_enabled x = b)))"
proof -
  have "providers_ok netloc_ok (w_db w') \<and> grown (w_db w) (w_db w') \<and>
    (\<forall>x. r = Inr x \<longrightarrow> (\<exists>on. find_provider (v_id x) (w_db w') = Some (x\<lparr>v_enabled := on\<rparr>) \<and>
      (\<forall>b. answered_flag q = Some b \<longrightarrow> on = b \<and> v_enabled x = b)))"
  proof (cases q)
    case (Register c)
    with contended.registered [OF sound] run show ?thesis
      by (auto simp: serve_provider_def answered_flag_def flag_itself dest: find_provider_id)
  next
    case (Patch pid c)
    with contended.updated [OF sound, of ot E coll pid c r w'] run show ?thesis
      by (auto simp: serve_provider_def answered_flag_def; metis flagged_id)
  next
    case (Enable pid)
    with contended.toggled [OF sound, of ot E coll pid r w' True] run show ?thesis
      by (auto simp: serve_provider_def answered_flag_def; metis stored_itself)
  next
    case (Disable pid)
    with contended.toggled [OF sound, of ot E coll pid r w' False] run show ?thesis
      by (auto simp: serve_provider_def answered_flag_def; metis stored_itself)
  qed
  then show ?thesis by (auto simp: providers_ok_def list_all_iff dest: valid_providerD)
qed

text \<open>
  Two \<open>PATCH\<close> requests of one provider: the first renames it; the second gives it more time,
  between the first one's reading and writing.
\<close>

abbreviation renaming :: update_command where
  "renaming \<equiv> \<lparr>up_name = Some ''shop'', up_base_url = None, up_timeout_ms = None, up_capabilities = None\<rparr>"

abbreviation slowing :: update_command where
  "slowing \<equiv> \<lparr>up_name = None, up_base_url = None, up_timeout_ms = Some 5000, up_capabilities = None\<rparr>"

definition slowed_between :: rivals where
  "slowed_between = \<lparr>ot_writes = (\<lambda>n. if n = 1 then [Update_Row (updated_row seller slowing)] else []), ot_rest = (\<lambda>_ d. d)\<rparr>"

definition patches_contended :: "(exn + provider_row) \<times> world" where
  "patches_contended = serve_provider (\<lambda>_. True) (contended_providers (\<lambda>_. True) slowed_between offline length)
     (fresh_uuid offline) (Patch 1000 renaming) (world_of open_database)"

lemma open_providers_ok: "providers_ok (\<lambda>_. True) open_database"
  by (simp add: providers_ok_def seller_def validate_provider_def text_simps)

lemmas patch_simps = port_get_provider_def prog_simps transaction_def begin_transaction_def contended_providers_def
  sql_providers_def sql_get_provider_def save_provider_def update_provider_row_def find_provider_def map_provider_def update_where_def
  provider_columns_fit_def provider_checks_def int4_def validate_provider_def updated_row_def copy_mutable_def
  text_simps sample_simps seller_def offline_def

lemma slowed_alone:
  "fst (update_provider offline (\<lambda>_. True) 1000 slowing (world_of open_database)) = Inr (updated_row seller slowing)"
  by (simp add: update_provider_def get_provider_def patch_simps empty_database_def)

lemma patches_answer: "fst patches_contended = Inr (updated_row seller renaming)"
  by (simp add: patches_contended_def serve_provider_def port_update_provider_def contend_def meanwhile_db_def slowed_between_def
      provider_write_def on_success_def same_kind_def patch_simps empty_database_def)

theorem concurrent_requests_keep_providers_valid_witness:
  "fst patches_contended = Inr (updated_row seller renaming) \<and> providers_ok (\<lambda>_. True) (w_db (snd patches_contended)) \<and>
   (\<exists>on. find_provider 1000 (w_db (snd patches_contended)) = Some ((updated_row seller renaming)\<lparr>v_enabled := on\<rparr>))"
proof -
  have sound: "providers_ok (\<lambda>_. True) (w_db (world_of open_database))" using open_providers_ok by simp
  have run: "serve_provider (\<lambda>_. True) (contended_providers (\<lambda>_. True) slowed_between offline length)
      (fresh_uuid offline) (Patch 1000 renaming) (world_of open_database) =
      (Inr (updated_row seller renaming), snd patches_contended)"
    using patches_answer unfolding patches_contended_def by (metis prod.collapse)
  have "v_id (updated_row seller renaming) = 1000" by (simp add: updated_row_def seller_def)
  with concurrent_requests_keep_providers_valid [OF sound run] patches_answer show ?thesis by (auto simp: answered_flag_def)
qed

text \<open>
  Both answer their own change, and one is lost: the first writes back every column it read, so the
  stored provider has the old timeout although the second request was told the new one.
\<close>

theorem concurrent_patch_is_lost:
  "fst (update_provider offline (\<lambda>_. True) 1000 slowing (world_of open_database)) = Inr (updated_row seller slowing) \<and>
   meanwhile_db (\<lambda>_. True) slowed_between 1 open_database = open_database\<lparr>providers := [updated_row seller slowing]\<rparr> \<and>
   fst patches_contended = Inr (updated_row seller renaming) \<and>
   v_timeout_ms (updated_row seller slowing) = 5000 \<and>
   map_option v_timeout_ms (find_provider 1000 (w_db (snd patches_contended))) = Some 2000"
proof -
  have "meanwhile_db (\<lambda>_. True) slowed_between 1 open_database = open_database\<lparr>providers := [updated_row seller slowing]\<rparr>"
    by (simp add: meanwhile_db_def slowed_between_def provider_write_def on_success_def same_kind_def patch_simps
        empty_database_def)
  moreover have "map_option v_timeout_ms (find_provider 1000 (w_db (snd patches_contended))) = Some 2000"
    by (simp add: patches_contended_def serve_provider_def port_update_provider_def contend_def meanwhile_db_def
        slowed_between_def provider_write_def on_success_def same_kind_def patch_simps empty_database_def)
  ultimately show ?thesis using slowed_alone patches_answer by (simp add: updated_row_def)
qed

end
