(* ===== verification/Row_Locks.thy ===== *)
theory Row_Locks
  imports Closed_Reservations
begin

section \<open>Transactions that hold row locks\<close>

text \<open>
  The transactions of \<open>repository/reservation.py\<close> that work on stored reservations begin with a
  \<open>SELECT .. FOR UPDATE\<close>: \<open>confirm\<close> and \<open>cancel\<close> wait for the row, the batches of the two workers
  skip rows that are locked. A transaction here claims its rows in one step and works on them, as it
  read them, and commits or rolls back in a later one; any number of them overlap, with creations and
  management requests in between.
\<close>

subsection \<open>Claiming\<close>

datatype work =
  Confirming uuid uuid | Cancelling uuid uuid
| Expiring instant int | Reconciling instant int int duration

record locking =
  lk_db :: database
  lk_held :: "(nat \<times> work \<times> reservation_row list) list"

definition claimed_ids :: "(nat \<times> work \<times> reservation_row list) list \<Rightarrow> uuid list" where
  "claimed_ids held = concat (map (\<lambda>(_, _, rows). map r_id rows) held)"

text \<open>\<open>FOR UPDATE\<close>: \<open>None\<close> is a transaction that has to wait for a lock.\<close>

definition claim_one :: "uuid \<Rightarrow> uuid \<Rightarrow> uuid list \<Rightarrow> database \<Rightarrow> reservation_row list option" where
  "claim_one rid user locked d = (case owned_reservation rid user d of
     None \<Rightarrow> Some []
   | Some r \<Rightarrow> if rid \<in> set locked then None else Some [r])"

text \<open>\<open>FOR UPDATE SKIP LOCKED\<close>\<close>

definition claim_expired :: "instant \<Rightarrow> int \<Rightarrow> uuid list \<Rightarrow> database \<Rightarrow> reservation_row list" where
  "claim_expired now lim locked d = take (nat lim) (sort_key (\<lambda>r. (r_expires r, r_id r))
     (filter (\<lambda>r. overdue now r \<and> r_id r \<notin> set locked) (reservations d)))"

definition claim_reconcilable :: "instant \<Rightarrow> int \<Rightarrow> int \<Rightarrow> uuid list \<Rightarrow> database \<Rightarrow> reservation_row list" where
  "claim_reconcilable now lim max_attempts locked d = take (nat lim) (sort_key (\<lambda>r. (r_updated r, r_id r))
     (filter (\<lambda>r. reconcilable now max_attempts d r \<and> r_id r \<notin> set locked) (reservations d)))"

definition claims :: "work \<Rightarrow> uuid list \<Rightarrow> database \<Rightarrow> reservation_row list option" where
  "claims work locked d = (case work of
     Confirming rid user \<Rightarrow> claim_one rid user locked d
   | Cancelling rid user \<Rightarrow> claim_one rid user locked d
   | Expiring now lim \<Rightarrow> Some (claim_expired now lim locked d)
   | Reconciling now lim max_attempts delay \<Rightarrow> Some (claim_reconcilable now lim max_attempts locked d))"

lemmas claim_defs = claims_def claim_one_def claim_expired_def claim_reconcilable_def

subsection \<open>Working on what was claimed\<close>

datatype outcome = One "reservation option" | Many "reservation list"

definition confirm_row :: "environment \<Rightarrow> uuid \<Rightarrow> reservation_row \<Rightarrow> reservation option io" where
  "confirm_row E rid r =
     (if r_status r = M_Confirmed then andThen (ensure_order E r) (\<lambda>_. reload_domain (r_id r))
      else if r_status r = M_Cancelled then raise (ReservationNotConfirmableError rid)
      else confirm_reservation E r (first_attempt (r_id r)))"

definition cancel_row :: "environment \<Rightarrow> uuid \<Rightarrow> reservation_row \<Rightarrow> reservation option io" where
  "cancel_row E rid r =
     (if r_status r = M_Cancelled then reload_domain (r_id r)
      else if r_status r = M_Confirmed then raise (ReservationNotCancellableError rid)
      else if r_status r = M_Confirming then raise (ReservationReconciliationRequiredError rid)
      else andThen (release_reservation E (r_id r) M_Cancelled None) (\<lambda>_. reload_domain (r_id r)))"

definition on_claim :: "(reservation_row \<Rightarrow> reservation option io) \<Rightarrow> reservation_row list \<Rightarrow> outcome io" where
  "on_claim f rows = andThen (case rows of [] \<Rightarrow> ret None | r # _ \<Rightarrow> f r) (\<lambda>x. ret (One x))"

definition on_batch :: "(reservation_row \<Rightarrow> unit io) \<Rightarrow> reservation_row list \<Rightarrow> outcome io" where
  "on_batch f rows = andThen (for_each f rows) (\<lambda>_. andThen (reload_all rows) (\<lambda>xs. ret (Many xs)))"

definition claimed_body :: "environment \<Rightarrow> work \<Rightarrow> reservation_row list \<Rightarrow> outcome io" where
  "claimed_body E work rows = (case work of
     Confirming rid user \<Rightarrow> on_claim (confirm_row E rid) rows
   | Cancelling rid user \<Rightarrow> on_claim (cancel_row E rid) rows
   | Expiring now lim \<Rightarrow> on_batch (\<lambda>r. release_reservation E (r_id r) M_Expired None) rows
   | Reconciling now lim max_attempts delay \<Rightarrow> on_batch (reconcile_one E now max_attempts delay) rows)"

definition run_claimed :: "environment \<Rightarrow> work \<Rightarrow> reservation_row list \<Rightarrow> outcome io" where
  "run_claimed E work rows = reservation_transaction E (claimed_body E work rows)"

text \<open>When no lock is in the way, claiming and working is the repository's operation.\<close>

lemma whole_confirm:
  "repo_confirm E rid user = andThen (db_query (owned_reservation rid user)) (\<lambda>row. case row of
     None \<Rightarrow> ret None | Some r \<Rightarrow> confirm_row E rid r)"
  unfolding repo_confirm_def confirm_row_def ..

lemma whole_cancel:
  "repo_cancel E rid user = andThen (db_query (owned_reservation rid user)) (\<lambda>row. case row of
     None \<Rightarrow> ret None | Some r \<Rightarrow> cancel_row E rid r)"
  unfolding repo_cancel_def cancel_row_def ..

lemma query_andThen: "andThen (db_query f) g w = g (f (w_db w)) w"
  by (simp add: andThen_def db_query_def)

lemma unlocked_body:
  assumes "claims work [] (w_db w) = Some rows"
  shows "claimed_body E work rows w = (case work of
     Confirming rid user \<Rightarrow> andThen (repo_confirm E rid user) (\<lambda>x. ret (One x)) w
   | Cancelling rid user \<Rightarrow> andThen (repo_cancel E rid user) (\<lambda>x. ret (One x)) w
   | Expiring now lim \<Rightarrow> andThen (expire_batch E now lim) (\<lambda>xs. ret (Many xs)) w
   | Reconciling now lim max_attempts delay \<Rightarrow>
       andThen (reconcile_batch E now lim max_attempts delay) (\<lambda>xs. ret (Many xs)) w)"
  using assms
  by (auto simp: claim_defs Let_def claimed_body_def whole_confirm whole_cancel expire_batch_def expired_batch_def
      reconcile_batch_def reconcile_rows_def on_claim_def on_batch_def andThen_assoc query_andThen
      split: work.splits option.splits)

subsection \<open>Overlapping transactions\<close>

definition release_locks :: "nat \<Rightarrow> (nat \<times> work \<times> reservation_row list) list \<Rightarrow> (nat \<times> work \<times> reservation_row list) list" where
  "release_locks t held = filter (\<lambda>h. fst h \<noteq> t) held"

inductive lock_step :: "environment \<Rightarrow> locking \<Rightarrow> locking \<Rightarrow> bool" for E where
  claim: "t \<notin> fst ` set (lk_held s) \<Longrightarrow> claims work (claimed_ids (lk_held s)) (lk_db s) = Some rows \<Longrightarrow>
    lock_step E s (s\<lparr>lk_held := (t, work, rows) # lk_held s\<rparr>)"
| finish: "(t, work, rows) \<in> set (lk_held s) \<Longrightarrow> w_db w = lk_db s \<Longrightarrow> run_claimed E work rows w = (r, w') \<Longrightarrow>
    lock_step E s \<lparr>lk_db = w_db w', lk_held = release_locks t (lk_held s)\<rparr>"
| abort: "lock_step E s (s\<lparr>lk_held := release_locks t (lk_held s)\<rparr>)"
| create: "w_db w = lk_db s \<Longrightarrow> create E (\<lambda>d. d) ttl user its key w = (r, w') \<Longrightarrow> lock_step E s (s\<lparr>lk_db := w_db w'\<rparr>)"
| manage: "same_requests (lk_db s) d \<Longrightarrow> lock_step E s (s\<lparr>lk_db := d\<rparr>)"

text \<open>What a transaction claimed for.\<close>

definition wanted :: "work \<Rightarrow> reservation_row \<Rightarrow> bool" where
  "wanted work r = (case work of
     Confirming rid user \<Rightarrow> r_id r = rid \<and> r_user r = user
   | Cancelling rid user \<Rightarrow> r_id r = rid \<and> r_user r = user
   | Expiring now _ \<Rightarrow> overdue now r
   | Reconciling _ _ _ _ \<Rightarrow> r_status r \<in> {M_Releasing, M_Confirming})"

definition lock_inv :: "locking \<Rightarrow> bool" where
  "lock_inv s \<longleftrightarrow> unique_requests (lk_db s) \<and> distinct (claimed_ids (lk_held s)) \<and> distinct (map fst (lk_held s)) \<and>
     (\<forall>(t, work, rows)\<in>set (lk_held s). \<forall>r\<in>set rows. find_reservation (r_id r) (lk_db s) = Some r \<and> wanted work r)"

lemma claims_rows:
  assumes "unique_requests d" and "claims work locked d = Some rows"
  shows "distinct (map r_id rows) \<and> (\<forall>r\<in>set rows. r_id r \<notin> set locked \<and> find_reservation (r_id r) d = Some r \<and> wanted work r)"
proof -
  have batch: "distinct (map r_id xs) \<and> (\<forall>r\<in>set xs. r_id r \<notin> set locked \<and> find_reservation (r_id r) d = Some r \<and> P r)"
    if "xs = take n (sort_key k (filter (\<lambda>r. P r \<and> r_id r \<notin> set locked) (reservations d)))" for P k n xs
  proof -
    have "distinct (map r_id (filter (\<lambda>r. P r \<and> r_id r \<notin> set locked) (reservations d)))"
      using assms(1) by (simp add: unique_requests_def distinct_map_filter)
    then have "distinct (map r_id (sort_key k (filter (\<lambda>r. P r \<and> r_id r \<notin> set locked) (reservations d))))"
      by (simp add: distinct_map)
    then have "distinct (map r_id xs)" using that by (simp add: take_map [symmetric] distinct_take)
    moreover have "r \<in> set (reservations d) \<and> P r \<and> r_id r \<notin> set locked" if "r \<in> set xs" for r
      using that \<open>xs = _\<close> by (auto dest: in_set_takeD)
    moreover have "find_reservation (r_id r) d = Some r" if "r \<in> set (reservations d)" for r
      using find_Some_iff_mem [of r_id "reservations d" "r_id r" r] assms(1) that
      by (simp add: unique_requests_def find_reservation_def)
    ultimately show ?thesis by blast
  qed
  show ?thesis
    using assms(2)
  proof (cases work)
    case (Confirming rid user)
    with assms show ?thesis
      by (auto simp: claim_defs Let_def wanted_def split: option.splits if_splits dest: owned_unique owned_reservation_Some)
  next
    case (Cancelling rid user)
    with assms show ?thesis
      by (auto simp: claim_defs Let_def wanted_def split: option.splits if_splits dest: owned_unique owned_reservation_Some)
  next
    case (Expiring now lim)
    with assms(2) have "rows = take (nat lim) (sort_key (\<lambda>r. (r_expires r, r_id r))
        (filter (\<lambda>r. overdue now r \<and> r_id r \<notin> set locked) (reservations d)))"
      by (simp add: claim_defs Let_def)
    from batch [OF this] Expiring show ?thesis by (simp add: wanted_def)
  next
    case (Reconciling now lim n delay)
    with assms(2) have "rows = take (nat lim) (sort_key (\<lambda>r. (r_updated r, r_id r))
        (filter (\<lambda>r. reconcilable now n d r \<and> r_id r \<notin> set locked) (reservations d)))"
      by (simp add: claim_defs Let_def)
    note rows = batch [OF this]
    have "r_status r \<in> {M_Releasing, M_Confirming}" if "reconcilable now n d r" for r
      using that by (auto simp: reconcilable_def)
    with rows Reconciling show ?thesis by (simp add: wanted_def)
  qed
qed

text \<open>A transaction changes no reservation but those it claimed.\<close>

lemma claimed_frame:
  assumes "x \<notin> r_id ` set rows"
  shows "keeps (\<lambda>w. row_of x (w_db w)) (claimed_body E work rows)"
proof -
  have ne: "r \<in> set rows \<Longrightarrow> x \<noteq> r_id r" for r using assms by blast
  have confirm: "r \<in> set rows \<Longrightarrow> keeps (\<lambda>w. row_of x (w_db w)) (confirm_row E rid r)" for r rid
    unfolding confirm_row_def by (intro keeps_intros ne)
  have cancel: "r \<in> set rows \<Longrightarrow> keeps (\<lambda>w. row_of x (w_db w)) (cancel_row E rid r)" for r rid
    unfolding cancel_row_def by (intro keeps_intros ne)
  have one: "keeps (\<lambda>w. row_of x (w_db w)) (on_claim f rows)"
    if "\<And>r. r \<in> set rows \<Longrightarrow> keeps (\<lambda>w. row_of x (w_db w)) (f r)" for f
    using that by (cases rows) (simp_all add: on_claim_def keeps_intros)
  show ?thesis
    unfolding claimed_body_def on_batch_def reconcile_one_def Let_def
    by (cases work) (auto intro!: keeps_intros one confirm cancel dest: ne)
qed

lemma claimed_identities: "keeps (\<lambda>w. identities (w_db w)) (claimed_body E work rows)"
  unfolding claimed_body_def on_claim_def on_batch_def confirm_row_def cancel_row_def reconcile_one_def Let_def
  by (cases work; cases rows) (auto intro!: keeps_intros)

lemma claimed_saved: "keeps w_saved (claimed_body E work rows)"
  unfolding claimed_body_def on_claim_def on_batch_def confirm_row_def cancel_row_def reconcile_one_def Let_def
  by (cases work; cases rows) (auto intro!: keeps_intros)

lemma create_frame:
  assumes "unique_requests (w_db w)" and run: "create E (\<lambda>d. d) ttl user its key w = (res, w')"
  shows "unique_requests (w_db w') \<and> (\<forall>x r. find_reservation x (w_db w) = Some r \<longrightarrow> row_of x (w_db w') = row_of x (w_db w))"
  using create_cases [OF run]
proof (elim disjE exE conjE)
  fix now rid r held v v'
  assume v: "w_db v = w_db w" and add: "add_with_hold E r v = (Inr held, v')" and eq: "w_db w' = w_db v'"
  have "unique_requests (w_db v)" using assms(1) v by simp
  note new = add_with_hold_unique [OF this add]
  have "row_of x (w_db v') = row_of x (w_db v)" if "find_reservation x (w_db v) = Some y" for x y
  proof -
    have "x \<noteq> res_id r" using new that by auto
    from keepsD [OF keeps_row_add [OF this] add] show ?thesis .
  qed
  with new v eq show ?thesis by simp
qed (use assms in simp_all)

lemma run_claimed_frame:
  assumes "unique_requests (w_db w)" and "run_claimed E work rows w = (r, w')"
  shows "unique_requests (w_db w') \<and> (\<forall>x. x \<notin> r_id ` set rows \<longrightarrow> row_of x (w_db w') = row_of x (w_db w))"
proof (rule transaction_inv [where P = "\<lambda>d. unique_requests d \<and> (\<forall>x. x \<notin> r_id ` set rows \<longrightarrow> row_of x d = row_of x (w_db w))",
      OF _ _ claimed_saved assms(2) [unfolded run_claimed_def] ])
  fix y w1
  assume run: "claimed_body E work rows (begin_transaction E w) = (Inr y, w1)"
  have "identities (w_db w1) = identities (w_db w)" using keepsD [OF claimed_identities run] by simp
  then show "unique_requests (w_db w1) \<and> (\<forall>x. x \<notin> r_id ` set rows \<longrightarrow> row_of x (w_db w1) = row_of x (w_db w))"
    using keepsD [OF claimed_frame run] unique_requests_cong [of "w_db w1" "w_db w"] assms(1) by auto
qed (use assms(1) in simp)

lemma claimed_ids_simps [simp]:
  "claimed_ids [] = []" "claimed_ids (h # held) = map r_id (snd (snd h)) @ claimed_ids held"
  by (simp_all add: claimed_ids_def split: prod.split)

lemma claimed_ids_set: "set (claimed_ids held) = (\<Union>h\<in>set held. r_id ` set (snd (snd h)))"
  by (induction held) simp_all

lemma claimed_ids_mem: "x \<in> set (claimed_ids held) \<longleftrightarrow> (\<exists>t work rows. (t, work, rows) \<in> set held \<and> x \<in> r_id ` set rows)"
  unfolding claimed_ids_set by force

lemma release_distinct: "distinct (claimed_ids held) \<Longrightarrow> distinct (claimed_ids (release_locks t held))"
proof (induction held)
  case (Cons h held)
  have "set (claimed_ids (release_locks t held)) \<subseteq> set (claimed_ids held)"
    unfolding claimed_ids_set release_locks_def by (rule UN_mono) auto
  with Cons show ?case by (auto simp: release_locks_def)
qed (simp add: release_locks_def)

lemma claims_apart:
  "distinct (claimed_ids held) \<Longrightarrow> h \<in> set held \<Longrightarrow> h' \<in> set held \<Longrightarrow> fst h \<noteq> fst h' \<Longrightarrow>
   r_id ` set (snd (snd h)) \<inter> r_id ` set (snd (snd h')) = {}"
proof (induction held)
  case (Cons k held)
  have sub: "r_id ` set (snd (snd g)) \<subseteq> set (claimed_ids held)" if "g \<in> set held" for g
    unfolding claimed_ids_set using that by (rule UN_upper)
  have new: "r_id ` set (snd (snd k)) \<inter> set (claimed_ids held) = {}" and old: "distinct (claimed_ids held)"
    using Cons.prems(1) by simp_all
  consider "h \<in> set held" "h' \<in> set held" | "h = k" "h' \<in> set held" | "h \<in> set held" "h' = k"
    using Cons.prems(2-4) by auto
  then show ?case
  proof cases
    case 1
    from Cons.IH [OF old this Cons.prems(4)] show ?thesis .
  next
    case 2
    with new sub [of h'] show ?thesis by blast
  next
    case 3
    with new sub [of h] show ?thesis by blast
  qed
qed simp

text \<open>A step that leaves the claimed rows alone keeps the rest of the invariant.\<close>

lemma lock_inv_frame:
  assumes "lock_inv s" and "unique_requests d"
    and "\<And>x. x \<in> set (claimed_ids held) \<Longrightarrow> row_of x d = row_of x (lk_db s)"
    and "held = lk_held s \<or> held = release_locks t (lk_held s)"
  shows "lock_inv \<lparr>lk_db = d, lk_held = held\<rparr>"
proof -
  have sub: "h \<in> set (lk_held s)" if "h \<in> set held" for h using assms(4) that by (auto simp: release_locks_def)
  have "find_reservation (r_id r) d = Some r \<and> wanted work r"
    if h: "(u, work, rows) \<in> set held" "r \<in> set rows" for u work rows r
  proof -
    from h have "r_id r \<in> set (claimed_ids held)" by (auto simp: claimed_ids_mem)
    from assms(3) [OF this] have "find_reservation (r_id r) d = find_reservation (r_id r) (lk_db s)" by (simp add: row_of_def)
    with assms(1) sub [OF h(1)] h(2) show ?thesis by (fastforce simp: lock_inv_def)
  qed
  moreover have "distinct (claimed_ids held)" "distinct (map fst held)"
    using assms(1,4) by (auto simp: lock_inv_def release_distinct) (simp add: release_locks_def distinct_map_filter)
  ultimately show ?thesis using assms(2) by (auto simp: lock_inv_def)
qed

lemma lock_step_inv: "lock_step E s s' \<Longrightarrow> lock_inv s \<Longrightarrow> lock_inv s'"
proof (induction rule: lock_step.induct)
  case (claim t s work rows)
  from claim.prems have "unique_requests (lk_db s)" by (simp add: lock_inv_def)
  from claims_rows [OF this claim.hyps(2)] claim show ?case by (auto simp: lock_inv_def)
next
  case (finish t work rows s w r w')
  then have uniq: "unique_requests (w_db w)" by (simp add: lock_inv_def)
  note frame = run_claimed_frame [OF this finish.hyps(3)]
  have "x \<notin> r_id ` set rows" if "x \<in> set (claimed_ids (release_locks t (lk_held s)))" for x
  proof -
    from that obtain h where "h \<in> set (lk_held s)" "fst h \<noteq> t" "x \<in> r_id ` set (snd (snd h))"
      by (auto simp: claimed_ids_set release_locks_def)
    with claims_apart [of "lk_held s" "(t, work, rows)" h] finish.hyps(1) finish.prems show ?thesis
      by (auto simp: lock_inv_def)
  qed
  with frame finish show ?case by (intro lock_inv_frame [of s _ _ t]) auto
next
  case (abort s t)
  then have "unique_requests (lk_db s)" by (simp add: lock_inv_def)
  from lock_inv_frame [OF abort this, of "release_locks t (lk_held s)" t] show ?case by (cases s) simp
next
  case (create w s ttl user its key r w')
  then have "unique_requests (w_db w)" by (simp add: lock_inv_def)
  note frame = create_frame [OF this create.hyps(2)]
  have "row_of x (w_db w') = row_of x (lk_db s)" if "x \<in> set (claimed_ids (lk_held s))" for x
    using that create frame by (fastforce simp: claimed_ids_mem lock_inv_def)
  with frame create lock_inv_frame [of s "w_db w'" "lk_held s"] show ?case by (cases s) simp
next
  case (manage s d)
  then have "row_of x d = row_of x (lk_db s)" "unique_requests d" for x
    by (simp_all add: same_requests_def row_of_def find_reservation_def items_of_def lock_inv_def unique_requests_def)
  with manage lock_inv_frame [of s d "lk_held s"] show ?case by (cases s) simp
qed

interpretation locks: transition_system "\<lambda>s. unique_requests (lk_db s) \<and> lk_held s = []" "lock_step E" lock_inv for E
  by unfold_locales (simp add: lock_inv_def, erule lock_step_inv)

text \<open>At its end, a claim is what the whole operation would find.\<close>

lemma transaction_map:
  "reservation_transaction E (andThen m (\<lambda>x. ret (f x))) w = andThen (reservation_transaction E m) (\<lambda>x. ret (f x)) w"
  by (simp add: reservation_transaction_cases transaction_def andThen_def ret_def split: prod.split sum.split)

lemma transaction_cong:
  "m (begin_transaction E w) = n (begin_transaction E w) \<Longrightarrow> reservation_transaction E m w = reservation_transaction E n w"
  by (simp add: reservation_transaction_cases transaction_def)

lemma stored_is_owned:
  assumes "unique_requests d" and "find_reservation (r_id r) d = Some r"
  shows "owned_reservation (r_id r) (r_user r) d = Some r"
proof -
  have "r \<in> set (reservations d)" using assms(2) unfolding find_reservation_def by (auto dest: find_SomeD)
  then have "owned_reservation (r_id r) (r_user r) d \<noteq> None" by (auto simp: owned_reservation_def find_None_iff)
  then obtain r' where own: "owned_reservation (r_id r) (r_user r) d = Some r'" by blast
  with owned_unique [OF assms(1) own] assms(2) show ?thesis by (metis option.inject)
qed


text \<open>
  Two expiration workers and a customer: the first worker claims the overdue reservation, the second
  finds nothing left, and the confirmation has to wait.
\<close>

definition two_workers :: locking where
  "two_workers = \<lparr>lk_db = reserved_database,
     lk_held = [(2, Expiring 700 10, []), (1, Expiring 700 10, [reserved_row])]\<rparr>"

lemma two_workers_claim: "(lock_step offline)\<^sup>*\<^sup>* \<lparr>lk_db = reserved_database, lk_held = []\<rparr> two_workers"
proof -
  let ?s = "\<lparr>lk_db = reserved_database, lk_held = []\<rparr>" and ?s1 = "\<lparr>lk_db = reserved_database, lk_held = [(1, Expiring 700 10, [reserved_row])]\<rparr>"
  have "claims (Expiring 700 10) [] reserved_database = Some [reserved_row]"
    "claims (Expiring 700 10) [1000] reserved_database = Some []"
    by (simp_all add: claim_defs reserved_database_def overdue_def reserved_row_def)
  then have "lock_step offline ?s (?s\<lparr>lk_held := [(1, Expiring 700 10, [reserved_row])]\<rparr>)"
    "lock_step offline ?s1 (?s1\<lparr>lk_held := [(2, Expiring 700 10, []), (1, Expiring 700 10, [reserved_row])]\<rparr>)"
    using lock_step.claim [of 1 ?s "Expiring 700 10" "[reserved_row]" offline] lock_step.claim [of 2 ?s1 "Expiring 700 10" "[]" offline]
    by (simp_all add: reserved_row_def)
  then show ?thesis
    by (auto simp: two_workers_def intro: converse_rtranclp_into_rtranclp)
qed


end
