(* ===== verification/Domain_Objects.thy ===== *)
theory Domain_Objects
  imports Management_Ports
begin

section \<open>Domain objects and their rows\<close>

text \<open>
  The objects the management services pass around, as \<open>service/product.py\<close>,
  \<open>service/provider_management.py\<close> and \<open>service/inventory_management.py\<close> declare them, and the
  conversions the SQL repositories make between them and their rows. An enumeration is converted by its
  value, which raises when the other enumeration lacks it. No stored row is refused, and the
  conversions are inverse to each other: elsewhere the rows stand for the objects.
\<close>

subsection \<open>Objects\<close>

datatype service_kind = Internal_Kind | External_Kind

fun service_kind_value :: "service_kind \<Rightarrow> string" where
  "service_kind_value Internal_Kind = ''internal''"
| "service_kind_value External_Kind = ''external''"

datatype service_auth = No_Auth | Api_Key_Auth | Bearer_Auth | Basic_Auth | OAuth2_Auth

fun service_auth_value :: "service_auth \<Rightarrow> string" where
  "service_auth_value No_Auth = ''none''"
| "service_auth_value Api_Key_Auth = ''api_key''"
| "service_auth_value Bearer_Auth = ''bearer''"
| "service_auth_value Basic_Auth = ''basic''"
| "service_auth_value OAuth2_Auth = ''oauth2''"

record product_object =
  pd_id :: uuid
  pd_sku :: string
  pd_name :: string
  pd_active :: bool

record provider_configuration =
  pc_id :: uuid
  pc_name :: string
  pc_kind :: service_kind
  pc_driver :: string
  pc_base_url :: "string option"
  pc_timeout_ms :: int
  pc_capabilities :: capabilities
  pc_enabled :: bool

record credential_configuration =
  cc_provider :: uuid
  cc_auth :: service_auth
  cc_secret_ref :: "string option"
  cc_config :: "(string \<times> json) list"

record inventory_level =
  lv_product :: uuid
  lv_provider :: uuid
  lv_on_hand :: int
  lv_reserved :: int
  lv_priority :: int
  lv_version :: int
  lv_group :: "uuid option"

definition lv_available :: "inventory_level \<Rightarrow> int" where
  "lv_available l = lv_on_hand l - lv_reserved l"

subsection \<open>Conversions\<close>

text \<open>\<open>Enumeration(value)\<close>\<close>

definition member_of_value :: "('a \<Rightarrow> string) \<Rightarrow> 'a list \<Rightarrow> string \<Rightarrow> exn + 'a" where
  "member_of_value val members v = (case find (\<lambda>m. val m = v) members of None \<Rightarrow> Inl PyValueError | Some m \<Rightarrow> Inr m)"

definition kind_to_domain :: "provider_kind \<Rightarrow> exn + service_kind" where
  "kind_to_domain k = member_of_value service_kind_value [Internal_Kind, External_Kind] (kind_value k)"

definition kind_to_model :: "service_kind \<Rightarrow> exn + provider_kind" where
  "kind_to_model k = member_of_value kind_value [Internal, External] (service_kind_value k)"

definition auth_to_domain :: "auth_type \<Rightarrow> exn + service_auth" where
  "auth_to_domain a = member_of_value service_auth_value [No_Auth, Api_Key_Auth, Bearer_Auth, Basic_Auth, OAuth2_Auth]
     (auth_value a)"

definition auth_to_model :: "service_auth \<Rightarrow> exn + auth_type" where
  "auth_to_model a = member_of_value auth_value [Auth_None, Auth_Api_Key, Auth_Bearer, Auth_Basic, Auth_OAuth2]
     (service_auth_value a)"

definition product_to_domain :: "product_row \<Rightarrow> product_object" where
  "product_to_domain r = \<lparr>pd_id = p_id r, pd_sku = p_sku r, pd_name = p_name r, pd_active = p_active r\<rparr>"

definition product_to_model :: "product_object \<Rightarrow> product_row" where
  "product_to_model p = \<lparr>p_id = pd_id p, p_sku = pd_sku p, p_name = pd_name p, p_active = pd_active p\<rparr>"

definition provider_to_domain :: "provider_row \<Rightarrow> exn + provider_configuration" where
  "provider_to_domain r = (case kind_to_domain (v_kind r) of
     Inl e \<Rightarrow> Inl e
   | Inr k \<Rightarrow> Inr \<lparr>pc_id = v_id r, pc_name = v_name r, pc_kind = k, pc_driver = v_driver r, pc_base_url = v_base_url r,
       pc_timeout_ms = v_timeout_ms r, pc_capabilities = \<lparr>cp_availability = v_availability r, cp_hold = v_hold r,
         cp_confirm = v_confirm r, cp_release = v_release r\<rparr>, pc_enabled = v_enabled r\<rparr>)"

definition provider_to_model :: "provider_configuration \<Rightarrow> exn + provider_row" where
  "provider_to_model p = (case kind_to_model (pc_kind p) of
     Inl e \<Rightarrow> Inl e
   | Inr k \<Rightarrow> Inr \<lparr>v_id = pc_id p, v_name = pc_name p, v_kind = k, v_driver = pc_driver p, v_base_url = pc_base_url p,
       v_timeout_ms = pc_timeout_ms p, v_availability = cp_availability (pc_capabilities p),
       v_hold = cp_hold (pc_capabilities p), v_confirm = cp_confirm (pc_capabilities p),
       v_release = cp_release (pc_capabilities p), v_enabled = pc_enabled p\<rparr>)"

definition credentials_to_domain :: "credential_row \<Rightarrow> exn + credential_configuration" where
  "credentials_to_domain r = (case auth_to_domain (c_auth r) of
     Inl e \<Rightarrow> Inl e
   | Inr a \<Rightarrow> Inr \<lparr>cc_provider = c_provider r, cc_auth = a, cc_secret_ref = c_secret_ref r, cc_config = c_config r\<rparr>)"

definition credentials_to_model :: "credential_configuration \<Rightarrow> exn + credential_row" where
  "credentials_to_model c = (case auth_to_model (cc_auth c) of
     Inl e \<Rightarrow> Inl e
   | Inr a \<Rightarrow> Inr \<lparr>c_provider = cc_provider c, c_auth = a, c_secret_ref = cc_secret_ref c, c_config = cc_config c\<rparr>)"

text \<open>\<open>_to_provider_credentials\<close> of \<open>repository/reservation.py\<close>\<close>

definition to_provider_credentials :: "credential_row option \<Rightarrow> exn + credential_configuration option" where
  "to_provider_credentials c = (case c of
     None \<Rightarrow> Inr None
   | Some r \<Rightarrow> (case credentials_to_domain r of Inl e \<Rightarrow> Inl e | Inr x \<Rightarrow> Inr (Some x)))"

definition level_to_domain :: "offer_row \<Rightarrow> inventory_level" where
  "level_to_domain r = \<lparr>lv_product = o_product r, lv_provider = o_provider r, lv_on_hand = o_on_hand r,
     lv_reserved = o_reserved r, lv_priority = o_priority r, lv_version = o_version r, lv_group = o_group r\<rparr>"

subsection \<open>Nothing is refused, nothing is lost\<close>

lemma kinds_agree:
  "\<exists>s. kind_to_domain k = Inr s \<and> kind_to_model s = Inr k" "\<exists>k. kind_to_model s = Inr k \<and> kind_to_domain k = Inr s"
  by (cases k; cases s; simp add: kind_to_domain_def kind_to_model_def member_of_value_def)+

lemma auths_agree:
  "\<exists>s. auth_to_domain a = Inr s \<and> auth_to_model s = Inr a" "\<exists>a. auth_to_model s = Inr a \<and> auth_to_domain a = Inr s"
  by (cases a, simp_all add: auth_to_domain_def auth_to_model_def member_of_value_def)
     (cases s, simp_all add: auth_to_domain_def auth_to_model_def member_of_value_def)

theorem objects_survive_storage:
  "\<exists>r. provider_to_model p = Inr r \<and> provider_to_domain r = Inr p"
  "\<exists>r. credentials_to_model c = Inr r \<and> credentials_to_domain r = Inr c"
  "product_to_domain (product_to_model x) = x"
proof -
  obtain k where "kind_to_model (pc_kind p) = Inr k" "kind_to_domain k = Inr (pc_kind p)" using kinds_agree(2) by blast
  then show "\<exists>r. provider_to_model p = Inr r \<and> provider_to_domain r = Inr p"
    by (simp add: provider_to_model_def provider_to_domain_def)
  obtain a where "auth_to_model (cc_auth c) = Inr a" "auth_to_domain a = Inr (cc_auth c)" using auths_agree(2) by blast
  then show "\<exists>r. credentials_to_model c = Inr r \<and> credentials_to_domain r = Inr c"
    by (simp add: credentials_to_model_def credentials_to_domain_def)
qed (simp add: product_to_domain_def product_to_model_def)

theorem rows_survive_reading:
  "\<exists>p. provider_to_domain r = Inr p \<and> provider_to_model p = Inr r"
  "\<exists>c. credentials_to_domain s = Inr c \<and> credentials_to_model c = Inr s"
  "product_to_model (product_to_domain x) = x"
  "\<exists>c. to_provider_credentials oc = Inr c"
proof -
  obtain k where "kind_to_domain (v_kind r) = Inr k" "kind_to_model k = Inr (v_kind r)" using kinds_agree(1) by blast
  then show "\<exists>p. provider_to_domain r = Inr p \<and> provider_to_model p = Inr r"
    by (simp add: provider_to_model_def provider_to_domain_def)
  have read: "\<exists>c. credentials_to_domain s = Inr c \<and> credentials_to_model c = Inr s" for s
  proof -
    obtain a where "auth_to_domain (c_auth s) = Inr a" "auth_to_model a = Inr (c_auth s)" using auths_agree(1) by blast
    then show ?thesis by (simp add: credentials_to_model_def credentials_to_domain_def)
  qed
  then show "\<exists>c. credentials_to_domain s = Inr c \<and> credentials_to_model c = Inr s" .
  show "\<exists>c. to_provider_credentials oc = Inr c"
  proof (cases oc)
    case (Some x)
    obtain c where "credentials_to_domain x = Inr c" using read by blast
    with Some show ?thesis by (simp add: to_provider_credentials_def)
  qed (simp add: to_provider_credentials_def)
qed (simp add: product_to_domain_def product_to_model_def)

end
