(* ===== verification/Reservation_Port.thy ===== *)
theory Reservation_Port
  imports Aggregates
begin

section \<open>The reservation service over its repository port\<close>

text \<open>
  \<open>ReservationService\<close> and the workers' \<open>run_once\<close> of \<open>service/reservation.py\<close> as they are written:
  over a transaction factory that yields a \<open>ReservationRepositoryPort\<close>, a clock and an identifier
  factory. Over the SQL repository they are the operations of \<open>Reservation_Service\<close>. The
  repository's \<open>add\<close>, which the service does not call, is here too, and what it stores is what
  reading finds.
\<close>

record 's reservation_port =
  rp_add_with_hold :: "reservation \<Rightarrow> ('s, exn, bool) prog"
  rp_confirm :: "uuid \<Rightarrow> uuid \<Rightarrow> ('s, exn, reservation option) prog"
  rp_cancel :: "uuid \<Rightarrow> uuid \<Rightarrow> ('s, exn, reservation option) prog"
  rp_expire_batch :: "instant \<Rightarrow> int \<Rightarrow> ('s, exn, reservation list) prog"
  rp_reconcile_batch :: "instant \<Rightarrow> int \<Rightarrow> int \<Rightarrow> duration \<Rightarrow> ('s, exn, reservation list) prog"
  rp_get :: "uuid \<Rightarrow> ('s, exn, reservation option) prog"
  rp_get_by_key :: "uuid \<Rightarrow> string \<Rightarrow> ('s, exn, reservation option) prog"

text \<open>A transaction factory brackets the calls made within it.\<close>

type_synonym ('s, 'a) bracket = "('s, exn, 'a) prog \<Rightarrow> ('s, exn, 'a) prog"

definition port_create_body :: "'s reservation_port \<Rightarrow> ('s, exn, instant) prog \<Rightarrow> ('s, exn, uuid) prog \<Rightarrow> duration \<Rightarrow>
    uuid \<Rightarrow> item list \<Rightarrow> string \<Rightarrow> ('s, exn, reservation + reservation \<times> bool) prog" where
  "port_create_body P clock ids ttl user its key =
     (let fingerprint = reservation_request_fingerprint its in
      andThen (rp_get_by_key P user key) (\<lambda>existing. case existing of
        Some r \<Rightarrow> andThen (lift_sum (resolve_idempotent_retry r key fingerprint)) (\<lambda>x. ret (Inl x))
      | None \<Rightarrow>
          andThen ids (\<lambda>rid.
          andThen clock (\<lambda>now.
          andThen (lift_sum (start \<lparr>dr_id = rid, dr_user = user, dr_items = its, dr_key = key,
            dr_fingerprint = fingerprint, dr_now = now, dr_ttl = ttl\<rparr>)) (\<lambda>r.
          andThen (rp_add_with_hold P r) (\<lambda>held. ret (Inr (r, held))))))))"

definition port_create :: "'s reservation_port \<Rightarrow> ('s, reservation + reservation \<times> bool) bracket \<Rightarrow>
    ('s, reservation option) bracket \<Rightarrow> ('s, exn, instant) prog \<Rightarrow> ('s, exn, uuid) prog \<Rightarrow> duration \<Rightarrow>
    uuid \<Rightarrow> item list \<Rightarrow> string \<Rightarrow> ('s, exn, reservation) prog" where
  "port_create P tx tx' clock ids ttl user its key =
     andThen (catch (tx (port_create_body P clock ids ttl user its key))) (\<lambda>result.
       case result of
         Inl ConcurrentReservationCreationError \<Rightarrow>
           andThen (tx' (rp_get_by_key P user key)) (\<lambda>existing. case existing of
             None \<Rightarrow> raise ConcurrentReservationCreationError
           | Some r \<Rightarrow> lift_sum (resolve_idempotent_retry r key (reservation_request_fingerprint its)))
       | Inl e \<Rightarrow> raise e
       | Inr (Inl r) \<Rightarrow> ret r
       | Inr (Inr (r, held)) \<Rightarrow> if held then ret r else raise (InsufficientInventoryError its))"

definition port_expire_once :: "'s reservation_port \<Rightarrow> ('s, reservation list) bracket \<Rightarrow> ('s, exn, instant) prog \<Rightarrow> int \<Rightarrow>
    ('s, exn, reservation list) prog" where
  "port_expire_once P tx clock batch_size = tx (andThen clock (\<lambda>now. rp_expire_batch P now batch_size))"

definition port_reconcile_once :: "'s reservation_port \<Rightarrow> ('s, reservation list) bracket \<Rightarrow> ('s, exn, instant) prog \<Rightarrow>
    int \<Rightarrow> int \<Rightarrow> duration \<Rightarrow> ('s, exn, reservation list) prog" where
  "port_reconcile_once P tx clock batch_size max_attempts delay =
     tx (andThen clock (\<lambda>now. rp_reconcile_batch P now batch_size max_attempts delay))"

text \<open>The SQL repository; \<open>other\<close> is what commits just before a creation's insertion.\<close>

definition sql_reservations :: "environment \<Rightarrow> (database \<Rightarrow> database) \<Rightarrow> world reservation_port" where
  "sql_reservations E other = \<lparr>
     rp_add_with_hold = (\<lambda>r. andThen (interfere other) (\<lambda>_. add_with_hold E r)),
     rp_confirm = repo_confirm E,
     rp_cancel = repo_cancel E,
     rp_expire_batch = expire_batch E,
     rp_reconcile_batch = reconcile_batch E,
     rp_get = repo_get,
     rp_get_by_key = get_by_idempotency_key\<rparr>"

lemma sql_calls:
  "rp_add_with_hold (sql_reservations E other) = (\<lambda>r. andThen (interfere other) (\<lambda>_. add_with_hold E r))"
  "rp_confirm (sql_reservations E other) = repo_confirm E" "rp_cancel (sql_reservations E other) = repo_cancel E"
  "rp_expire_batch (sql_reservations E other) = expire_batch E"
  "rp_reconcile_batch (sql_reservations E other) = reconcile_batch E"
  "rp_get (sql_reservations E other) = repo_get" "rp_get_by_key (sql_reservations E other) = get_by_idempotency_key"
  by (simp_all add: sql_reservations_def)

lemma sql_reservation_service:
  "port_create (sql_reservations E other) (reservation_transaction E) (reservation_transaction E) (read_clock (e_utc E))
     (fresh_uuid E) ttl user its key = create E other ttl user its key"
  "reservation_transaction E (rp_get (sql_reservations E other) rid) = get E rid"
  "reservation_transaction E (rp_confirm (sql_reservations E other) rid user) = confirm E rid user"
  "reservation_transaction E (rp_cancel (sql_reservations E other) rid user) = cancel E rid user"
  "port_expire_once (sql_reservations E other) (reservation_transaction E) (read_clock (e_utc E)) n = expire_once E n"
  "port_reconcile_once (sql_reservations E other) (reservation_transaction E) (read_clock (e_utc E)) n m delay =
     reconcile_once E n m delay"
  unfolding port_create_def create_def port_create_body_def create_body_def get_def confirm_def cancel_def
    port_expire_once_def expire_once_def port_reconcile_once_def reconcile_once_def sql_calls andThen_assoc
  by (rule refl)+

subsection \<open>Adding and reading\<close>

definition repo_add :: "environment \<Rightarrow> reservation \<Rightarrow> unit io" where
  "repo_add E r =
     andThen (gets w_now) (\<lambda>now.
     andThen (lift_sum (to_model now r)) (\<lambda>row.
     andThen (try_write (insert_reservation row)) (\<lambda>_.
     andThen (insert_items E (res_id r) (res_items r)) (\<lambda>_. ret ()))))"

lemma map_sort_key: "map f (sort_key (\<lambda>x. k (f x)) xs) = sort_key k (map f xs)"
proof -
  have "map f (insort_key (\<lambda>x. k (f x)) x ys) = insort_key k (f x) (map f ys)" for x ys by (induction ys) simp_all
  then show ?thesis by (induction xs) simp_all
qed

lemma status_stored: "status_to_model st = Inr m \<Longrightarrow> status_of_model m = Inr st"
  by (cases st) auto

lemma target_stored: "optional_status status_to_model st = Inr m \<Longrightarrow> optional_status status_of_model m = Inr st"
  by (cases st) (auto simp: optional_status_def dest: status_stored split: sum.splits)

lemma items_stored:
  assumes "map (\<lambda>x. (ri_product x, ri_provider x, ri_quantity x)) rows =
      map (\<lambda>x. (it_product x, it_provider x, it_quantity x)) its"
    and "\<forall>x\<in>set rows. 0 < ri_quantity x"
  shows "sum_map item_of_row (sort_key ri_product rows) = Inr (sort_key it_product its)"
proof -
  have "map domain_item rows = its"
    using assms(1)
  proof (induction rows arbitrary: its)
    case (Cons x rows)
    then obtain i rest where "its = i # rest" by (cases its) auto
    with Cons show ?case by (cases i) (simp add: domain_item_def)
  qed simp
  moreover have "sum_map item_of_row (sort_key ri_product rows) = Inr (map domain_item (sort_key ri_product rows))"
    by (rule sum_map_Inr) (use assms(2) in \<open>auto simp: item_of_row_def mk_item_def domain_item_def\<close>)
  moreover have "map domain_item (sort_key ri_product rows) = sort_key it_product (map domain_item rows)"
    using map_sort_key [of domain_item it_product rows] by (simp add: domain_item_def)
  ultimately show ?thesis by simp
qed

text \<open>
  What is added is what is read. After a reservation was added, reading it by its identifier
  and by its user and idempotency key returns it as it was, its items in the order of their
  products, which is how every later answer lists them.
\<close>

theorem added_reservation_reads_back:
  assumes items: "\<forall>i\<in>set (items (w_db w)). find_reservation (ri_reservation i) (w_db w) \<noteq> None"
    and valid: "mk_reservation r = Inr r" and add: "repo_add E r w = (Inr (), w')"
  shows "repo_get (res_id r) w' = (Inr (Some (r\<lparr>res_items := sort_key it_product (res_items r)\<rparr>)), w') \<and>
    get_by_idempotency_key (res_user r) (res_key r) w' = (Inr (Some (r\<lparr>res_items := sort_key it_product (res_items r)\<rparr>)), w')"
proof -
  let ?d = "w_db w" and ?r = "r\<lparr>res_items := sort_key it_product (res_items r)\<rparr>"
  obtain row d1 rows where row: "to_model (w_now w) r = Inr row" and ins: "insert_reservation row ?d = Inr d1"
    and its: "insert_items E (res_id r) (res_items r) (w\<lparr>w_db := d1\<rparr>) = (Inr rows, w')"
    using add by (auto simp: repo_add_def prog_simps split: prod.splits sum.splits)
  note one = insert_reservation_Inr [OF ins] and many = insert_items_effect [OF its]
  from row obtain st target where st: "status_to_model (res_status r) = Inr st"
    and target: "optional_status status_to_model (res_target r) = Inr target"
    and eq: "row = \<lparr>r_id = res_id r, r_user = res_user r, r_key = res_key r, r_fingerprint = res_fingerprint r,
      r_status = st, r_expires = res_expires r, r_created = res_created r, r_updated = w_now w, r_target = target,
      r_failure_code = None, r_failure_reason = None\<rparr>"
    by (auto simp: to_model_def split: sum.splits)
  have new: "find_reservation (res_id r) ?d = None" using one eq by simp
  have db: "w_db w' = ?d\<lparr>reservations := reservations ?d @ [row], items := items ?d @ rows\<rparr>" using one many by simp
  have "ri_reservation i \<noteq> res_id r" if "i \<in> set (items ?d)" for i using items new that by force
  then have "items_of (res_id r) (w_db w') = rows"
    using many one by (auto simp: db items_of_def fresh_items_def filter_empty_conv intro!: filter_True)
  then have "to_domain row (w_db w') = mk_reservation \<lparr>res_id = res_id r, res_user = res_user r, res_items = sort_key it_product (res_items r), res_key = res_key r,
      res_fingerprint = res_fingerprint r, res_created = res_created r, res_expires = res_expires r,
      res_status = res_status r, res_target = res_target r\<rparr>"
    using many items_stored [of rows "res_items r"] status_stored [OF st] target_stored [OF target]
    by (simp add: to_domain_def fresh_items_def eq)
  also have "\<lparr>res_id = res_id r, res_user = res_user r, res_items = sort_key it_product (res_items r), res_key = res_key r,
      res_fingerprint = res_fingerprint r, res_created = res_created r, res_expires = res_expires r,
      res_status = res_status r, res_target = res_target r\<rparr> = ?r" by (cases r) simp
  finally have "to_domain row (w_db w') = mk_reservation ?r" .
  moreover have "mk_reservation ?r = Inr ?r"
    using valid by (auto simp: mk_reservation_def Let_def split: if_splits) (metis length_0_conv length_sort)
  ultimately have reads: "row_to_domain (Some row) w' = (Inr (Some ?r), w')"
    by (simp add: row_to_domain_def prog_simps)
  have "find_reservation (res_id r) (w_db w') = Some row"
    using new by (simp add: find_reservation_def db find_append) (simp add: eq)
  with reads have "repo_get (res_id r) w' = (Inr (Some ?r), w')"
    by (simp add: repo_get_def reload_domain_def andThen_def db_query_def)
  moreover have "find (\<lambda>x. r_user x = res_user r \<and> r_key x = res_key r) (reservations ?d) = None"
    using one by (auto simp: eq find_None_iff)
  then have "find (\<lambda>x. r_user x = res_user r \<and> r_key x = res_key r) (reservations (w_db w')) = Some row"
    by (simp add: db find_append) (simp add: eq)
  with reads have "get_by_idempotency_key (res_user r) (res_key r) w' = (Inr (Some ?r), w')"
    by (simp add: get_by_idempotency_key_def andThen_def db_query_def)
  ultimately show ?thesis by blast
qed

theorem added_reservation_reads_back_witness:
  "\<exists>w'. repo_add offline (sample_domain Pending) ((world_of stocked_database)\<lparr>w_ids := 1\<rparr>) = (Inr (), w') \<and>
     repo_get 1000 w' = (Inr (Some (sample_domain Pending)), w')"
proof -
  let ?w = "(world_of stocked_database)\<lparr>w_ids := 1\<rparr>"
  have row: "insert_reservation reserved_row stocked_database = Inr (stocked_database\<lparr>reservations := [reserved_row]\<rparr>)"
    by (simp add: insert_reservation_def reserved_row_def stocked_database_def empty_database_def find_simps)
  have item: "insert_item reserved_item (stocked_database\<lparr>reservations := [reserved_row]\<rparr>) =
      Inr (stocked_database\<lparr>reservations := [reserved_row], items := [reserved_item]\<rparr>)"
    by (simp add: insert_item_def int4_def reserved_item_def reserved_row_def stocked_database_def seller_def
        empty_database_def find_simps)
  have model: "to_model 0 (sample_domain Pending) = Inr reserved_row"
    by (simp add: to_model_def optional_status_def reserved_row_def sample_domain_def)
  have new: "new_item 1001 1000 \<lparr>it_product = 1000, it_provider = 1000, it_quantity = 2\<rparr> = reserved_item"
    by (simp add: new_item_def reserved_item_def)
  have uuid: "e_uuid offline (Suc 0) = 1001" by (simp add: offline_def sample_environment_def)
  have now: "w_now (world_of stocked_database) = 0" by (simp add: world_of_def)
  have its: "res_items (sample_domain Pending) = two_pieces" "res_id (sample_domain Pending) = 1000"
    by (simp_all add: sample_domain_def)
  have "\<exists>w'. repo_add offline (sample_domain Pending) ?w = (Inr (), w')"
    by (simp add: repo_add_def insert_items_def prog_simps now model row its two_pieces_def uuid new item)
  then obtain w' where add: "repo_add offline (sample_domain Pending) ?w = (Inr (), w')" by blast
  have "\<forall>i\<in>set (items (w_db ?w)). find_reservation (ri_reservation i) (w_db ?w) \<noteq> None"
    "mk_reservation (sample_domain Pending) = Inr (sample_domain Pending)"
    "(sample_domain Pending)\<lparr>res_items := sort_key it_product (res_items (sample_domain Pending))\<rparr> = sample_domain Pending"
    by (simp_all add: stocked_database_def empty_database_def mk_reservation_def sample_domain_def two_pieces_def)
  with added_reservation_reads_back [OF this(1,2) add] add its(2) show ?thesis by auto
qed

end
