(* ===== verification/Migration_Run.thy ===== *)
theory Migration_Run
  imports Migration_Chain Settings
begin

section \<open>The environment of the migrations\<close>

text \<open>
  \<open>migrations/env.py\<close>, which alembic executes to run the revisions: which database it takes, and the
  calls it makes to alembic and SQLAlchemy, any of which may raise. The command chooses the
  statements to run, \<open>mc_steps\<close>; on PostgreSQL, where \<open>DDL\<close> is transactional, alembic's transaction
  is one for all of them; a commit that raises
  has not taken place.
\<close>

subsection \<open>Options with interpolation\<close>

text \<open>
  The options of \<open>alembic.ini\<close> are those of Python's \<open>configparser\<close>: setting one refuses a percent sign
  that is neither doubled nor the beginning of a \<open>%(name)s\<close>, and reading one replaces these.
\<close>

fun without_escapes :: "string \<Rightarrow> string" where
  "without_escapes [] = []"
| "without_escapes (c # s) =
     (if c = CHR ''%'' \<and> s \<noteq> [] \<and> hd s = CHR ''%'' then without_escapes (tl s) else c # without_escapes s)"

text \<open>The name of a reference and what follows it, where the text after \<open>%(\<close> completes one.\<close>

definition reference :: "string \<Rightarrow> (string \<times> string) option" where
  "reference s =
     (let name = takeWhile (\<lambda>c. c \<noteq> CHR '')'') s; after = dropWhile (\<lambda>c. c \<noteq> CHR '')'') s in
      if name \<noteq> [] \<and> 2 \<le> length after \<and> after ! 1 = CHR ''s'' then Some (name, drop 2 after) else None)"

lemma reference_shorter [termination_simp]: "reference s = Some (name, rest) \<Longrightarrow> length rest < length s"
  using length_dropWhile_le [of "\<lambda>c. c \<noteq> CHR '')''" s] by (auto simp: reference_def Let_def split: if_splits)

lemma reference_tl_shorter [termination_simp]:
  "reference (tl s) = Some (name, rest) \<Longrightarrow> length rest < Suc (length s)"
  by (drule reference_shorter) simp

fun without_references :: "string \<Rightarrow> string" where
  "without_references [] = []"
| "without_references (c # s) =
     (if c = CHR ''%'' \<and> s \<noteq> [] \<and> hd s = CHR ''('' then
        (case reference (tl s) of None \<Rightarrow> c # without_references s | Some (name, rest) \<Rightarrow> without_references rest)
      else c # without_references s)"

definition settable :: "string \<Rightarrow> bool" where
  "settable v \<longleftrightarrow> CHR ''%'' \<notin> set (without_references (without_escapes v))"

fun interpolated :: "nat \<Rightarrow> (string \<Rightarrow> string option) \<Rightarrow> string \<Rightarrow> exn + string" where
  "interpolated 0 options v = Inl PyValueError"
| "interpolated (Suc n) options [] = Inr []"
| "interpolated (Suc n) options (c # s) =
     (if c \<noteq> CHR ''%'' then sum_bind (interpolated (Suc n) options s) (\<lambda>t. Inr (c # t))
      else case s of
        [] \<Rightarrow> Inl PyValueError
      | c' # s' \<Rightarrow>
          if c' = CHR ''%'' then sum_bind (interpolated (Suc n) options s') (\<lambda>t. Inr (CHR ''%'' # t))
          else if c' = CHR ''('' then
            (case reference s' of
               None \<Rightarrow> Inl PyValueError
             | Some (name, rest) \<Rightarrow> (case options (map lower_char name) of
                 None \<Rightarrow> Inl PyValueError
               | Some v \<Rightarrow>
                   sum_bind (if CHR ''%'' \<in> set v then interpolated n options v else Inr v) (\<lambda>t.
                   sum_bind (interpolated (Suc n) options rest) (\<lambda>u. Inr (t @ u)))))
          else Inl PyValueError)"

subsection \<open>The run\<close>

datatype alembic_call =
  Load_Logging | Configure_Offline "string option" | Configure_Online | Begin | Commit | Rollback
| Write_Script | Run_Step | Create_Engine "string option" | Connect | Close_Connection | Dispose_Engine

text \<open>
  A command: its mode, whether \<open>alembic.ini\<close> was read from a file, the statements it runs, the exception
  a refused one raises, and which calls raise.
\<close>

record migration_command =
  mc_offline :: bool
  mc_config_file :: bool
  mc_steps :: "ddl list"
  mc_refusal :: exn
  mc_faults :: "alembic_call \<Rightarrow> exn option"

record migration_state =
  ms_options :: "(string \<times> string) list"
  ms_catalogue :: catalogue
  ms_calls :: "alembic_call list"

type_synonym 'a migrating = "(migration_state, exn, 'a) prog"

definition alembic :: "migration_command \<Rightarrow> alembic_call \<Rightarrow> unit migrating" where
  "alembic C c = andThen (modify (\<lambda>s. s\<lparr>ms_calls := ms_calls s @ [c]\<rparr>)) (\<lambda>_.
     case mc_faults C c of None \<Rightarrow> ret () | Some e \<Rightarrow> raise e)"

text \<open>\<open>__exit__\<close> of a context manager; an exception of it replaces the result.\<close>

definition at_exit :: "'a migrating \<Rightarrow> unit migrating \<Rightarrow> 'a migrating" where
  "at_exit m f s = (case m s of (r, s') \<Rightarrow> andThen f (\<lambda>_. lift_sum r) s')"

definition set_main_option :: "string \<Rightarrow> string \<Rightarrow> unit migrating" where
  "set_main_option name v =
     (if settable v then modify (\<lambda>s. s\<lparr>ms_options := (name, v) # ms_options s\<rparr>) else raise PyValueError)"

definition option_value :: "migration_state \<Rightarrow> string \<Rightarrow> exn + string option" where
  "option_value s name = (case map_of (ms_options s) name of
     None \<Rightarrow> Inr None
   | Some v \<Rightarrow> sum_bind (interpolated 10 (map_of (ms_options s)) v) (\<lambda>t. Inr (Some t)))"

definition get_main_option :: "string \<Rightarrow> string option migrating" where
  "get_main_option name s = (option_value s name, s)"

text \<open>\<open>get_section\<close> reads every option of the section, so each has to be readable.\<close>

definition get_section :: "(string \<Rightarrow> string option) migrating" where
  "get_section s =
     (case find (\<lambda>(name, _). \<exists>e. option_value s name = Inl e) (ms_options s) of
        Some (name, _) \<Rightarrow> (map_sum id (\<lambda>_. Map.empty) (option_value s name), s)
      | None \<Rightarrow> (Inr (\<lambda>name. case option_value s name of Inl _ \<Rightarrow> None | Inr v \<Rightarrow> v), s))"

text \<open>
  \<open>with context.begin_transaction()\<close>: on a connection the statements are undone unless all of them
  and the commit succeed. Offline they are written to a script, and no database is there.
\<close>

definition run_step :: "migration_command \<Rightarrow> ddl \<Rightarrow> unit migrating" where
  "run_step C f = andThen (alembic C Run_Step) (\<lambda>_. andThen (gets ms_catalogue) (\<lambda>c. case f c of
     None \<Rightarrow> raise (mc_refusal C)
   | Some c' \<Rightarrow> modify (\<lambda>s. s\<lparr>ms_catalogue := c'\<rparr>)))"

definition migration_transaction :: "migration_command \<Rightarrow> unit migrating \<Rightarrow> unit migrating" where
  "migration_transaction C m =
     andThen (gets ms_catalogue) (\<lambda>before.
     andThen (alembic C Begin) (\<lambda>_.
       handle (andThen m (\<lambda>_. alembic C Commit)) (\<lambda>e.
         andThen (modify (\<lambda>s. s\<lparr>ms_catalogue := before\<rparr>)) (\<lambda>_.
         andThen (alembic C Rollback) (\<lambda>_. raise e)))))"

definition run_migrations_offline :: "migration_command \<Rightarrow> unit migrating" where
  "run_migrations_offline C =
     andThen (get_main_option ''sqlalchemy.url'') (\<lambda>url.
     andThen (alembic C (Configure_Offline url)) (\<lambda>_.
     migration_transaction C (alembic C Write_Script)))"

definition do_run_migrations :: "migration_command \<Rightarrow> unit migrating" where
  "do_run_migrations C =
     andThen (alembic C Configure_Online) (\<lambda>_.
     migration_transaction C (andThen (for_each (run_step C) (mc_steps C)) (\<lambda>_. ret ())))"

definition run_migrations_online :: "migration_command \<Rightarrow> unit migrating" where
  "run_migrations_online C =
     andThen get_section (\<lambda>section.
     andThen (alembic C (Create_Engine (section ''sqlalchemy.url''))) (\<lambda>_.
     andThen (alembic C Connect) (\<lambda>_.
     andThen (at_exit (do_run_migrations C) (alembic C Close_Connection)) (\<lambda>_.
     alembic C Dispose_Engine))))"

definition choose_database :: "migration_command \<Rightarrow> environ \<Rightarrow> unit migrating" where
  "choose_database C env =
     andThen (if mc_config_file C then alembic C Load_Logging else ret ()) (\<lambda>_.
     case env ''DATABASE_URL'' of None \<Rightarrow> ret () | Some url \<Rightarrow> set_main_option ''sqlalchemy.url'' url)"

definition run_env :: "migration_command \<Rightarrow> environ \<Rightarrow> unit migrating" where
  "run_env C env =
     andThen (choose_database C env) (\<lambda>_. if mc_offline C then run_migrations_offline C else run_migrations_online C)"

subsection \<open>What a run leaves\<close>

lemma alembic_cases:
  assumes "alembic C c s = (r, s')"
  shows "s' = s\<lparr>ms_calls := ms_calls s @ [c]\<rparr>" and "r = (case mc_faults C c of None \<Rightarrow> Inr () | Some e \<Rightarrow> Inl e)"
  using assms by (auto simp: alembic_def prog_simps split: option.splits)

lemma step_cases:
  assumes "run_step C f s = (r, s')"
  shows "ms_options s' = ms_options s \<and> ms_calls s' = ms_calls s @ [Run_Step] \<and>
    (r = Inr () \<longrightarrow> f (ms_catalogue s) = Some (ms_catalogue s'))"
  using assms by (auto simp: run_step_def alembic_def prog_simps split: option.splits)

lemma steps_cases:
  assumes "for_each (run_step C) fs s = (r, s')"
  shows "ms_options s' = ms_options s \<and> (\<exists>n. ms_calls s' = ms_calls s @ replicate n Run_Step) \<and>
    (\<forall>xs. r = Inr xs \<longrightarrow> run_ddl fs (ms_catalogue s) = Some (ms_catalogue s'))"
  using assms
proof (induction fs arbitrary: s r)
  case Nil
  then show ?case by (auto simp: prog_simps intro: exI [of _ 0])
next
  case (Cons f fs)
  obtain r1 s1 where one: "run_step C f s = (r1, s1)" by (cases "run_step C f s")
  note first = step_cases [OF one]
  show ?case
  proof (cases r1)
    case (Inl e)
    with Cons.prems one first show ?thesis by (auto simp: prog_simps intro: exI [of _ "Suc 0"])
  next
    case (Inr u)
    obtain r2 where rest: "for_each (run_step C) fs s1 = (r2, s')" and ok: "\<forall>xs. r = Inr xs \<longrightarrow> (\<exists>ys. r2 = Inr ys)"
      using Cons.prems one Inr by (auto simp: prog_simps split: prod.splits sum.splits)
    from Cons.IH [OF rest] obtain n where "ms_calls s' = ms_calls s1 @ replicate n Run_Step" by blast
    with first have "ms_calls s' = ms_calls s @ replicate (Suc n) Run_Step" by simp
    with Cons.IH [OF rest] first ok Inr show ?thesis by (auto intro: exI [of _ "Suc n"])
  qed
qed

definition inner :: "alembic_call list \<Rightarrow> bool" where
  "inner calls \<longleftrightarrow> set calls \<subseteq> {Configure_Online, Begin, Run_Step, Commit, Rollback}"

lemma do_run_cases:
  assumes "do_run_migrations C s = (r, s')"
  shows "(\<exists>calls. inner calls \<and> ms_calls s' = ms_calls s @ calls) \<and>
    (if r = Inr () then run_ddl (mc_steps C) (ms_catalogue s) = Some (ms_catalogue s') else ms_catalogue s' = ms_catalogue s)"
proof -
  obtain rs t where steps: "for_each (run_step C) (mc_steps C) (s\<lparr>ms_calls := ms_calls s @ [Configure_Online, Begin]\<rparr>) = (rs, t)"
    by (cases "for_each (run_step C) (mc_steps C) (s\<lparr>ms_calls := ms_calls s @ [Configure_Online, Begin]\<rparr>)")
  note facts = steps_cases [OF steps]
  have "set (replicate n Run_Step) \<subseteq> {Run_Step}" for n by auto
  with facts assms steps show ?thesis
    by (auto simp: do_run_migrations_def migration_transaction_def alembic_def prog_simps inner_def
        split: option.splits sum.splits prod.splits if_splits)
qed

lemma choose_cases:
  assumes "choose_database C env s = (r, s')"
  shows "ms_catalogue s' = ms_catalogue s" and "\<exists>k. ms_calls s' = ms_calls s @ replicate k Load_Logging"
proof -
  have "ms_catalogue s' = ms_catalogue s \<and> (ms_calls s' = ms_calls s @ replicate 0 Load_Logging \<or>
      ms_calls s' = ms_calls s @ replicate 1 Load_Logging)"
    using assms by (auto simp: choose_database_def set_main_option_def alembic_def prog_simps
        split: option.splits if_splits sum.splits prod.splits)
  then show "ms_catalogue s' = ms_catalogue s" and "\<exists>k. ms_calls s' = ms_calls s @ replicate k Load_Logging" by blast+
qed

lemma env_prefix:
  assumes "run_env C env s = (r, s')"
  shows "\<exists>t. ms_catalogue t = ms_catalogue s \<and> (\<exists>k. ms_calls t = ms_calls s @ replicate k Load_Logging) \<and>
    ((\<exists>e. r = Inl e) \<and> s' = t \<or> (if mc_offline C then run_migrations_offline C else run_migrations_online C) t = (r, s'))"
proof -
  obtain q t where choose: "choose_database C env s = (q, t)" by (cases "choose_database C env s")
  with assms have "(\<exists>e. r = Inl e) \<and> s' = t \<or> (if mc_offline C then run_migrations_offline C else run_migrations_online C) t = (r, s')"
    by (cases q) (auto simp: run_env_def andThen_def split: if_splits)
  with choose_cases [OF choose] show ?thesis by blast
qed

lemma offline_cases:
  assumes "run_migrations_offline C s = (r, s')"
  shows "ms_catalogue s' = ms_catalogue s \<and> (\<exists>calls. ms_calls s' = ms_calls s @ calls \<and> Connect \<notin> set calls)"
  using assms
  by (auto simp: run_migrations_offline_def migration_transaction_def get_main_option_def alembic_def prog_simps
      split: option.splits sum.splits prod.splits)

lemma section_pure: "\<exists>q. get_section s = (q, s)"
  by (auto simp: get_section_def split: option.split)

lemma exit_cases:
  assumes "at_exit (do_run_migrations C) (alembic C Close_Connection) s = (r, s')"
  shows "(run_ddl (mc_steps C) (ms_catalogue s) = Some (ms_catalogue s') \<or> r \<noteq> Inr () \<and> ms_catalogue s' = ms_catalogue s) \<and>
    (\<exists>calls. ms_calls s' = ms_calls s @ calls \<and> count_list calls Connect = 0 \<and> count_list calls Close_Connection = 1)"
proof -
  obtain q t where run: "do_run_migrations C s = (q, t)" by (cases "do_run_migrations C s")
  from do_run_cases [OF run] obtain calls where calls: "inner calls" "ms_calls t = ms_calls s @ calls" by blast
  have s': "s' = t\<lparr>ms_calls := ms_calls t @ [Close_Connection]\<rparr>" and r: "r = Inr () \<longrightarrow> q = Inr ()"
    using assms run by (auto simp: at_exit_def alembic_def prog_simps split: option.splits)
  have "count_list (calls @ [Close_Connection]) Connect = 0" "count_list (calls @ [Close_Connection]) Close_Connection = 1"
    using calls(1) by (auto simp: inner_def count_list_0_iff)
  with s' calls(2) have "\<exists>calls. ms_calls s' = ms_calls s @ calls \<and> count_list calls Connect = 0 \<and> count_list calls Close_Connection = 1"
    by (intro exI [of _ "calls @ [Close_Connection]"]) simp
  moreover have "run_ddl (mc_steps C) (ms_catalogue s) = Some (ms_catalogue s') \<or> r \<noteq> Inr () \<and> ms_catalogue s' = ms_catalogue s"
    using do_run_cases [OF run] r s' by (cases "q = Inr ()") auto
  ultimately show ?thesis by blast
qed

lemma online_cases:
  assumes "run_migrations_online C s = (r, s')"
  shows "(run_ddl (mc_steps C) (ms_catalogue s) = Some (ms_catalogue s') \<or> r \<noteq> Inr () \<and> ms_catalogue s' = ms_catalogue s) \<and>
    (\<exists>calls. ms_calls s' = ms_calls s @ calls \<and>
      (mc_faults C Connect = None \<longrightarrow> count_list calls Connect = count_list calls Close_Connection))"
proof -
  obtain q where "get_section s = (q, s)" using section_pure by blast
  then consider "r \<noteq> Inr ()" "s' = s"
    | c where "r \<noteq> Inr ()" "s' = s\<lparr>ms_calls := ms_calls s @ [Create_Engine c]\<rparr>"
    | c where "r \<noteq> Inr ()" "s' = s\<lparr>ms_calls := ms_calls s @ [Create_Engine c, Connect]\<rparr>" "mc_faults C Connect \<noteq> None"
    | c q' t where "at_exit (do_run_migrations C) (alembic C Close_Connection)
          (s\<lparr>ms_calls := ms_calls s @ [Create_Engine c, Connect]\<rparr>) = (q', t)"
        "if q' = Inr () then s' = t\<lparr>ms_calls := ms_calls t @ [Dispose_Engine]\<rparr> else r \<noteq> Inr () \<and> s' = t"
    using assms
    by (cases q; cases "mc_faults C (Create_Engine (projr q ''sqlalchemy.url''))"; cases "mc_faults C Connect")
      (auto simp: run_migrations_online_def alembic_def prog_simps split: prod.splits sum.splits option.splits)
  then show ?thesis
  proof cases
    case 4
    from exit_cases [OF 4(1)] obtain calls where calls: "ms_calls t = (ms_calls s @ [Create_Engine c, Connect]) @ calls"
      "count_list calls Connect = 0" "count_list calls Close_Connection = 1" by auto
    define all where "all = [Create_Engine c, Connect] @ calls @ (if q' = Inr () then [Dispose_Engine] else [])"
    have "ms_calls s' = ms_calls s @ all \<and> count_list all Connect = count_list all Close_Connection"
      using 4(2) calls by (auto simp: all_def)
    moreover have "run_ddl (mc_steps C) (ms_catalogue s) = Some (ms_catalogue s') \<or> r \<noteq> Inr () \<and> ms_catalogue s' = ms_catalogue s"
      using exit_cases [OF 4(1)] 4(2) by (auto split: if_splits)
    ultimately show ?thesis by blast
  qed auto
qed

text \<open>
  A run is all or nothing: whatever raises, the schema is the one before or the one all the statements
  lead to, the latter whenever an online run ends well; a script changes no database; and a connection
  that was made is closed.
\<close>

theorem migration_runs_are_all_or_nothing:
  assumes "run_env C env s = (r, s')"
  shows "(ms_catalogue s' = ms_catalogue s \<or> \<not> mc_offline C \<and> run_ddl (mc_steps C) (ms_catalogue s) = Some (ms_catalogue s')) \<and>
    (r = Inr () \<and> \<not> mc_offline C \<longrightarrow> run_ddl (mc_steps C) (ms_catalogue s) = Some (ms_catalogue s')) \<and>
    (\<exists>calls. ms_calls s' = ms_calls s @ calls \<and> (mc_offline C \<longrightarrow> Connect \<notin> set calls) \<and>
      (\<not> mc_offline C \<and> mc_faults C Connect = None \<longrightarrow> count_list calls Connect = count_list calls Close_Connection))"
proof -
  from env_prefix [OF assms] obtain t k where t: "ms_catalogue t = ms_catalogue s" "ms_calls t = ms_calls s @ replicate k Load_Logging"
    and cases: "(\<exists>e. r = Inl e) \<and> s' = t \<or> (if mc_offline C then run_migrations_offline C else run_migrations_online C) t = (r, s')"
    by blast
  have zero: "count_list (replicate k Load_Logging) Connect = 0" "count_list (replicate k Load_Logging) Close_Connection = 0"
    by (simp_all add: count_list_0_iff)
  from cases consider "\<exists>e. r = Inl e" "s' = t" | "mc_offline C" "run_migrations_offline C t = (r, s')"
    | "\<not> mc_offline C" "run_migrations_online C t = (r, s')" by (auto split: if_splits)
  then show ?thesis
  proof cases
    case 1
    with t zero show ?thesis by (auto simp: count_list_0_iff)
  next
    case 2
    with offline_cases [OF 2(2)] t show ?thesis by auto
  next
    case 3
    from conjunct2 [OF online_cases [OF 3(2)]] obtain calls where calls: "ms_calls s' = ms_calls t @ calls"
      "mc_faults C Connect = None \<longrightarrow> count_list calls Connect = count_list calls Close_Connection"
      by (elim exE conjE)
    define all where "all = replicate k Load_Logging @ calls"
    have all: "ms_calls s' = ms_calls s @ all" using calls(1) t(2) by (simp add: all_def)
    have counts: "mc_faults C Connect = None \<longrightarrow> count_list all Connect = count_list all Close_Connection"
      using calls(2) zero by (simp add: all_def)
    have "run_ddl (mc_steps C) (ms_catalogue s) = Some (ms_catalogue s') \<or> r \<noteq> Inr () \<and> ms_catalogue s' = ms_catalogue s"
      using conjunct1 [OF online_cases [OF 3(2)]] t(1) by simp
    then have "ms_catalogue s' = ms_catalogue s \<or> run_ddl (mc_steps C) (ms_catalogue s) = Some (ms_catalogue s')"
      "r = Inr () \<longrightarrow> run_ddl (mc_steps C) (ms_catalogue s) = Some (ms_catalogue s')" by argo+
    with all counts 3(1) show ?thesis by simp
  qed
qed

text \<open>\<open>alembic upgrade head\<close> from any revision.\<close>

theorem upgrading_reaches_the_head:
  assumes "n \<le> 5" and "ms_catalogue s = catalogue_after n" and "mc_steps C = concat (map fst (drop n revisions))"
    and "\<not> mc_offline C" and "run_env C env s = (Inr (), s')"
  shows "ms_catalogue s' = catalogue_after 5"
proof -
  have "migrated 5 = (case migrated n of None \<Rightarrow> None | Some c \<Rightarrow> run_ddl (concat (map fst (drop n revisions))) c)"
    unfolding migrated_def by (metis run_append append_take_drop_id concat_append map_append length_revisions order_refl take_all)
  then have "run_ddl (mc_steps C) (ms_catalogue s) = Some (catalogue_after 5)"
    using assms migrated_after [of n] migrated_after [of 5] by simp
  with migration_runs_are_all_or_nothing [OF assms(5)] assms(4) show ?thesis by simp
qed

subsection \<open>Which database\<close>

lemma plain_text:
  assumes "CHR ''%'' \<notin> set v"
  shows "settable v" and "interpolated (Suc n) options v = Inr v"
proof -
  have "without_escapes v = v \<and> without_references v = v" using assms by (induction v) auto
  then show "settable v" using assms by (simp add: settable_def)
  show "interpolated (Suc n) options v = Inr v" using assms by (induction v) (auto simp: sum_bind_def)
qed

text \<open>
  A URL without percent signs reaches the engine as it is; one with a percent-encoded character, which
  the service itself accepts in the same variable, ends the run before anything is configured.
\<close>

theorem percent_encoded_urls_cannot_migrate:
  assumes "\<not> settable url" and "env ''DATABASE_URL'' = Some url" and "\<not> mc_config_file C"
  shows "run_env C env s = (Inl PyValueError, s)"
  using assms by (simp add: run_env_def choose_database_def set_main_option_def prog_simps)

theorem plain_urls_are_taken:
  assumes "CHR ''%'' \<notin> set url" and "env ''DATABASE_URL'' = Some url" and "\<not> mc_config_file C" and "mc_offline C"
  shows "run_env C env s = migration_transaction C (alembic C Write_Script)
      (s\<lparr>ms_options := (''sqlalchemy.url'', url) # ms_options s, ms_calls := ms_calls s @ [Configure_Offline (Some url)]\<rparr>) \<or>
    mc_faults C (Configure_Offline (Some url)) \<noteq> None"
  using assms plain_text [of url] plain_text(2) [OF assms(1), of 9]
  by (simp add: run_env_def choose_database_def set_main_option_def run_migrations_offline_def get_main_option_def
      option_value_def sum_bind_def alembic_def prog_simps split: option.split)

lemma encoded_at_sign: "\<not> settable ''postgresql+asyncpg://shop:a%40b@db/inventory''"
  by (simp add: settable_def reference_def)

end
