(* ===== verification/Spec2Isabelle.thy ===== *)
theory Spec2Isabelle
  imports Findings Expiration Settlement External_Mock Processes Http_Metrics Schema_Agreement Item_Sellers Api_System
    Concurrent_Management Row_Locks Domain_Objects Reservation_Port Migration_Run
begin

text \<open>
  A verification development of the inventory reservation service: a FastAPI application over
  PostgreSQL that holds stock for a cart at the sellers the customer selected, confirms the
  reservation into an order or releases it, and manages products, sellers and their stock; with two
  worker processes that expire overdue reservations and reconcile provider operations whose outcome is
  unknown. Paths below are under \<open>src/inventory_reservation/\<close> unless they begin with
  \<open>migrations/\<close>.

  \<^bold>\<open>The model.\<close> Programs are state transformers \<open>('s, 'e, 'a) prog\<close> that return a value or
  an exception and the new state (\<open>Prelude\<close>). The state of a process is a \<open>world\<close> (\<open>World\<close>):
  the database, the copy a transaction rolls back to, the registry of provider adapters with their
  circuits, the log of HTTP requests sent, and how many clock readings and identifiers were drawn. What
  a process cannot decide is an \<open>environment\<close>: the replies of the sellers, the clocks, the
  identifier factory, the secrets, and how JSON leaves are read. Python's exceptions are one datatype
  \<open>exn\<close>; integers are unbounded where Python's are, and \<open>int4\<close> marks the columns of 32 bits, beyond
  which the database answers \<open>DataError\<close>. Times are in microseconds. Characters are bytes: texts
  outside Latin-1 are not modelled.

  \<^bold>\<open>Parts.\<close>

  \<^item> \<open>Prelude\<close>, \<open>Py_Text\<close>, \<open>Sha256\<close>: programs and the frame rules \<open>keeps\<close>; Python's
    texts (decimal and hexadecimal numbers, UUIDs, base64, \<open>strip\<close>, \<open>lower\<close>); SHA-256.
  \<^item> \<open>Reservation_Domain\<close>: \<open>service/reservation.py\<close>, the aggregate, its states and the
    fingerprint of a request. The fingerprint separates different carts unless SHA-256 collides.
  \<^item> \<open>Schema\<close>: \<open>repository/models.py\<close> and the tables, keys and checks of \<open>migrations/versions\<close>.
    Insertions return the violated constraint by its name, as the repositories read it.
  \<^item> \<open>Catalogue\<close>, \<open>Migrations\<close>, \<open>Migration_Chain\<close>, \<open>Models\<close>: tables with their columns,
    constraints and indexes, the operations alembic runs on them with PostgreSQL's refusals, every
    revision's upgrade and downgrade, and the tables \<open>models.py\<close> declares. The revisions build
    exactly these, but for the name of one check, and each downgrade undoes its upgrade.
    \<open>Schema_Agreement\<close>: the insertions of \<open>Schema\<close> answer as the declared tables say.
    \<open>Item_Sellers\<close>: the rows revision 8e5d7c2a91b4 rewrites. \<open>Migration_Run\<close>: \<open>migrations/env.py\<close>,
    which database a run takes, and that it is all or nothing whichever call raises.
  \<^item> \<open>Provider_Port\<close>: \<open>service/provider.py\<close>, outcomes, the circuit breaker over any operation, the
    router over hold ports. At most one probe is in flight, a tripped circuit calls nobody.
  \<^item> \<open>Http_Provider\<close>: \<open>repository/provider.py\<close>, secrets, headers, the four HTTP calls and
    the classification of their replies, the registry.
  \<^item> \<open>Inventory_Repo\<close>: \<open>repository/inventory.py\<close>, conditional updates of offers and the
    routing of a hold within a group of substitutable sellers.
  \<^item> \<open>Reservation_Repo\<close>: \<open>repository/reservation.py\<close>, creation with holds and compensation,
    confirmation, release, both batches, the stored provider operations.
  \<^item> \<open>Reservation_Creation\<close>, \<open>Reservation_Service\<close>: the service over transactions that
    commit or roll back; the life of a reservation as a preorder on its statuses.
  \<^item> \<open>Catalog\<close>, \<open>Catalog_Properties\<close>: products, providers with their validation and credentials,
    inventory levels (\<open>service\<close> and \<open>repository\<close> of \<open>product\<close>, \<open>provider_management\<close>,
    \<open>inventory_management\<close>).
  \<^item> \<open>Management_Ports\<close>, \<open>Reservation_Port\<close>: the services as they are written, over the protocols
    of their repositories, a clock and an identifier factory; over the SQL repositories they are the
    operations of \<open>Catalog\<close> and \<open>Reservation_Service\<close>, by equations. A reservation that was added
    reads back as it was. \<open>Domain_Objects\<close>: the objects the management services work on and
    the repositories' translations to and from rows, which lose nothing.
  \<^item> \<open>Concurrent_Management\<close>: the same services over a port where other requests commit before each
    transaction: providers stay valid, and what one \<open>PATCH\<close> answered another may undo.
  \<^item> \<open>Row_Locks\<close>: confirmations, cancellations and batches as transactions that claim rows and
    finish later, in any overlap: no reservation has two, and each works on rows as they still are.
  \<^item> \<open>Stock_Ledger\<close>, \<open>Shop_Invariant\<close>, \<open>Frame\<close>, \<open>Shop_System\<close>: the invariant of the
    database, that every operation keeps it, and the runs \<open>commits\<close> of all operations.
  \<^item> \<open>Sample_Run\<close>, \<open>Sample_Closing\<close>, \<open>Shop_Properties\<close>, \<open>Closed_Reservations\<close>,
    \<open>Aggregates\<close>, \<open>Coverage\<close>, \<open>Own_Stock\<close>, \<open>Creation_Properties\<close>,
    \<open>Provider_Operations\<close>: what follows for runs: no overselling, orders for exactly the confirmed
    reservations, statuses that move forward, one reservation per idempotency key, the refinement of
    the aggregate's own \<open>confirm\<close> and \<open>cancel\<close>, progress on internal stock, retries that
    repeat the same request and end.
  \<^item> \<open>Workers\<close>, \<open>Settings\<close>, \<open>Processes\<close>: the run loops of \<open>service/reservation.py\<close>, the
    observers of \<open>repository/telemetry.py\<close>, what each process reads of its environment variables,
    and what it opens and closes, whichever call raises (\<open>controller/main.py\<close>,
    \<open>controller/*_worker.py\<close>).
  \<^item> \<open>Batches\<close>, \<open>Expiration\<close>, \<open>Reconciliation\<close>, \<open>Settlement\<close>: what one batch of each worker
    takes, answers and leaves alone; that own stock always expires, and that a reservation whose
    sellers answer again is settled by the next attempt.
  \<^item> \<open>Http_Api\<close>, \<open>Api_Properties\<close>, \<open>Http_Metrics\<close>: the endpoints of \<open>controller/\<close>,
    their request and response models and exception handlers, and the metrics middleware.
  \<^item> \<open>Api_System\<close>: the routes, \<open>create_app\<close>, and sessions of requests among the other processes:
    each is a run of the system, so its clients need no discipline for the properties of
    \<open>commits False\<close>. The framework's choice of a route is a parameter.
  \<^item> \<open>External_Mock\<close>: the seller simulator, and what the adapter makes of each of its scenarios.
  \<^item> \<open>Findings\<close>: behaviour the documents do not promise, or contradict, shown on concrete runs.

  \<^bold>\<open>Interfaces.\<close> \<open>transition_system\<close> (runs and invariants, for the shop), \<open>stock_ports\<close>
  (what the router needs of the ports it tries), \<open>allocation_loop\<close> (what
  confirming and releasing an allocation share), \<open>batch\<close> (one iteration of a worker's batch),
  \<open>batch_source\<close> (what a worker needs of its \<open>run_once\<close>), \<open>provider_contract\<close> (what the provider
  service needs of its repository while others write): each is interpreted on the program's definitions in the theory that provides them.

  \<^bold>\<open>Concurrency.\<close> A transaction runs as one step of \<open>commits\<close>. Row locks (\<open>FOR UPDATE\<close>,
  \<open>SKIP LOCKED\<close>) and conditional updates serialise transactions on the rows they share: for the locks on
  reservations \<open>Row_Locks\<close> shows it, with the claim and the end of a transaction as two steps; the
  waiting of conditional updates on one offer is PostgreSQL's. The one place
  where another commit shows inside a transaction, the race of two creations for one idempotency key, is
  the parameter \<open>other\<close> of \<open>create\<close>: the database as it is when the insertion is tried. Management requests take several transactions, and
  \<open>Concurrent_Management\<close> lets others commit in between. Between the
  batches of a worker, and while it waits, others commit any runs. Strict runs (\<open>commits True\<close>) are
  those whose callers confirm only pending, confirming or confirmed reservations and do not cancel
  failed ones; \<open>Findings\<close> shows what the code does otherwise, and \<open>closed_reservations_stay_closed\<close>
  and the other properties of \<open>commits False\<close> need no such discipline.

  \<^bold>\<open>Bounds.\<close> No property bounds the number of reservations, sellers or steps. The worker's loop is a
  partial function: \<open>None\<close> is a loop that never sees its stop event, and
  \<open>worker_runs_until_stopped\<close> shows there is no other.

  \<^bold>\<open>Not modelled.\<close> The wiring of objects in \<open>controller/main.py\<close>; log output
  other than the observers' fields; the exposition of metrics; SQLAlchemy's engine and pool; PostgreSQL's cut of names
  beyond 63 characters, which one check has; versions of offers beyond their being counted (no code tests them). JSON decoding of leaf types, \<open>float\<close> of a text, URL parsing and collation
  are parameters.
\<close>

end
